(* ===== verification/GoPrelude.thy ===== *)
theory GoPrelude
  imports Main "HOL-Library.Word" "HOL-Library.Signed_Division"
begin

text \<open>
  Prelude: the Go values every component uses.

  \<^item> Go's \<open>int\<close> and \<open>int64\<close> (64-bit two's complement on the driver's targets) are
    HOL integers in the range \<open>in_int\<close>; every addition, multiplication or subtraction that
    the code performs on them is followed by \<open>wrap64\<close>, the two's complement wrap-around.
    Go's division truncates towards zero and is \<open>sdiv\<close>/\<open>smod\<close> of the library.
  \<^item> Go's \<open>uint64\<close> is \<open>64 word\<close>.
  \<^item> A pair \<open>(value, error)\<close> is a sum: \<open>Inl\<close> the error, \<open>Inr\<close> the value.
  \<^item> A Go map is a partial function. Its iteration order is unspecified, so an operation
    that ranges over a map takes the order as an argument, any list that satisfies
    \<open>range_order\<close>.
\<close>

named_theorems go_eval \<open>equations that evaluate the model on concrete input\<close>
named_theorems int_range \<open>facts that a value is a Go int\<close>

subsection \<open>Machine integers\<close>

definition wrap64 :: "int \<Rightarrow> int" where
  "wrap64 x = (x + 2 ^ 63) mod 2 ^ 64 - 2 ^ 63"

definition in_int :: "int \<Rightarrow> bool" where
  "in_int x \<longleftrightarrow> - (2 ^ 63) \<le> x \<and> x < 2 ^ 63"

lemma wrap64_id [simp]: "in_int x \<Longrightarrow> wrap64 x = x"
  by (simp add: in_int_def wrap64_def)

lemma in_int_wrap64 [simp, int_range]: "in_int (wrap64 x)"
proof -
  have "0 \<le> (x + 2 ^ 63) mod 2 ^ 64" "(x + 2 ^ 63) mod 2 ^ 64 < (2 ^ 64 :: int)"
    by simp_all
  moreover have "(2 :: int) ^ 64 = 2 ^ 63 + 2 ^ 63" by simp
  ultimately show ?thesis
    unfolding in_int_def wrap64_def by linarith
qed

lemma wrap64_wrap64 [simp]: "wrap64 (wrap64 x) = wrap64 x"
  by simp

lemma wrap64_cong:
  assumes "x mod 2 ^ 64 = y mod 2 ^ 64"
  shows "wrap64 x = wrap64 y"
  using mod_add_cong [OF assms refl, of "2 ^ 63"] by (simp add: wrap64_def)

lemma wrap64_mod: "wrap64 x mod 2 ^ 64 = x mod 2 ^ 64"
proof -
  have "((x + 2 ^ 63) mod 2 ^ 64 - 2 ^ 63) mod 2 ^ 64 = (x + 2 ^ 63 - 2 ^ 63) mod (2 ^ 64 :: int)"
    by (rule mod_diff_left_eq)
  then show ?thesis by (simp add: wrap64_def)
qed

lemma wrap64_add_left: "wrap64 (wrap64 x + y) = wrap64 (x + y)"
  by (rule wrap64_cong, rule mod_add_cong) (simp_all only: wrap64_mod)

lemma wrap64_add_right: "wrap64 (x + wrap64 y) = wrap64 (x + y)"
  by (rule wrap64_cong, rule mod_add_cong) (simp_all only: wrap64_mod)

lemma in_intI [intro]: "- (2 ^ 63) \<le> x \<Longrightarrow> x < 2 ^ 63 \<Longrightarrow> in_int x"
  by (simp add: in_int_def)

lemma in_intD: "in_int x \<Longrightarrow> - (2 ^ 63) \<le> x" "in_int x \<Longrightarrow> x < 2 ^ 63"
  by (simp_all add: in_int_def)

lemma in_int_between: "in_int a \<Longrightarrow> in_int b \<Longrightarrow> a \<le> x \<Longrightarrow> x \<le> b \<Longrightarrow> in_int x"
  by (simp add: in_int_def)

lemma in_int_small [int_range]: "0 \<le> x \<Longrightarrow> x \<le> 2 ^ 62 \<Longrightarrow> in_int x"
  by (simp add: in_int_def)

lemma in_int_0 [simp]: "in_int 0" and in_int_1 [simp]: "in_int 1"
  by (simp_all add: in_int_def)

text \<open>A running total whose remaining part keeps it below the bound does not wrap.\<close>

lemma wrap64_running:
  assumes "0 \<le> a" "0 \<le> b" "0 \<le> c" "a + (b + c) < 2 ^ 63"
  shows "wrap64 b = b" "wrap64 (a + b) = a + b"
proof -
  have "in_int b" "in_int (a + b)" using assms by (simp_all add: in_int_def)
  then show "wrap64 b = b" "wrap64 (a + b) = a + b" by simp_all
qed

text \<open>Truncated division agrees with \<open>div\<close> where both operands are non-negative.\<close>

lemma sdiv_nonneg: "0 \<le> a \<Longrightarrow> 0 \<le> b \<Longrightarrow> a sdiv b = a div (b :: int)"
  by (cases "a = 0"; cases "b = 0") (simp_all add: signed_divide_int_def)

lemma smod_nonneg: "0 \<le> a \<Longrightarrow> 0 \<le> b \<Longrightarrow> a smod b = a mod (b :: int)"
  by (cases "a = 0") (simp_all add: signed_modulo_int_def)

subsection \<open>Errors as sums\<close>

type_synonym ('e, 'a) result = "'e + 'a"

definition is_ok :: "'e + 'a \<Rightarrow> bool" where
  "is_ok r \<longleftrightarrow> (case r of Inl _ \<Rightarrow> False | Inr _ \<Rightarrow> True)"

lemma is_ok_simps [simp]: "\<not> is_ok (Inl e)" "is_ok (Inr a)"
  by (simp_all add: is_ok_def)

lemma is_ok_iff: "is_ok r \<longleftrightarrow> (\<exists>a. r = Inr a)"
  by (cases r) simp_all

lemma not_ok_iff: "\<not> is_ok r \<longleftrightarrow> (\<exists>e. r = Inl e)"
  by (cases r) simp_all

text \<open>
  The errors the driver makes: the text of an error of the operating system or of the API
  server, the text that a number parser rejected, and \<open>fmt.Errorf\<close> with its format and
  arguments, without (\<open>Errorf\<close>) and with (\<open>Wrapf\<close>) a wrapped cause.
\<close>

datatype fmt_arg = ArgInt int | ArgStr string | ArgWord "64 word"

datatype go_error =
    OsError string
  | NumError string
  | Errorf string "fmt_arg list"
  | Wrapf string "fmt_arg list" go_error

text \<open>\<open>fmt.Errorf("...: %w", err)\<close>: the error is wrapped, the value kept.\<close>

fun map_err :: "('e \<Rightarrow> 'f) \<Rightarrow> 'e + 'a \<Rightarrow> 'f + 'a" where
  "map_err f (Inl e) = Inl (f e)"
| "map_err f (Inr a) = Inr a"

lemma map_err_eq_Inr [simp]: "map_err f r = Inr a \<longleftrightarrow> r = Inr a"
  by (cases r) simp_all

lemma map_err_ok [simp]: "is_ok (map_err f r) = is_ok r"
  by (cases r) simp_all

subsection \<open>Maps\<close>

text \<open>Indexing a map yields the zero value where the key is absent.\<close>

definition map_get :: "'v \<Rightarrow> ('k \<rightharpoonup> 'v) \<Rightarrow> 'k \<Rightarrow> 'v" where
  "map_get zero m k = (case m k of None \<Rightarrow> zero | Some v \<Rightarrow> v)"

lemma map_get_simps [simp]:
  "m k = None \<Longrightarrow> map_get z m k = z"
  "m k = Some v \<Longrightarrow> map_get z m k = v"
  by (simp_all add: map_get_def)

lemma map_get_upd [simp]: "map_get z (m(k \<mapsto> v)) k' = (if k' = k then v else map_get z m k')"
  by (simp add: map_get_def)

definition range_order :: "('k \<rightharpoonup> 'v) \<Rightarrow> 'k list \<Rightarrow> bool" where
  "range_order m ks \<longleftrightarrow> distinct ks \<and> set ks = dom m"

lemma range_orderD: "range_order m ks \<Longrightarrow> distinct ks" "range_order m ks \<Longrightarrow> set ks = dom m"
  by (simp_all add: range_order_def)

lemma range_order_dom: "range_order m ks \<Longrightarrow> dom m' = dom m \<Longrightarrow> range_order m' ks"
  by (simp add: range_order_def)

lemma range_order_finite: "range_order m ks \<Longrightarrow> finite (dom m)"
  by (metis List.finite_set range_orderD(2))

subsection \<open>Lists\<close>

lemma disjoint_nthI:
  assumes "\<And>i j. i < j \<Longrightarrow> j < length xs \<Longrightarrow> P (xs ! i) (xs ! j)"
  shows "sorted_wrt P xs"
  using assms by (simp add: sorted_wrt_iff_nth_less)

lemma sorted_wrt_sym_nth:
  assumes "sorted_wrt P xs" and "\<And>x y. P x y \<Longrightarrow> P y x"
    and "i < length xs" "j < length xs" "i \<noteq> j"
  shows "P (xs ! i) (xs ! j)"
  using assms by (cases "i < j") (auto simp: sorted_wrt_iff_nth_less)

text \<open>The values of a list comprehension that may fail per element (a Go \<open>continue\<close>).\<close>

lemma set_map_filter: "set (List.map_filter f xs) = {y. \<exists>x \<in> set xs. f x = Some y}"
  by (induction xs) (auto simp: split: option.splits)

end
