(* ===== verification/GoStrings.thy ===== *)
theory GoStrings
  imports GoPrelude
begin

text \<open>
  Go's \<open>strings\<close> package, as far as the driver uses it. A Go string is a sequence of
  bytes and is a HOL \<open>string\<close>, whose characters are bytes. \<open>Index\<close> returns \<open>None\<close>
  where Go returns \<open>-1\<close>. The separators the driver splits at are single bytes.
\<close>

abbreviation newline :: char where "newline \<equiv> CHR 0x0A"

subsection \<open>Prefixes and suffixes\<close>

definition has_prefix :: "string \<Rightarrow> string \<Rightarrow> bool" where
  "has_prefix p s \<longleftrightarrow> take (length p) s = p"

definition trim_prefix :: "string \<Rightarrow> string \<Rightarrow> string" where
  "trim_prefix p s = (if has_prefix p s then drop (length p) s else s)"

definition has_suffix :: "string \<Rightarrow> string \<Rightarrow> bool" where
  "has_suffix p s \<longleftrightarrow> has_prefix (rev p) (rev s)"

definition trim_suffix :: "string \<Rightarrow> string \<Rightarrow> string" where
  "trim_suffix p s = (if has_suffix p s then take (length s - length p) s else s)"

lemma has_prefix_append [simp]: "has_prefix p (p @ s)"
  by (simp add: has_prefix_def)

lemma has_prefix_iff: "has_prefix p s \<longleftrightarrow> (\<exists>r. s = p @ r)"
  by (metis append_eq_conv_conj append_take_drop_id has_prefix_def)

lemma trim_prefix_append [simp]: "trim_prefix p (p @ s) = s"
  by (simp add: trim_prefix_def)

lemma has_suffix_append [simp]: "has_suffix p (s @ p)"
  by (simp add: has_suffix_def)

lemma has_suffix_iff: "has_suffix p s \<longleftrightarrow> (\<exists>r. s = r @ p)"
  by (metis has_prefix_iff has_suffix_def rev_append rev_rev_ident)

lemma trim_suffix_append [simp]: "trim_suffix p (s @ p) = s"
  by (simp add: trim_suffix_def)

lemma has_prefix_Nil [simp]: "has_prefix [] s"
  by (simp add: has_prefix_def)

lemma has_prefix_Cons [simp]:
  "\<not> has_prefix (c # p) []" "has_prefix (c # p) (d # s) \<longleftrightarrow> c = d \<and> has_prefix p s"
  by (auto simp: has_prefix_def)

subsection \<open>Index, Split, SplitN, Join\<close>

fun str_index :: "char \<Rightarrow> string \<Rightarrow> nat option" where
  "str_index c [] = None"
| "str_index c (x # xs) = (if x = c then Some 0 else map_option Suc (str_index c xs))"

fun str_split :: "char \<Rightarrow> string \<Rightarrow> string list" where
  "str_split c [] = [[]]"
| "str_split c (x # xs) =
     (if x = c then [] # str_split c xs
      else (case str_split c xs of [] \<Rightarrow> [[x]] | p # ps \<Rightarrow> (x # p) # ps))"

text \<open>\<open>SplitN(s, c, 2)\<close>: at most one cut, at the first separator.\<close>

definition str_split2 :: "char \<Rightarrow> string \<Rightarrow> string list" where
  "str_split2 c s =
     (case str_index c s of None \<Rightarrow> [s] | Some i \<Rightarrow> [take i s, drop (Suc i) s])"

fun str_join :: "string \<Rightarrow> string list \<Rightarrow> string" where
  "str_join sep [] = []"
| "str_join sep [x] = x"
| "str_join sep (x # y # ys) = x @ sep @ str_join sep (y # ys)"

text \<open>\<open>ReplaceAll(s, c, "")\<close> for a one-byte \<open>c\<close>.\<close>

definition str_remove :: "char \<Rightarrow> string \<Rightarrow> string" where
  "str_remove c s = filter (\<lambda>x. x \<noteq> c) s"

lemma str_index_append: "c \<notin> set a \<Longrightarrow> str_index c (a @ c # b) = Some (length a)"
  by (induction a) auto

lemma str_index_None: "str_index c s = None \<longleftrightarrow> c \<notin> set s"
  by (induction s) auto

lemma str_index_Some:
  "str_index c s = Some i \<Longrightarrow>
     i < length s \<and> s ! i = c \<and> c \<notin> set (take i s) \<and> s = take i s @ c # drop (Suc i) s"
  by (induction s arbitrary: i) (auto split: if_splits)

lemma str_split2_sep: "c \<notin> set a \<Longrightarrow> str_split2 c (a @ c # b) = [a, b]"
  by (simp add: str_split2_def str_index_append)

lemma str_split2_none: "c \<notin> set a \<Longrightarrow> str_split2 c a = [a]"
  using str_index_None [of c a] by (simp add: str_split2_def)

lemma str_split_nonempty [simp]: "str_split c s \<noteq> []"
  by (induction s) (auto split: list.splits)

lemma str_split_none: "c \<notin> set s \<Longrightarrow> str_split c s = [s]"
  by (induction s) auto

lemma str_split_append: "c \<notin> set a \<Longrightarrow> str_split c (a @ c # b) = a # str_split c b"
  by (induction a) auto

lemma str_split_parts: "p \<in> set (str_split c s) \<Longrightarrow> c \<notin> set p"
proof (induction s arbitrary: p)
  case Nil
  then show ?case by simp
next
  case (Cons x xs)
  then show ?case
    by (cases "str_split c xs") (auto split: if_splits)
qed

text \<open>Splitting undoes joining, for parts without the separator.\<close>

lemma str_split_join:
  "ps \<noteq> [] \<Longrightarrow> \<forall>p \<in> set ps. c \<notin> set p \<Longrightarrow> str_split c (str_join [c] ps) = ps"
proof (induction "[c]" ps rule: str_join.induct)
  case 1
  then show ?case by simp
next
  case (2 x)
  then show ?case by (simp add: str_split_none)
next
  case (3 x y ys)
  then show ?case by (simp add: str_split_append)
qed

lemma str_join_Cons: "ps \<noteq> [] \<Longrightarrow> str_join sep (p # ps) = p @ sep @ str_join sep ps"
  by (cases ps) simp_all

lemma set_str_join_subset: "set (str_join sep ps) \<subseteq> set sep \<union> (\<Union>p \<in> set ps. set p)"
  by (induction sep ps rule: str_join.induct) auto

subsection \<open>TrimSpace\<close>

text \<open>
  The UTF-8 encodings of the code points with Unicode's White_Space property, which is what
  \<open>strings.TrimSpace\<close> removes at both ends.
\<close>

definition go_spaces :: "string list" where
  "go_spaces =
     [[CHR 0x20], [CHR 0x0A], [CHR 0x09], [CHR 0x0B], [CHR 0x0C], [CHR 0x0D],
      [CHR 0xC2, CHR 0x85], [CHR 0xC2, CHR 0xA0], [CHR 0xE1, CHR 0x9A, CHR 0x80],
      [CHR 0xE2, CHR 0x80, CHR 0x80], [CHR 0xE2, CHR 0x80, CHR 0x81],
      [CHR 0xE2, CHR 0x80, CHR 0x82], [CHR 0xE2, CHR 0x80, CHR 0x83],
      [CHR 0xE2, CHR 0x80, CHR 0x84], [CHR 0xE2, CHR 0x80, CHR 0x85],
      [CHR 0xE2, CHR 0x80, CHR 0x86], [CHR 0xE2, CHR 0x80, CHR 0x87],
      [CHR 0xE2, CHR 0x80, CHR 0x88], [CHR 0xE2, CHR 0x80, CHR 0x89],
      [CHR 0xE2, CHR 0x80, CHR 0x8A], [CHR 0xE2, CHR 0x80, CHR 0xA8],
      [CHR 0xE2, CHR 0x80, CHR 0xA9], [CHR 0xE2, CHR 0x80, CHR 0xAF],
      [CHR 0xE2, CHR 0x81, CHR 0x9F], [CHR 0xE3, CHR 0x80, CHR 0x80]]"

fun strip_one :: "string list \<Rightarrow> string \<Rightarrow> string option" where
  "strip_one [] s = None"
| "strip_one (e # es) s =
     (if e \<noteq> [] \<and> has_prefix e s then Some (drop (length e) s) else strip_one es s)"

lemma strip_one_shorter: "strip_one es s = Some s' \<Longrightarrow> length s' < length s"
  by (induction es) (auto split: if_splits simp: has_prefix_iff)

function trim_front :: "string list \<Rightarrow> string \<Rightarrow> string" where
  "trim_front es s = (case strip_one es s of None \<Rightarrow> s | Some s' \<Rightarrow> trim_front es s')"
  by pat_completeness auto
termination
  by (relation "measure (\<lambda>(es, s). length s)") (auto dest: strip_one_shorter)

declare trim_front.simps [simp del]

definition trim_space :: "string \<Rightarrow> string" where
  "trim_space s = rev (trim_front (map rev go_spaces) (rev (trim_front go_spaces s)))"

text \<open>Printable ASCII characters other than the blank: no white space starts or ends in one.\<close>

definition graphic :: "char \<Rightarrow> bool" where
  "graphic c \<longleftrightarrow> 33 \<le> (of_char c :: nat) \<and> (of_char c :: nat) < 127"

definition graphic_str :: "string \<Rightarrow> bool" where
  "graphic_str s \<longleftrightarrow> (\<forall>c \<in> set s. graphic c)"

lemma graphic_str_simps [simp]:
  "graphic_str []"
  "graphic_str (c # s) \<longleftrightarrow> graphic c \<and> graphic_str s"
  "graphic_str (s @ t) \<longleftrightarrow> graphic_str s \<and> graphic_str t"
  by (auto simp: graphic_str_def)

lemma graphic_str_rev [simp]: "graphic_str (rev s) = graphic_str s"
  by (simp add: graphic_str_def)

lemma go_spaces_ends: "e \<in> set go_spaces \<Longrightarrow> e \<noteq> [] \<and> \<not> graphic (hd e) \<and> \<not> graphic (last e)"
  by (auto simp: go_spaces_def graphic_def)

lemma strip_one_stops:
  assumes "\<forall>e \<in> set es. e \<noteq> [] \<and> \<not> graphic (hd e)" and "s = [] \<or> graphic (hd s)"
  shows "strip_one es s = None"
  using assms by (induction es) (auto simp: has_prefix_iff hd_append)

lemma trim_front_stops:
  assumes "s = [] \<or> graphic (hd s)"
  shows "trim_front go_spaces s = s" "trim_front (map rev go_spaces) s = s"
proof -
  have "strip_one go_spaces s = None"
    using assms go_spaces_ends by (intro strip_one_stops) auto
  then show "trim_front go_spaces s = s" by (simp add: trim_front.simps)
  have "strip_one (map rev go_spaces) s = None"
    using assms go_spaces_ends by (intro strip_one_stops) (auto simp: hd_rev)
  then show "trim_front (map rev go_spaces) s = s" by (simp add: trim_front.simps)
qed

lemma trim_space_id:
  "s = [] \<or> graphic (hd s) \<and> graphic (last s) \<Longrightarrow> trim_space s = s"
  using trim_front_stops [of s] trim_front_stops [of "rev s"]
  by (auto simp: trim_space_def hd_rev)

lemma trim_space_graphic [simp]: "graphic_str s \<Longrightarrow> trim_space s = s"
  by (rule trim_space_id) (auto simp: graphic_str_def)

lemma trim_space_newline:
  assumes "s = [] \<or> graphic (hd s) \<and> graphic (last s)"
  shows "trim_space (s @ [newline]) = s"
proof -
  have strip: "strip_one (map rev go_spaces) (newline # t) = Some t" for t
    by (simp add: go_spaces_def)
  show ?thesis
  proof (cases "s = []")
    case True
    have "strip_one go_spaces [newline] = Some []" by (simp add: go_spaces_def)
    with True show ?thesis
      by (simp add: trim_space_def trim_front.simps [of _ "[newline]"] trim_front_stops)
  next
    case False
    with assms have "trim_front go_spaces (s @ [newline]) = s @ [newline]"
      by (intro trim_front_stops) (auto simp: hd_append)
    moreover have "trim_front (map rev go_spaces) (newline # rev s) = rev s"
      using False assms
      by (simp add: trim_front.simps [of _ "newline # _"] strip trim_front_stops hd_rev)
    ultimately show ?thesis by (simp add: trim_space_def)
  qed
qed

end
