(* ===== verification/GoStrconv.thy ===== *)
theory GoStrconv
  imports GoStrings
begin

text \<open>
  Go's \<open>strconv\<close> and the \<open>%d\<close> and \<open>%x\<close> verbs of \<open>fmt\<close>, as far as the driver uses
  them: \<open>Atoi\<close> (which is \<open>ParseInt(s, 10, 64)\<close> on a 64-bit target), \<open>ParseUint\<close> in
  base 10 and 16, and printing of \<open>int\<close> and \<open>uint64\<close>. A parse error is \<open>None\<close>: the
  driver never looks at which of Go's two parse errors it got.

  The locale \<open>codec\<close> is the interface that the name formats rely on: a printer and a
  parser that inverts it, over an alphabet of characters. It is interpreted on the printers
  and parsers of this theory.
\<close>

subsection \<open>Digits\<close>

definition dec_val :: "char \<Rightarrow> nat option" where
  "dec_val c =
     (let n = of_char c :: nat in if 48 \<le> n \<and> n \<le> 57 then Some (n - 48) else None)"

definition hex_val :: "char \<Rightarrow> nat option" where
  "hex_val c =
     (let n = of_char c :: nat in
      if 48 \<le> n \<and> n \<le> 57 then Some (n - 48)
      else if 97 \<le> n \<and> n \<le> 102 then Some (n - 87)
      else if 65 \<le> n \<and> n \<le> 70 then Some (n - 55)
      else None)"

definition digit_char :: "nat \<Rightarrow> char" where
  "digit_char d = char_of (if d < 10 then 48 + d else 87 + d)"

definition is_dec :: "char \<Rightarrow> bool" where
  "is_dec c \<longleftrightarrow> 48 \<le> (of_char c :: nat) \<and> (of_char c :: nat) \<le> 57"

definition is_hex :: "char \<Rightarrow> bool" where
  "is_hex c \<longleftrightarrow> is_dec c \<or> 97 \<le> (of_char c :: nat) \<and> (of_char c :: nat) \<le> 102"

lemma of_char_digit: "d < 16 \<Longrightarrow> (of_char (digit_char d) :: nat) = (if d < 10 then 48 + d else 87 + d)"
  by (simp add: digit_char_def)

lemma dec_val_digit: "d < 10 \<Longrightarrow> dec_val (digit_char d) = Some d"
  by (simp add: dec_val_def of_char_digit)

lemma hex_val_digit: "d < 16 \<Longrightarrow> hex_val (digit_char d) = Some d"
  by (auto simp: hex_val_def of_char_digit)

lemma is_dec_digit: "d < 10 \<Longrightarrow> is_dec (digit_char d)"
  by (simp add: is_dec_def of_char_digit)

lemma is_hex_digit: "d < 16 \<Longrightarrow> is_hex (digit_char d)"
  by (auto simp: is_hex_def is_dec_def of_char_digit)

lemma is_dec_graphic: "is_dec c \<Longrightarrow> graphic c"
  by (simp add: is_dec_def graphic_def)

lemma is_hex_graphic: "is_hex c \<Longrightarrow> graphic c"
  by (auto simp: is_hex_def is_dec_def graphic_def)

lemma digit_chars [simp]:
  "digit_char 0 = CHR ''0''"
  "digit_char (Suc 0) = CHR ''1''"
  "digit_char 2 = CHR ''2''"
  "digit_char 3 = CHR ''3''"
  "digit_char 4 = CHR ''4''"
  "digit_char 5 = CHR ''5''"
  "digit_char 6 = CHR ''6''"
  "digit_char 7 = CHR ''7''"
  "digit_char 8 = CHR ''8''"
  "digit_char 9 = CHR ''9''"
  "digit_char 10 = CHR ''a''"
  "digit_char 11 = CHR ''b''"
  "digit_char 12 = CHR ''c''"
  "digit_char 13 = CHR ''d''"
  "digit_char 14 = CHR ''e''"
  "digit_char 15 = CHR ''f''"
  by code_simp+

lemma digit_char_1 [simp]: "digit_char 1 = CHR ''1''"
  using digit_chars(2) by simp

subsection \<open>Parsing\<close>

fun parse_digits :: "(char \<Rightarrow> nat option) \<Rightarrow> nat \<Rightarrow> nat \<Rightarrow> string \<Rightarrow> nat option" where
  "parse_digits dv b acc [] = Some acc"
| "parse_digits dv b acc (c # cs) =
     (case dv c of None \<Rightarrow> None | Some d \<Rightarrow> parse_digits dv b (acc * b + d) cs)"

definition parse_nat :: "(char \<Rightarrow> nat option) \<Rightarrow> nat \<Rightarrow> string \<Rightarrow> nat option" where
  "parse_nat dv b s = (if s = [] then None else parse_digits dv b 0 s)"

text \<open>\<open>ParseUint(s, base, 64)\<close>: digits only, no sign, below \<open>2 ^ 64\<close>.\<close>

definition parse_uint64 :: "(char \<Rightarrow> nat option) \<Rightarrow> nat \<Rightarrow> string \<Rightarrow> 64 word option" where
  "parse_uint64 dv b s =
     (case parse_nat dv b s of
        None \<Rightarrow> None
      | Some n \<Rightarrow> if n < 2 ^ 64 then Some (of_nat n) else None)"

definition parse_uint_dec :: "string \<Rightarrow> 64 word option" where
  "parse_uint_dec = parse_uint64 dec_val 10"

definition parse_uint_hex :: "string \<Rightarrow> 64 word option" where
  "parse_uint_hex = parse_uint64 hex_val 16"

text \<open>\<open>Atoi\<close>: an optional sign, then at least one decimal digit, in the range of \<open>int\<close>.\<close>

definition atoi :: "string \<Rightarrow> int option" where
  "atoi s =
     (let neg = has_prefix ''-'' s;
          body = (if neg \<or> has_prefix ''+'' s then tl s else s)
      in case parse_nat dec_val 10 body of
           None \<Rightarrow> None
         | Some n \<Rightarrow>
             if neg then (if n \<le> 2 ^ 63 then Some (- int n) else None)
             else (if n < 2 ^ 63 then Some (int n) else None))"

lemma atoi_range [int_range]: "atoi s = Some i \<Longrightarrow> in_int i"
  by (auto simp: atoi_def Let_def in_int_def split: option.splits if_splits)

lemma atoi_Nil [simp]: "atoi [] = None"
  by (simp add: atoi_def parse_nat_def)

subsection \<open>Printing\<close>

function show_base :: "nat \<Rightarrow> nat \<Rightarrow> string" where
  "show_base b n =
     (if b < 2 \<or> n < b then [digit_char n]
      else show_base b (n div b) @ [digit_char (n mod b)])"
  by pat_completeness auto
termination
  by (relation "measure (\<lambda>(b, n). n)") auto

declare show_base.simps [simp del]

definition show_int :: "int \<Rightarrow> string" where
  "show_int i = (if i < 0 then CHR ''-'' # show_base 10 (nat (- i)) else show_base 10 (nat i))"

definition show_hex :: "64 word \<Rightarrow> string" where
  "show_hex w = show_base 16 (unat w)"

lemmas show_evals = show_int_def show_hex_def show_base.simps

lemma show_base_nonempty [simp]: "show_base b n \<noteq> []"
  by (subst show_base.simps) simp

lemma show_base_digits:
  "2 \<le> b \<Longrightarrow> c \<in> set (show_base b n) \<Longrightarrow> \<exists>d < b. c = digit_char d"
proof (induction b n rule: show_base.induct)
  case (1 b n)
  show ?case
  proof (cases "n < b")
    case True
    with 1 show ?thesis by (auto simp: show_base.simps [of b n])
  next
    case False
    with 1 have "show_base b n = show_base b (n div b) @ [digit_char (n mod b)]"
      by (simp add: show_base.simps [of b n])
    with 1(3) consider "c \<in> set (show_base b (n div b))" | "c = digit_char (n mod b)"
      by auto
    then show ?thesis
    proof cases
      case 1
      with "1.IH" "1.prems"(1) False show ?thesis by auto
    next
      case 2
      moreover have "n mod b < b" using "1.prems"(1) by simp
      ultimately show ?thesis by blast
    qed
  qed
qed

lemma parse_digits_append:
  "parse_digits dv b acc (xs @ ys) =
     (case parse_digits dv b acc xs of None \<Rightarrow> None | Some a \<Rightarrow> parse_digits dv b a ys)"
  by (induction xs arbitrary: acc) (auto split: option.splits)

lemma parse_digits_show:
  assumes "\<forall>d < b. dv (digit_char d) = Some d" "2 \<le> b"
  shows "parse_digits dv b 0 (show_base b n) = Some n"
  using assms
proof (induction b n rule: show_base.induct)
  case (1 b n)
  show ?case
  proof (cases "n < b")
    case True
    with 1 show ?thesis by (subst show_base.simps) simp
  next
    case False
    with 1 have "parse_digits dv b 0 (show_base b (n div b)) = Some (n div b)" by simp
    with False 1 show ?thesis
      by (subst show_base.simps) (simp add: parse_digits_append)
  qed
qed

lemma parse_nat_show_dec: "parse_nat dec_val 10 (show_base 10 n) = Some n"
  by (simp add: parse_nat_def parse_digits_show dec_val_digit)

lemma parse_nat_show_hex: "parse_nat hex_val 16 (show_base 16 n) = Some n"
  by (simp add: parse_nat_def parse_digits_show hex_val_digit)

lemma show_base_dec_chars: "c \<in> set (show_base 10 n) \<Longrightarrow> is_dec c"
  using show_base_digits [of 10 c n] is_dec_digit by auto

lemma show_base_hd: "hd (show_base 10 n) \<noteq> CHR ''-''" "hd (show_base 10 n) \<noteq> CHR ''+''"
  using show_base_dec_chars [of "hd (show_base 10 n)" n] by (auto simp: is_dec_def)

lemma atoi_show_int: "in_int i \<Longrightarrow> atoi (show_int i) = Some i"
proof -
  assume i: "in_int i"
  have hd: "\<not> has_prefix [x] (show_base 10 n)" if "x = CHR ''-'' \<or> x = CHR ''+''" for x n
    using that show_base_hd [of n] by (cases "show_base 10 n") auto
  show ?thesis
    using i by (auto simp: show_int_def atoi_def hd parse_nat_show_dec in_int_def)
qed

lemma show_int_chars: "c \<in> set (show_int i) \<Longrightarrow> is_dec c \<or> c = CHR ''-''"
  by (auto simp: show_int_def dest: show_base_dec_chars split: if_splits)

lemma show_int_nonneg_chars: "0 \<le> i \<Longrightarrow> c \<in> set (show_int i) \<Longrightarrow> is_dec c"
  by (auto simp: show_int_def dest: show_base_dec_chars split: if_splits)

lemma show_int_nonempty [simp]: "show_int i \<noteq> []"
  by (simp add: show_int_def)

lemma parse_show_hex: "parse_uint_hex (show_hex w) = Some w"
proof -
  have "unat w < 2 ^ 64" using unsigned_less [of w, where ?'a = nat] by simp
  then show ?thesis
    by (simp add: parse_uint_hex_def parse_uint64_def show_hex_def parse_nat_show_hex)
qed

lemma show_hex_chars: "c \<in> set (show_hex w) \<Longrightarrow> is_hex c"
  using show_base_digits [of 16 c "unat w"] is_hex_digit by (auto simp: show_hex_def)

lemma show_hex_nonempty [simp]: "show_hex w \<noteq> []"
  by (simp add: show_hex_def)

subsection \<open>The codec interface\<close>

locale codec =
  fixes enc :: "'a \<Rightarrow> string" and dec :: "string \<Rightarrow> 'a option"
    and valid :: "'a \<Rightarrow> bool" and alphabet :: "char \<Rightarrow> bool"
  assumes dec_enc: "valid a \<Longrightarrow> dec (enc a) = Some a"
    and enc_alphabet: "valid a \<Longrightarrow> c \<in> set (enc a) \<Longrightarrow> alphabet c"
    and enc_nonempty: "enc a \<noteq> []"
begin

lemma enc_inj: "valid a \<Longrightarrow> valid b \<Longrightarrow> enc a = enc b \<Longrightarrow> a = b"
  by (metis dec_enc option.inject)

lemma enc_no_sep: "valid a \<Longrightarrow> \<not> alphabet s \<Longrightarrow> s \<notin> set (enc a)"
  using enc_alphabet by blast

lemma enc_split2: "valid a \<Longrightarrow> \<not> alphabet s \<Longrightarrow> str_split2 s (enc a @ s # r) = [enc a, r]"
  by (simp add: str_split2_sep enc_no_sep)

lemma enc_index: "valid a \<Longrightarrow> \<not> alphabet s \<Longrightarrow> str_index s (enc a @ s # r) = Some (length (enc a))"
  by (simp add: str_index_append enc_no_sep)

text \<open>A field followed by a separator determines the field and the rest.\<close>

lemma enc_field_inj:
  assumes "valid a" "valid b" "\<not> alphabet s" "enc a @ s # r = enc b @ s # r'"
  shows "a = b" "r = r'"
proof -
  have "[enc a, r] = [enc b, r']"
    using assms(4) enc_split2 [OF assms(1,3), of r] enc_split2 [OF assms(2,3), of r'] by metis
  then have "enc a = enc b" "r = r'" by simp_all
  then show "a = b" "r = r'" using assms(1,2) enc_inj by blast+
qed

end

locale graphic_codec = codec +
  assumes alphabet_graphic: "alphabet c \<Longrightarrow> graphic c"
begin

lemma enc_graphic: "valid a \<Longrightarrow> graphic_str (enc a)"
  using enc_alphabet alphabet_graphic by (auto simp: graphic_str_def)

lemma trim_enc: "valid a \<Longrightarrow> trim_space (enc a) = enc a"
  by (simp add: enc_graphic)

text \<open>What a reader of a one-line file gets back: the value that was printed there.\<close>

lemma dec_trim_line: "valid a \<Longrightarrow> dec (trim_space (enc a @ [newline])) = Some a"
proof -
  assume a: "valid a"
  have "graphic (hd (enc a)) \<and> graphic (last (enc a))"
    using enc_graphic [OF a] enc_nonempty by (auto simp: graphic_str_def)
  with a show ?thesis by (simp add: trim_space_newline dec_enc)
qed

end

interpretation int_codec: graphic_codec show_int atoi in_int "\<lambda>c. is_dec c \<or> c = CHR ''-''"
  by unfold_locales
    (auto simp: atoi_show_int dest: show_int_chars is_dec_graphic, simp add: graphic_def)

text \<open>The numbers that occur in names are not negative, so that a minus sign can separate them.\<close>

interpretation nat_codec: graphic_codec show_int atoi "\<lambda>i. 0 \<le> i \<and> in_int i" is_dec
  by unfold_locales
    (auto simp: atoi_show_int is_dec_graphic dest: show_int_nonneg_chars)

interpretation hex_codec: graphic_codec show_hex parse_uint_hex "\<lambda>_. True" is_hex
  by unfold_locales (auto simp: parse_show_hex show_hex_chars is_hex_graphic)

lemma not_is_dec [simp]:
  "\<not> is_dec (CHR ''-'')" "\<not> is_dec (CHR ''='')" "\<not> is_dec (CHR '':'')" "\<not> is_dec (CHR '';'')"
  "\<not> is_dec (CHR '','')" "\<not> is_dec (CHR ''w'')" "\<not> is_dec (CHR ''/'')" "\<not> is_dec (CHR ''.'')"
  "\<not> is_dec newline"
  by (simp_all add: is_dec_def)

lemma not_is_hex [simp]:
  "\<not> is_hex (CHR ''-'')" "\<not> is_hex (CHR ''='')" "\<not> is_hex (CHR '':'')" "\<not> is_hex (CHR '';'')"
  "\<not> is_hex (CHR '','')" "\<not> is_hex (CHR ''/'')" "\<not> is_hex newline"
  by (simp_all add: is_hex_def is_dec_def)

lemma show_int_no_char [simp]:
  "CHR ''='' \<notin> set (show_int i)" "CHR '':'' \<notin> set (show_int i)" "CHR '';'' \<notin> set (show_int i)"
  "CHR '','' \<notin> set (show_int i)" "CHR ''/'' \<notin> set (show_int i)" "newline \<notin> set (show_int i)"
  "CHR ''.'' \<notin> set (show_int i)"
  by (auto dest!: show_int_chars)

lemma show_hex_no_char [simp]:
  "CHR ''='' \<notin> set (show_hex w)" "CHR '':'' \<notin> set (show_hex w)" "CHR '';'' \<notin> set (show_hex w)"
  "CHR '','' \<notin> set (show_hex w)" "CHR ''/'' \<notin> set (show_hex w)" "newline \<notin> set (show_hex w)"
  by (auto dest!: show_hex_chars)

lemma graphic_show_int [simp]: "graphic_str (show_int i)"
  by (auto simp: graphic_str_def dest!: show_int_chars is_dec_graphic) (simp add: graphic_def)

lemma graphic_show_hex [simp]: "graphic_str (show_hex w)"
  by (simp add: hex_codec.enc_graphic)

end
