(* ===== verification/GoPath.thy ===== *)
theory GoPath
  imports GoStrings
begin

text \<open>
  Go's \<open>filepath.Join\<close> and \<open>filepath.Clean\<close> on Unix. A path is a string; \<open>Clean\<close> works on
  its elements, dropping the empty ones and \<open>.\<close>, and resolving \<open>..\<close> lexically. The facts at
  the end say that joining plain names (no slash, not \<open>.\<close> or \<open>..\<close>) below one root is injective,
  so that distinct resctrl groups have distinct directories.
\<close>

fun clean_elems :: "bool \<Rightarrow> string list \<Rightarrow> string list \<Rightarrow> string list" where
  "clean_elems rooted out [] = rev out"
| "clean_elems rooted out (e # es) =
     (if e = [] \<or> e = ''.'' then clean_elems rooted out es
      else if e = ''..'' then
        (case out of
           [] \<Rightarrow> if rooted then clean_elems rooted [] es else clean_elems rooted [e] es
         | p # ps \<Rightarrow> if p = ''..'' then clean_elems rooted (e # out) es
                    else clean_elems rooted ps es)
      else clean_elems rooted (e # out) es)"

definition render_path :: "bool \<Rightarrow> string list \<Rightarrow> string" where
  "render_path rooted es =
     (if rooted then ''/'' @ str_join ''/'' es
      else if es = [] then ''.'' else str_join ''/'' es)"

definition path_clean :: "string \<Rightarrow> string" where
  "path_clean s =
     (let rooted = has_prefix ''/'' s
      in render_path rooted (clean_elems rooted [] (str_split (CHR ''/'') s)))"

definition path_join :: "string list \<Rightarrow> string" where
  "path_join elems =
     (case dropWhile (\<lambda>e. e = []) elems of
        [] \<Rightarrow> []
      | e # es \<Rightarrow> path_clean (str_join ''/'' (e # es)))"

text \<open>\<open>filepath.Dir\<close>: everything up to the last slash, cleaned.\<close>

definition path_dir :: "string \<Rightarrow> string" where
  "path_dir s = path_clean (rev (dropWhile (\<lambda>c. c \<noteq> CHR ''/'') (rev s)))"

definition plain_name :: "string \<Rightarrow> bool" where
  "plain_name n \<longleftrightarrow> n \<noteq> [] \<and> CHR ''/'' \<notin> set n \<and> n \<noteq> ''.'' \<and> n \<noteq> ''..''"

lemma clean_elems_plain:
  "list_all plain_name ns \<Longrightarrow> clean_elems r out ns = rev out @ ns"
  by (induction ns arbitrary: out) (auto simp: plain_name_def)

lemma clean_elems_append_plain:
  assumes "list_all plain_name ns"
  shows "clean_elems r out (es @ ns) = clean_elems r out es @ ns"
proof (induction r out es rule: clean_elems.induct)
  case (1 rooted out)
  then show ?case using assms by (simp add: clean_elems_plain)
next
  case (2 rooted out e es)
  then show ?case by (auto split: list.splits)
qed

lemma clean_elems_no_slash:
  "\<forall>e \<in> set (out @ es). CHR ''/'' \<notin> set e \<Longrightarrow> \<forall>e \<in> set (clean_elems r out es). CHR ''/'' \<notin> set e"
  by (induction r out es rule: clean_elems.induct) (auto split: list.splits)

lemma str_split_app: "str_split c (a @ c # b) = str_split c a @ str_split c b"
  by (induction a) (auto split: list.splits)

lemma str_split_join_root:
  assumes "list_all plain_name ns"
  shows "str_split (CHR ''/'') (str_join ''/'' (root # ns)) = str_split (CHR ''/'') root @ ns"
  using assms
proof (induction ns arbitrary: root)
  case Nil
  then show ?case by simp
next
  case (Cons n ns)
  from Cons have "str_split (CHR ''/'') (str_join ''/'' (n # ns)) = [n] @ ns"
    by (simp add: plain_name_def str_split_none)
  then show ?case by (simp add: str_split_app)
qed

lemma path_join_plain:
  assumes "root \<noteq> []" "list_all plain_name ns"
  shows "path_join (root # ns) =
    render_path (has_prefix ''/'' root)
      (clean_elems (has_prefix ''/'' root) [] (str_split (CHR ''/'') root) @ ns)"
proof -
  obtain c cs where "root = c # cs" using assms(1) by (cases root) auto
  then have "has_prefix ''/'' (str_join ''/'' (root # ns)) = has_prefix ''/'' root"
    by (cases ns) simp_all
  moreover have "str_split (CHR ''/'') (str_join ''/'' (root # ns)) = str_split (CHR ''/'') root @ ns"
    using assms(2) by (rule str_split_join_root)
  moreover have "path_join (root # ns) = path_clean (str_join ''/'' (root # ns))"
    using assms(1) by (simp add: path_join_def)
  ultimately show ?thesis
    using assms(2) by (simp only: path_clean_def Let_def clean_elems_append_plain)
qed

lemma render_path_inj:
  assumes "\<forall>e \<in> set (es @ es'). CHR ''/'' \<notin> set e" "es \<noteq> []" "es' \<noteq> []"
    and "render_path r es = render_path r es'"
  shows "es = es'"
proof -
  from assms have "str_join ''/'' es = str_join ''/'' es'"
    by (auto simp: render_path_def split: if_splits)
  moreover have "str_split (CHR ''/'') (str_join ''/'' es) = es"
    using assms(1,2) by (intro str_split_join) auto
  moreover have "str_split (CHR ''/'') (str_join ''/'' es') = es'"
    using assms(1,3) by (intro str_split_join) auto
  ultimately show ?thesis by metis
qed

lemma path_join_inj:
  assumes "root \<noteq> []" "list_all plain_name ns" "list_all plain_name ns'" "ns \<noteq> []" "ns' \<noteq> []"
    and "path_join (root # ns) = path_join (root # ns')"
  shows "ns = ns'"
proof -
  let ?r = "has_prefix ''/'' root"
  let ?es = "clean_elems ?r [] (str_split (CHR ''/'') root)"
  have "\<forall>e \<in> set ?es. CHR ''/'' \<notin> set e"
    by (rule clean_elems_no_slash) (auto dest: str_split_parts)
  moreover have "\<forall>n \<in> set (ns @ ns'). CHR ''/'' \<notin> set n"
    using assms(2,3) by (auto simp: list_all_iff plain_name_def)
  moreover have "render_path ?r (?es @ ns) = render_path ?r (?es @ ns')"
    using assms path_join_plain by metis
  ultimately have "?es @ ns = ?es @ ns'"
    using assms(4,5) by (intro render_path_inj) auto
  then show ?thesis by simp
qed

text \<open>The last element of a path, after the last slash. Joining keeps it if it is a plain name.\<close>

definition last_elem :: "string \<Rightarrow> string" where
  "last_elem s = rev (takeWhile (\<lambda>c. c \<noteq> CHR ''/'') (rev s))"

lemma last_elem_plain [simp]:
  assumes "CHR ''/'' \<notin> set n"
  shows "last_elem n = n"
proof -
  have "takeWhile (\<lambda>c. c \<noteq> CHR ''/'') (rev n) = rev n"
    using assms by (auto simp: takeWhile_eq_all_conv)
  then show ?thesis unfolding last_elem_def by (simp only: rev_rev_ident)
qed

lemma last_elem_slash [simp]: "last_elem (a @ CHR ''/'' # b) = last_elem b"
proof (cases "CHR ''/'' \<in> set b")
  case True
  then have "takeWhile (\<lambda>c. c \<noteq> CHR ''/'') (rev b @ x) = takeWhile (\<lambda>c. c \<noteq> CHR ''/'') (rev b)" for x
    by (intro takeWhile_append1 [of "CHR ''/''"]) simp_all
  then show ?thesis by (simp add: last_elem_def)
next
  case False
  then have "takeWhile (\<lambda>c. c \<noteq> CHR ''/'') (rev b @ x) = rev b @ takeWhile (\<lambda>c. c \<noteq> CHR ''/'') x" for x
    by (intro takeWhile_append2) auto
  from this [of "CHR ''/'' # rev a"] False show ?thesis by (simp add: last_elem_def [of "a @ _ # b"])
qed

lemma last_elem_split:
  obtains a where "s = a @ CHR ''/'' # last_elem s" "CHR ''/'' \<notin> set (last_elem s)"
  | "CHR ''/'' \<notin> set s" "last_elem s = s"
proof (cases "CHR ''/'' \<in> set s")
  case True
  then obtain a b where "s = a @ CHR ''/'' # b" "CHR ''/'' \<notin> set b" by (meson split_list_last)
  then show thesis using that(1) [of a] by simp
qed (use that(2) in simp)

lemma str_split_last: "\<exists>xs. str_split (CHR ''/'') s = xs @ [last_elem s]"
  by (rule last_elem_split [of s]) (metis str_split_app str_split_none, metis append_Nil str_split_none)

lemma last_elem_join: "last_elem (str_join ''/'' (es @ [n])) = last_elem n"
  by (induction es) (simp_all add: str_join_Cons)

lemma path_clean_last:
  assumes "plain_name (last_elem s)"
  shows "last_elem (path_clean s) = last_elem s"
proof -
  obtain xs where "str_split (CHR ''/'') s = xs @ [last_elem s]" using str_split_last by blast
  then have "clean_elems r [] (str_split (CHR ''/'') s) = clean_elems r [] xs @ [last_elem s]" for r
    using assms by (simp add: clean_elems_append_plain)
  moreover have "last_elem (last_elem s) = last_elem s"
    using assms by (simp add: plain_name_def)
  ultimately show ?thesis
    using last_elem_slash [of "[]"] by (simp add: path_clean_def render_path_def Let_def last_elem_join)
qed

lemma path_join_last:
  assumes "plain_name (last_elem n)"
  shows "last_elem (path_join (es @ [n])) = last_elem n"
proof -
  from assms have "n \<noteq> []" by (auto simp: plain_name_def last_elem_def)
  then have "\<exists>es'. dropWhile (\<lambda>e. e = []) (es @ [n]) = es' @ [n]" by (induction es) auto
  then obtain es' where "dropWhile (\<lambda>e. e = []) (es @ [n]) = es' @ [n]" by blast
  then have "path_join (es @ [n]) = path_clean (str_join ''/'' (es' @ [n]))"
    by (cases es') (simp_all add: path_join_def)
  then show ?thesis using assms by (simp add: path_clean_last last_elem_join)
qed

end
