(* ===== verification/OsModel.thy ===== *)
theory OsModel
  imports GoStrconv GoPath
begin

text \<open>
  The operating system, which is not part of the driver's sources, as a parameter: a record
  of the calls that the driver makes through Go's \<open>os\<close> package, over an arbitrary type
  \<open>'w\<close> of file system states. A call that changes the file system returns the state after it,
  also when it fails. Every model that touches files takes such a record.

  \<open>mem_os\<close> is one concrete instance, an in-memory tree, on which concrete runs are evaluated.
\<close>

record file_info =
  fi_dir :: bool
  fi_size :: int

record dir_entry =
  de_name :: string
  de_dir :: bool

record 'w os =
  os_stat :: "'w \<Rightarrow> string \<Rightarrow> string + file_info"
  os_read_file :: "'w \<Rightarrow> string \<Rightarrow> string + string"
  os_read_dir :: "'w \<Rightarrow> string \<Rightarrow> string + dir_entry list"
  os_mkdir_all :: "'w \<Rightarrow> string \<Rightarrow> string option \<times> 'w"
  os_write_file :: "'w \<Rightarrow> string \<Rightarrow> string \<Rightarrow> string option \<times> 'w"
  os_remove :: "'w \<Rightarrow> string \<Rightarrow> string option \<times> 'w"
  os_is_not_exist :: "string \<Rightarrow> bool"

subsection \<open>An in-memory instance\<close>

record memfs =
  mem_dirs :: "string list"
  mem_files :: "(string \<times> string) list"

definition child_name :: "string \<Rightarrow> string \<Rightarrow> string option" where
  "child_name dir p =
     (let r = drop (Suc (length dir)) p
      in if has_prefix (dir @ ''/'') p \<and> r \<noteq> [] \<and> CHR ''/'' \<notin> set r then Some r else None)"

definition mem_stat :: "memfs \<Rightarrow> string \<Rightarrow> string + file_info" where
  "mem_stat w p =
     (if p \<in> set (mem_dirs w) then Inr \<lparr>fi_dir = True, fi_size = 0\<rparr>
      else case map_of (mem_files w) p of
             None \<Rightarrow> Inl ''no such file or directory''
           | Some d \<Rightarrow> Inr \<lparr>fi_dir = False, fi_size = int (length d)\<rparr>)"

definition mem_read_file :: "memfs \<Rightarrow> string \<Rightarrow> string + string" where
  "mem_read_file w p =
     (case map_of (mem_files w) p of
        None \<Rightarrow> Inl ''no such file or directory''
      | Some d \<Rightarrow> Inr d)"

definition mem_read_dir :: "memfs \<Rightarrow> string \<Rightarrow> string + dir_entry list" where
  "mem_read_dir w p =
     (if p \<in> set (mem_dirs w)
      then Inr (map (\<lambda>n. \<lparr>de_name = n, de_dir = True\<rparr>)
                  (List.map_filter (child_name p) (mem_dirs w))
              @ map (\<lambda>n. \<lparr>de_name = n, de_dir = False\<rparr>)
                  (List.map_filter (child_name p) (map fst (mem_files w))))
      else Inl ''no such file or directory'')"

definition mem_mkdir_all :: "memfs \<Rightarrow> string \<Rightarrow> string option \<times> memfs" where
  "mem_mkdir_all w p = (None, w\<lparr>mem_dirs := List.insert p (mem_dirs w)\<rparr>)"

text \<open>Files named \<open>readonly\<close> refuse to be written, so that failures can be exercised.\<close>

definition mem_write_file :: "memfs \<Rightarrow> string \<Rightarrow> string \<Rightarrow> string option \<times> memfs" where
  "mem_write_file w p d =
     (if map_of (mem_files w) p = Some ''readonly'' then (Some ''permission denied'', w)
      else (None, w\<lparr>mem_files := (p, d) # filter (\<lambda>f. fst f \<noteq> p) (mem_files w)\<rparr>))"

definition mem_remove :: "memfs \<Rightarrow> string \<Rightarrow> string option \<times> memfs" where
  "mem_remove w p =
     (if p \<in> set (mem_dirs w) \<or> p \<in> fst ` set (mem_files w)
      then (None, \<lparr>mem_dirs = filter (\<lambda>d. d \<noteq> p) (mem_dirs w),
                   mem_files = filter (\<lambda>f. fst f \<noteq> p \<and> \<not> has_prefix (p @ ''/'') (fst f))
                                 (mem_files w)\<rparr>)
      else (Some ''no such file or directory'', w))"

definition mem_os :: "memfs os" where
  "mem_os =
     \<lparr>os_stat = mem_stat, os_read_file = mem_read_file, os_read_dir = mem_read_dir,
      os_mkdir_all = mem_mkdir_all, os_write_file = mem_write_file, os_remove = mem_remove,
      os_is_not_exist = (\<lambda>e. e = ''no such file or directory'')\<rparr>"

lemmas mem_os_defs [go_eval] =
  mem_os_def mem_stat_def mem_read_file_def mem_read_dir_def mem_mkdir_all_def
  mem_write_file_def mem_remove_def child_name_def

end
