(* ===== verification/WayMask.thy ===== *)
theory WayMask
  imports GoPrelude
begin

unbundle bit_operations_syntax

text \<open>
  Cache bit masks. A mask is a \<open>uint64\<close>; \<open>way_set\<close> reads it as the set of ways it selects,
  which is the view the properties take. \<open>mask_loop\<close> is the loop that both copies of the
  mask builder run (\<open>buildCBM\<close> and \<open>buildWayMask\<close>), \<open>popcount_loop\<close> the one of \<open>NumWays\<close>.
\<close>

definition way_set :: "64 word \<Rightarrow> nat set" where
  "way_set w = {i. bit w i}"

lemma finite_way_set [simp]: "finite (way_set w)"
proof (rule finite_subset)
  show "way_set w \<subseteq> {..<64}"
    by (auto simp: way_set_def dest: bit_imp_le_length)
qed simp

lemma way_set_bound: "way_set w \<subseteq> {..<64}"
  by (auto simp: way_set_def dest: bit_imp_le_length)

lemma way_set_inject: "way_set v = way_set w \<longleftrightarrow> v = w"
proof
  assume "way_set v = way_set w"
  then show "v = w" by (intro bit_eqI) (auto simp: way_set_def set_eq_iff)
qed simp

lemma way_set_simps [simp]:
  "way_set 0 = {}"
  "way_set (v OR w) = way_set v \<union> way_set w"
  "way_set (v AND w) = way_set v \<inter> way_set w"
  "way_set (v AND NOT w) = way_set v - way_set w"
  by (auto simp: way_set_def bit_simps dest: bit_imp_le_length)

lemma way_set_empty_iff [simp]: "way_set w = {} \<longleftrightarrow> w = 0"
  using way_set_inject [of w 0] by simp

lemma and_eq_0_iff: "v AND w = 0 \<longleftrightarrow> way_set v \<inter> way_set w = {}"
  using way_set_empty_iff [of "v AND w"] by simp

lemma card_way_set_le: "card (way_set w) \<le> 64"
  using card_mono [OF _ way_set_bound [of w]] by simp

subsection \<open>Shifts and the mask builder\<close>

text \<open>
  \<open>1 << uint(i)\<close>: a shift by 64 or more is 0, and so is one by a negative \<open>i\<close>, whose
  conversion to \<open>uint\<close> is at least \<open>2 ^ 63\<close>.
\<close>

definition shl1 :: "int \<Rightarrow> 64 word" where
  "shl1 i = (if 0 \<le> i \<and> i < 64 then push_bit (nat i) 1 else 0)"

lemma bit_shl1: "bit (shl1 i) n \<longleftrightarrow> i = int n \<and> n < 64"
  by (auto simp: shl1_def bit_simps)

lemma way_set_shl1 [simp]: "0 \<le> i \<Longrightarrow> i < 64 \<Longrightarrow> way_set (shl1 i) = {nat i}"
  by (auto simp: way_set_def bit_shl1)

text \<open>\<open>for i := lo; i < hi; i++ { m |= 1 << uint(i) }\<close>; the increment cannot overflow below \<open>hi\<close>.\<close>

function mask_loop :: "int \<Rightarrow> int \<Rightarrow> 64 word \<Rightarrow> 64 word" where
  "mask_loop i hi m = (if i < hi then mask_loop (i + 1) hi (m OR shl1 i) else m)"
  by pat_completeness auto
termination
  by (relation "measure (\<lambda>(i, hi, m). nat (hi - i))") auto

declare mask_loop.simps [simp del]

lemma bit_mask_loop:
  "bit (mask_loop i hi m) n \<longleftrightarrow> bit m n \<or> i \<le> int n \<and> int n < hi \<and> n < 64"
proof (induction i hi m rule: mask_loop.induct)
  case (1 i hi m)
  then show ?case
    by (cases "i < hi") (auto simp: mask_loop.simps [of i hi m] bit_simps bit_shl1)
qed

text \<open>The ways of \<open>start .. start + count - 1\<close>, the abstract value of the mask builder.\<close>

definition run_set :: "int \<Rightarrow> int \<Rightarrow> nat set" where
  "run_set start count = {i. start \<le> int i \<and> int i < start + count}"

lemma way_set_mask_loop: "hi \<le> 64 \<Longrightarrow> way_set (mask_loop lo hi 0) = run_set lo (hi - lo)"
  by (auto simp: way_set_def run_set_def bit_mask_loop)

lemma run_set_eq: "0 \<le> start \<Longrightarrow> 0 \<le> count \<Longrightarrow> run_set start count = {nat start..<nat (start + count)}"
  by (auto simp: run_set_def nat_le_iff zless_nat_eq_int_zless)

lemma card_run_set: "0 \<le> start \<Longrightarrow> 0 \<le> count \<Longrightarrow> card (run_set start count) = nat count"
  by (simp add: run_set_eq nat_add_distrib)

lemma run_set_disjoint: "a + m \<le> b \<Longrightarrow> run_set a m \<inter> run_set b n = {}"
  by (auto simp: run_set_def)

lemma run_set_append: "0 \<le> m \<Longrightarrow> 0 \<le> n \<Longrightarrow> run_set a m \<union> run_set (a + m) n = run_set a (m + n)"
  by (auto simp: run_set_def)

lemma run_set_empty [simp]: "count \<le> 0 \<Longrightarrow> run_set start count = {}"
  by (auto simp: run_set_def)

subsection \<open>Counting ways\<close>

function popcount_loop :: "64 word \<Rightarrow> int \<Rightarrow> int" where
  "popcount_loop m n = (if m \<noteq> 0 then popcount_loop (drop_bit 1 m) (n + uint (m AND 1)) else n)"
  by pat_completeness auto
termination
proof (relation "measure (\<lambda>(m, n). unat m)")
  fix m :: "64 word" and n :: int
  assume "m \<noteq> 0"
  then have "0 < unat m" using unat_gt_0 by blast
  then have "unat (drop_bit 1 m) < unat m"
    by (simp add: drop_bit_Suc unat_div)
  then show "((drop_bit 1 m, n + uint (m AND 1)), m, n) \<in> measure (\<lambda>(m, n). unat m)" by simp
qed simp

declare popcount_loop.simps [simp del]

lemma way_set_drop: "way_set m = (if odd m then {0} else {}) \<union> Suc ` way_set (drop_bit 1 m)"
proof -
  have "i \<in> way_set m \<longleftrightarrow> i \<in> (if odd m then {0} else {}) \<union> Suc ` way_set (drop_bit 1 m)" for i
    by (cases i) (auto simp: way_set_def bit_drop_bit_eq bit_0)
  then show ?thesis by blast
qed

lemma card_way_set_drop:
  "int (card (way_set m)) = uint (m AND 1) + int (card (way_set (drop_bit 1 m)))"
proof -
  have "card (way_set m) = card ((if odd m then {0} else {}) :: nat set)
      + card (Suc ` way_set (drop_bit 1 m))"
    by (subst way_set_drop, rule card_Un_disjoint) auto
  moreover have "uint (m AND 1) = (if odd m then 1 else 0)"
    by (simp add: and_one_eq odd_iff_mod_2_eq_one)
  ultimately show ?thesis by (simp add: card_image)
qed

lemma popcount_loop_card: "popcount_loop m n = n + int (card (way_set m))"
proof (induction m n rule: popcount_loop.induct)
  case (1 m n)
  show ?case
  proof (cases "m = 0")
    case True
    then show ?thesis by (simp add: popcount_loop.simps [of 0 n])
  next
    case False
    with 1 show ?thesis
      using card_way_set_drop [of m] by (simp add: popcount_loop.simps [of m n])
  qed
qed

end
