(* ===== verification/Resctrl.thy ===== *)
theory Resctrl
  imports OsModel WayMask
begin

text \<open>
  \<open>pkg/resctrl/resctrl.go\<close>: the resctrl file system. The package variable \<open>root\<close> is the
  argument \<open>root\<close> of every operation. The readers of \<open>info/\<close> return the capability
  records; \<open>CreateGroup\<close> and \<open>DeleteGroup\<close> change the file system.
\<close>

subsection \<open>Capabilities\<close>

record CATInfo =
  NumCLOSIDs :: int
  CBMMask :: "64 word"
  MinCBMBits :: int
  CacheIDs :: "int list"

definition NumWays :: "CATInfo \<Rightarrow> int" where
  "NumWays c = popcount_loop (CBMMask c) 0"

record MBAInfo =
  MbaNumCLOSIDs :: int
  MinBandwidth :: int
  BandwidthGran :: int
  CtrlInPercentages :: bool
  DomainIDs :: "int list"

definition MBAMode :: "MBAInfo \<Rightarrow> string" where
  "MBAMode m = (if CtrlInPercentages m then ''percent'' else ''mbps'')"

definition info_dir_exists :: "'w os \<Rightarrow> string \<Rightarrow> string \<Rightarrow> 'w \<Rightarrow> bool" where
  "info_dir_exists os root name w =
     (case os_stat os w (path_join [root, ''info'', name]) of
        Inl _ \<Rightarrow> False
      | Inr fi \<Rightarrow> fi_dir fi)"

definition IsAvailable :: "'w os \<Rightarrow> string \<Rightarrow> 'w \<Rightarrow> bool" where
  "IsAvailable os root w = info_dir_exists os root ''L3'' w"

definition IsMBAAvailable :: "'w os \<Rightarrow> string \<Rightarrow> 'w \<Rightarrow> bool" where
  "IsMBAAvailable os root w = info_dir_exists os root ''MB'' w"

definition IsL2Available :: "'w os \<Rightarrow> string \<Rightarrow> 'w \<Rightarrow> bool" where
  "IsL2Available os root w = info_dir_exists os root ''L2'' w"

definition IsSMBAAvailable :: "'w os \<Rightarrow> string \<Rightarrow> 'w \<Rightarrow> bool" where
  "IsSMBAAvailable os root w = info_dir_exists os root ''SMBA'' w"

definition IsMonitoringAvailable :: "'w os \<Rightarrow> string \<Rightarrow> 'w \<Rightarrow> bool" where
  "IsMonitoringAvailable os root w = info_dir_exists os root ''L3_MON'' w"

subsection \<open>File readers\<close>

definition readTrimmedFile :: "'w os \<Rightarrow> 'w \<Rightarrow> string \<Rightarrow> go_error + string" where
  "readTrimmedFile os w path =
     (case os_read_file os w path of
        Inl e \<Rightarrow> Inl (OsError e)
      | Inr data \<Rightarrow> Inr (trim_space data))"

definition readIntFile :: "'w os \<Rightarrow> 'w \<Rightarrow> string \<Rightarrow> go_error + int" where
  "readIntFile os w path =
     (case readTrimmedFile os w path of
        Inl e \<Rightarrow> Inl e
      | Inr s \<Rightarrow> (case atoi s of None \<Rightarrow> Inl (NumError s) | Some i \<Rightarrow> Inr i))"

definition readUint64File :: "'w os \<Rightarrow> 'w \<Rightarrow> string \<Rightarrow> go_error + 64 word" where
  "readUint64File os w path =
     (case readTrimmedFile os w path of
        Inl e \<Rightarrow> Inl e
      | Inr s \<Rightarrow> (case parse_uint_dec s of None \<Rightarrow> Inl (NumError s) | Some v \<Rightarrow> Inr v))"

subsection \<open>Domain IDs of the root schemata\<close>

text \<open>One segment \<open>id=mask\<close>; a segment without \<open>=\<close> or with a bad id is skipped.\<close>

definition segment_id :: "string \<Rightarrow> int option" where
  "segment_id segment =
     (case str_index (CHR ''='') segment of
        None \<Rightarrow> None
      | Some eqIdx \<Rightarrow> atoi (take eqIdx segment))"

fun scan_domain_lines :: "string \<Rightarrow> string list \<Rightarrow> int list" where
  "scan_domain_lines linePrefix [] = [0]"
| "scan_domain_lines linePrefix (l # ls) =
     (let line = trim_space l in
      if \<not> has_prefix linePrefix line then scan_domain_lines linePrefix ls
      else List.map_filter segment_id (str_split (CHR '';'') (trim_prefix linePrefix line)))"

definition discoverDomainIDs :: "'w os \<Rightarrow> string \<Rightarrow> 'w \<Rightarrow> string \<Rightarrow> go_error + int list" where
  "discoverDomainIDs os root w prefix =
     (case readTrimmedFile os w (path_join [root, ''schemata'']) of
        Inl e \<Rightarrow> Inl (Wrapf ''reading root schemata: %w'' [] e)
      | Inr data \<Rightarrow> Inr (scan_domain_lines (prefix @ '':'') (str_split newline data)))"

definition discoverCacheIDs :: "'w os \<Rightarrow> string \<Rightarrow> 'w \<Rightarrow> go_error + int list" where
  "discoverCacheIDs os root w = discoverDomainIDs os root w ''L3''"

subsection \<open>info/L3 and info/L2\<close>

definition Info :: "'w os \<Rightarrow> string \<Rightarrow> 'w \<Rightarrow> go_error + CATInfo" where
  "Info os root w =
     (let infoDir = path_join [root, ''info'', ''L3''] in
      case os_stat os w infoDir of
        Inl e \<Rightarrow> Inl (Wrapf ''L3 CAT not available: %w'' [] (OsError e))
      | Inr _ \<Rightarrow>
      (case readIntFile os w (path_join [infoDir, ''num_closids'']) of
        Inl e \<Rightarrow> Inl (Wrapf ''reading num_closids: %w'' [] e)
      | Inr numCLOSIDs \<Rightarrow>
      (case readTrimmedFile os w (path_join [infoDir, ''cbm_mask'']) of
        Inl e \<Rightarrow> Inl (Wrapf ''reading cbm_mask: %w'' [] e)
      | Inr cbmMaskStr \<Rightarrow>
      (case parse_uint_hex cbmMaskStr of
        None \<Rightarrow> Inl (Wrapf ''parsing cbm_mask %q: %w'' [ArgStr cbmMaskStr] (NumError cbmMaskStr))
      | Some cbm \<Rightarrow>
      (case readIntFile os w (path_join [infoDir, ''min_cbm_bits'']) of
        Inl e \<Rightarrow> Inl (Wrapf ''reading min_cbm_bits: %w'' [] e)
      | Inr minBits \<Rightarrow>
      (case discoverCacheIDs os root w of
        Inl e \<Rightarrow> Inl (Wrapf ''discovering cache IDs: %w'' [] e)
      | Inr cacheIDs \<Rightarrow>
          Inr \<lparr>NumCLOSIDs = numCLOSIDs, CBMMask = cbm, MinCBMBits = minBits,
               CacheIDs = cacheIDs\<rparr>))))))"

definition InfoL2 :: "'w os \<Rightarrow> string \<Rightarrow> 'w \<Rightarrow> go_error + CATInfo" where
  "InfoL2 os root w =
     (let infoDir = path_join [root, ''info'', ''L2''] in
      case os_stat os w infoDir of
        Inl e \<Rightarrow> Inl (Wrapf ''L2 CAT not available: %w'' [] (OsError e))
      | Inr _ \<Rightarrow>
      (case readIntFile os w (path_join [infoDir, ''num_closids'']) of
        Inl e \<Rightarrow> Inl (Wrapf ''reading L2 num_closids: %w'' [] e)
      | Inr numCLOSIDs \<Rightarrow>
      (case readTrimmedFile os w (path_join [infoDir, ''cbm_mask'']) of
        Inl e \<Rightarrow> Inl (Wrapf ''reading L2 cbm_mask: %w'' [] e)
      | Inr cbmMaskStr \<Rightarrow>
      (case parse_uint_hex cbmMaskStr of
        None \<Rightarrow> Inl (Wrapf ''parsing L2 cbm_mask %q: %w'' [ArgStr cbmMaskStr] (NumError cbmMaskStr))
      | Some cbm \<Rightarrow>
      (case readIntFile os w (path_join [infoDir, ''min_cbm_bits'']) of
        Inl e \<Rightarrow> Inl (Wrapf ''reading L2 min_cbm_bits: %w'' [] e)
      | Inr minBits \<Rightarrow>
          Inr \<lparr>NumCLOSIDs = numCLOSIDs, CBMMask = cbm, MinCBMBits = minBits,
               CacheIDs =
                 (case discoverDomainIDs os root w ''L2'' of
                    Inl _ \<Rightarrow> (case discoverDomainIDs os root w ''L3'' of Inl _ \<Rightarrow> [] | Inr ids \<Rightarrow> ids)
                  | Inr ids \<Rightarrow> ids)\<rparr>)))))"

subsection \<open>info/MB and info/SMBA\<close>

text \<open>The control mode: a missing or unreadable file means percentages.\<close>

definition ctrl_in_percentages :: "'w os \<Rightarrow> string \<Rightarrow> 'w \<Rightarrow> bool" where
  "ctrl_in_percentages os infoDir w =
     (case readIntFile os w (path_join [infoDir, ''ctrl_in_percentages'']) of
        Inl _ \<Rightarrow> True
      | Inr ctrlPct \<Rightarrow> ctrlPct \<noteq> 0)"

definition MBA :: "'w os \<Rightarrow> string \<Rightarrow> 'w \<Rightarrow> go_error + MBAInfo" where
  "MBA os root w =
     (let infoDir = path_join [root, ''info'', ''MB''] in
      case os_stat os w infoDir of
        Inl e \<Rightarrow> Inl (Wrapf ''MBA not available: %w'' [] (OsError e))
      | Inr _ \<Rightarrow>
      (case readIntFile os w (path_join [infoDir, ''num_closids'']) of
        Inl e \<Rightarrow> Inl (Wrapf ''reading MBA num_closids: %w'' [] e)
      | Inr numCLOSIDs \<Rightarrow>
      (case readIntFile os w (path_join [infoDir, ''min_bandwidth'']) of
        Inl e \<Rightarrow> Inl (Wrapf ''reading min_bandwidth: %w'' [] e)
      | Inr minBW \<Rightarrow>
      (case readIntFile os w (path_join [infoDir, ''bandwidth_gran'']) of
        Inl e \<Rightarrow> Inl (Wrapf ''reading bandwidth_gran: %w'' [] e)
      | Inr gran \<Rightarrow>
      (case discoverDomainIDs os root w ''MB'' of
        Inl e \<Rightarrow> Inl (Wrapf ''discovering MBA domain IDs: %w'' [] e)
      | Inr domainIDs \<Rightarrow>
          Inr \<lparr>MbaNumCLOSIDs = numCLOSIDs, MinBandwidth = minBW, BandwidthGran = gran,
               CtrlInPercentages = ctrl_in_percentages os infoDir w, DomainIDs = domainIDs\<rparr>)))))"

definition SMBA :: "'w os \<Rightarrow> string \<Rightarrow> 'w \<Rightarrow> go_error + MBAInfo" where
  "SMBA os root w =
     (let infoDir = path_join [root, ''info'', ''SMBA''] in
      case os_stat os w infoDir of
        Inl e \<Rightarrow> Inl (Wrapf ''SMBA not available: %w'' [] (OsError e))
      | Inr _ \<Rightarrow>
      (case readIntFile os w (path_join [infoDir, ''num_closids'']) of
        Inl e \<Rightarrow> Inl (Wrapf ''reading SMBA num_closids: %w'' [] e)
      | Inr numCLOSIDs \<Rightarrow>
      (case readIntFile os w (path_join [infoDir, ''min_bandwidth'']) of
        Inl e \<Rightarrow> Inl (Wrapf ''reading SMBA min_bandwidth: %w'' [] e)
      | Inr minBW \<Rightarrow>
      (case readIntFile os w (path_join [infoDir, ''bandwidth_gran'']) of
        Inl e \<Rightarrow> Inl (Wrapf ''reading SMBA bandwidth_gran: %w'' [] e)
      | Inr gran \<Rightarrow>
          Inr \<lparr>MbaNumCLOSIDs = numCLOSIDs, MinBandwidth = minBW, BandwidthGran = gran,
               CtrlInPercentages = ctrl_in_percentages os infoDir w,
               DomainIDs =
                 (case discoverDomainIDs os root w ''SMBA'' of
                    Inl _ \<Rightarrow> (case discoverDomainIDs os root w ''L3'' of Inl _ \<Rightarrow> [] | Inr ids \<Rightarrow> ids)
                  | Inr ids \<Rightarrow> ids)\<rparr>))))"

subsection \<open>Schemata lines\<close>

definition FormatMBASchemata :: "int \<Rightarrow> int \<Rightarrow> string" where
  "FormatMBASchemata domainID bandwidth =
     ''MB:'' @ show_int domainID @ ''='' @ show_int bandwidth"

definition FormatSMBASchemata :: "int \<Rightarrow> int \<Rightarrow> string" where
  "FormatSMBASchemata domainID bandwidth =
     ''SMBA:'' @ show_int domainID @ ''='' @ show_int bandwidth"

subsection \<open>Groups\<close>

text \<open>An error is \<open>Some\<close>, success \<open>None\<close>; the file system after the call comes with it.\<close>

definition CreateGroup ::
  "'w os \<Rightarrow> string \<Rightarrow> string \<Rightarrow> string \<Rightarrow> 'w \<Rightarrow> go_error option \<times> 'w" where
  "CreateGroup os root name schemata w =
     (let groupPath = path_join [root, name] in
      case os_mkdir_all os w groupPath of
        (Some e, w1) \<Rightarrow> (Some (Wrapf ''creating resctrl group %s: %w'' [ArgStr name] (OsError e)), w1)
      | (None, w1) \<Rightarrow>
          if schemata \<noteq> [] then
            (case os_write_file os w1 (path_join [groupPath, ''schemata'']) (schemata @ [newline]) of
               (Some e, w2) \<Rightarrow>
                 (Some (Wrapf ''writing schemata for %s: %w'' [ArgStr name] (OsError e)),
                  snd (os_remove os w2 groupPath))
             | (None, w2) \<Rightarrow> (None, w2))
          else (None, w1))"

definition DeleteGroup :: "'w os \<Rightarrow> string \<Rightarrow> string \<Rightarrow> 'w \<Rightarrow> go_error option \<times> 'w" where
  "DeleteGroup os root name w =
     (let groupPath = path_join [root, name];
          w1 = (case os_read_file os w (path_join [groupPath, ''tasks'']) of
                  Inl _ \<Rightarrow> w
                | Inr data \<Rightarrow>
                    if 0 < length (trim_space data)
                    then snd (os_write_file os w (path_join [root, ''tasks'']) data)
                    else w)
      in case os_remove os w1 groupPath of
           (Some e, w2) \<Rightarrow> (Some (OsError e), w2)
         | (None, w2) \<Rightarrow> (None, w2))"

definition AssignPID :: "'w os \<Rightarrow> string \<Rightarrow> string \<Rightarrow> int \<Rightarrow> 'w \<Rightarrow> go_error option \<times> 'w" where
  "AssignPID os root grp pid w =
     (case os_write_file os w (path_join [root, grp, ''tasks'']) (show_int pid) of
        (Some e, w1) \<Rightarrow> (Some (OsError e), w1)
      | (None, w1) \<Rightarrow> (None, w1))"

definition ReadSchemata :: "'w os \<Rightarrow> string \<Rightarrow> 'w \<Rightarrow> string \<Rightarrow> go_error + string" where
  "ReadSchemata os root w grp = readTrimmedFile os w (path_join [root, grp, ''schemata''])"

subsection \<open>Monitoring counters\<close>

record MonData =
  LLCOccupancy :: "64 word"
  MBMLocalBytes :: "64 word"
  MBMTotalBytes :: "64 word"

definition MonitoringFeatures :: "'w os \<Rightarrow> string \<Rightarrow> 'w \<Rightarrow> string list" where
  "MonitoringFeatures os root w =
     (case os_read_file os w (path_join [root, ''info'', ''L3_MON'', ''mon_features'']) of
        Inl _ \<Rightarrow> []
      | Inr data \<Rightarrow>
          filter (\<lambda>line. line \<noteq> []) (map trim_space (str_split newline (trim_space data))))"

text \<open>A counter whose file is absent or unreadable is zero.\<close>

definition counter_or_zero :: "go_error + 64 word \<Rightarrow> 64 word" where
  "counter_or_zero r = (case r of Inl _ \<Rightarrow> 0 | Inr v \<Rightarrow> v)"

definition ReadMonData :: "'w os \<Rightarrow> string \<Rightarrow> 'w \<Rightarrow> string \<Rightarrow> int \<Rightarrow> go_error + MonData" where
  "ReadMonData os root w grp cacheID =
     (let monDir = path_join [root, grp, ''mon_data'', ''mon_L3_'' @ show_int cacheID] in
      case os_stat os w monDir of
        Inl e \<Rightarrow> Inl (Wrapf ''mon_data dir for group %s cacheID %d not found: %w''
                        [ArgStr grp, ArgInt cacheID] (OsError e))
      | Inr _ \<Rightarrow>
          Inr \<lparr>LLCOccupancy = counter_or_zero (readUint64File os w (path_join [monDir, ''llc_occupancy''])),
               MBMLocalBytes = counter_or_zero (readUint64File os w (path_join [monDir, ''mbm_local_bytes''])),
               MBMTotalBytes = counter_or_zero (readUint64File os w (path_join [monDir, ''mbm_total_bytes'']))\<rparr>)"

subsection \<open>Facts about the capability readers\<close>

lemma NumWays_card: "NumWays c = int (card (way_set (CBMMask c)))"
  by (simp add: NumWays_def popcount_loop_card)

lemma NumWays_bounds: "0 \<le> NumWays c" "NumWays c \<le> 64"
  using card_way_set_le [of "CBMMask c"] by (simp_all add: NumWays_card)

lemma in_int_NumWays [int_range]: "in_int (NumWays c)"
  using NumWays_bounds [of c] by (simp add: in_int_def)

lemma readIntFile_Inr:
  "readIntFile os w p = Inr i \<longleftrightarrow> (\<exists>d. os_read_file os w p = Inr d \<and> atoi (trim_space d) = Some i)"
  by (auto simp: readIntFile_def readTrimmedFile_def split: sum.splits option.splits)

lemma readTrimmedFile_Inr:
  "readTrimmedFile os w p = Inr s \<longleftrightarrow> (\<exists>d. os_read_file os w p = Inr d \<and> s = trim_space d)"
  by (auto simp: readTrimmedFile_def split: sum.splits)

lemma readIntFile_line:
  "os_read_file os w p = Inr (show_int i @ [newline]) \<Longrightarrow> in_int i \<Longrightarrow> readIntFile os w p = Inr i"
  by (simp add: readIntFile_Inr int_codec.dec_trim_line)

text \<open>A schemata line as the kernel prints it: \<open>prefix:id=value;id=value\<close>.\<close>

definition domain_line :: "string \<Rightarrow> (int \<times> string) list \<Rightarrow> string" where
  "domain_line prefix kvs =
     prefix @ '':'' @ str_join '';'' (map (\<lambda>(i, v). show_int i @ CHR ''='' # v) kvs)"

definition line_values :: "(int \<times> string) list \<Rightarrow> bool" where
  "line_values kvs \<longleftrightarrow>
     kvs \<noteq> [] \<and> (\<forall>(i, v) \<in> set kvs. in_int i \<and> CHR '';'' \<notin> set v)"

lemma segment_id_line: "in_int i \<Longrightarrow> segment_id (show_int i @ CHR ''='' # v) = Some i"
  by (simp add: segment_id_def str_index_append atoi_show_int)

lemma map_filter_segments:
  assumes "\<forall>(i, v) \<in> set kvs. in_int i"
  shows "List.map_filter segment_id (map (\<lambda>(i, v). show_int i @ CHR ''='' # v) kvs) = map fst kvs"
  using assms by (induction kvs) (auto simp: segment_id_line)

lemma segments_of_line:
  assumes "line_values kvs"
  shows "str_split (CHR '';'') (trim_prefix (prefix @ '':'') (domain_line prefix kvs)) =
    map (\<lambda>(i, v). show_int i @ CHR ''='' # v) kvs"
proof -
  have "domain_line prefix kvs =
      (prefix @ '':'') @ str_join '';'' (map (\<lambda>(i, v). show_int i @ CHR ''='' # v) kvs)"
    by (simp add: domain_line_def)
  then have "trim_prefix (prefix @ '':'') (domain_line prefix kvs) =
      str_join '';'' (map (\<lambda>(i, v). show_int i @ CHR ''='' # v) kvs)"
    by (simp only: trim_prefix_append)
  with assms show ?thesis
    by (fastforce simp: line_values_def intro!: str_split_join)
qed

lemma has_prefix_domain_line: "has_prefix (prefix @ '':'') (domain_line prefix kvs)"
  by (auto simp: domain_line_def has_prefix_iff)

lemma scan_domain_lines_skip:
  "\<forall>l \<in> set pre. \<not> has_prefix p (trim_space l) \<Longrightarrow>
     scan_domain_lines p (pre @ ls) = scan_domain_lines p ls"
  by (induction pre) (auto simp: Let_def)

lemma scan_domain_lines_found:
  assumes "\<forall>l \<in> set pre. \<not> has_prefix (prefix @ '':'') (trim_space l)"
    and "trim_space l = domain_line prefix kvs" and "line_values kvs"
  shows "scan_domain_lines (prefix @ '':'') (pre @ l # post) = map fst kvs"
proof -
  have "\<forall>(i, v) \<in> set kvs. in_int i" using assms(3) by (auto simp: line_values_def)
  with assms(2,3) have "scan_domain_lines (prefix @ '':'') (l # post) = map fst kvs"
    by (simp add: segments_of_line has_prefix_domain_line map_filter_segments)
  with assms(1) show ?thesis by (simp add: scan_domain_lines_skip)
qed

end
