(* ===== verification/Partition.thy ===== *)
theory Partition
  imports Resctrl
begin

text \<open>
  \<open>pkg/cache/model.go\<close> and \<open>pkg/cache/partition.go\<close>: the partition model, the parsing and
  derivation of partition specs, and \<open>PartitionCache\<close>, which cuts every cache domain into
  consecutive runs of ways. \<open>partition_ways\<close> reads a partition's hexadecimal mask back, as the
  kernel does, and is what the isolation and coverage theorems speak about.
\<close>

subsection \<open>The data model\<close>

record CachePartition =
  ID :: string
  CacheID :: int
  Index :: int
  Ways :: int
  TotalWays :: int
  CBM :: string
  SizeBytes :: int
  Level :: string
  NUMANode :: int
  ResctrlGroup :: string
  WaySizeBytes :: int
  PartMinCBMBits :: int
  MBAThrottle :: int
  PartMBAMode :: string
  CPUList :: string
  SMBAThrottle :: int
  PartSMBAMode :: string
  L2Ways :: int
  L2TotalWays :: int
  L2CBM :: string

record PartitionSpec =
  SpecWays :: int
  SpecCount :: int

subsection \<open>Partition specs\<close>

definition parse_spec :: "string \<Rightarrow> go_error + PartitionSpec" where
  "parse_spec token =
     (case str_split2 (CHR '':'') token of
        [p0, p1] \<Rightarrow>
          (case atoi p0 of
             None \<Rightarrow> Inl (Errorf ''invalid ways %q in spec %q'' [ArgStr p0, ArgStr token])
           | Some ways \<Rightarrow>
               if ways \<le> 0 then Inl (Errorf ''invalid ways %q in spec %q'' [ArgStr p0, ArgStr token])
               else (case atoi p1 of
                  None \<Rightarrow> Inl (Errorf ''invalid count %q in spec %q'' [ArgStr p1, ArgStr token])
                | Some count \<Rightarrow>
                    if count \<le> 0
                    then Inl (Errorf ''invalid count %q in spec %q'' [ArgStr p1, ArgStr token])
                    else Inr \<lparr>SpecWays = ways, SpecCount = count\<rparr>))
      | _ \<Rightarrow> Inl (Errorf ''invalid partition spec %q: expected ways:count'' [ArgStr token]))"

fun parse_specs :: "string list \<Rightarrow> go_error + PartitionSpec list" where
  "parse_specs [] = Inr []"
| "parse_specs (t # ts) =
     (let token = trim_space t in
      if token = [] then parse_specs ts
      else (case parse_spec token of
              Inl e \<Rightarrow> Inl e
            | Inr s \<Rightarrow> (case parse_specs ts of Inl e \<Rightarrow> Inl e | Inr ss \<Rightarrow> Inr (s # ss))))"

definition ParsePartitionSizes :: "string \<Rightarrow> go_error + PartitionSpec list" where
  "ParsePartitionSizes s =
     (case parse_specs (str_split (CHR '','') s) of
        Inl e \<Rightarrow> Inl e
      | Inr specs \<Rightarrow>
          if specs = [] then Inl (Errorf ''no partition specs found in %q'' [ArgStr s])
          else Inr specs)"

definition SpecsFromCount :: "int \<Rightarrow> int \<Rightarrow> PartitionSpec list" where
  "SpecsFromCount count totalWays =
     (if count \<le> 0 then []
      else
        let base = wrap64 (totalWays sdiv count);
            remainder = totalWays smod count
        in (if 0 < remainder
            then [\<lparr>SpecWays = wrap64 (base + 1), SpecCount = remainder\<rparr>] else [])
           @ [\<lparr>SpecWays = base, SpecCount = wrap64 (count - remainder)\<rparr>])"

subsection \<open>PartitionCache\<close>

definition buildCBM :: "int \<Rightarrow> int \<Rightarrow> 64 word" where
  "buildCBM startWay numWays = mask_loop startWay (wrap64 (startWay + numWays)) 0"

text \<open>The validation loop, with its two running totals.\<close>

fun validate_loop ::
  "int \<Rightarrow> int \<Rightarrow> PartitionSpec list \<Rightarrow> int \<Rightarrow> int \<Rightarrow> go_error + int \<times> int" where
  "validate_loop minBits totalWays [] totalRequested totalCount = Inr (totalRequested, totalCount)"
| "validate_loop minBits totalWays (s # ss) totalRequested totalCount =
     (if SpecWays s < minBits
      then Inl (Errorf ''spec ways %d is below hardware minimum %d contiguous bits''
                  [ArgInt (SpecWays s), ArgInt minBits])
      else if totalWays < SpecWays s
      then Inl (Errorf ''spec ways %d exceeds total ways %d'' [ArgInt (SpecWays s), ArgInt totalWays])
      else validate_loop minBits totalWays ss
             (wrap64 (totalRequested + wrap64 (SpecWays s * SpecCount s)))
             (wrap64 (totalCount + SpecCount s)))"

definition validate_specs :: "CATInfo \<Rightarrow> PartitionSpec list \<Rightarrow> go_error + unit" where
  "validate_specs info specs =
     (if specs = [] then Inl (Errorf ''no partition specs provided'' [])
      else (case validate_loop (MinCBMBits info) (NumWays info) specs 0 0 of
        Inl e \<Rightarrow> Inl e
      | Inr (totalRequested, totalCount) \<Rightarrow>
          if NumWays info < totalRequested
          then Inl (Errorf ''total requested ways %d exceeds available ways %d''
                      [ArgInt totalRequested, ArgInt (NumWays info)])
          else if wrap64 (NumCLOSIDs info - 1) < totalCount
          then Inl (Errorf ''total partition count %d exceeds available CLOSIDs %d (one reserved for default)''
                      [ArgInt totalCount, ArgInt (wrap64 (NumCLOSIDs info - 1))])
          else Inr ()))"

text \<open>The parts of a domain that do not change from partition to partition.\<close>

definition domain_way_size :: "CATInfo \<Rightarrow> (int \<rightharpoonup> int) option \<Rightarrow> int \<Rightarrow> int" where
  "domain_way_size info cacheToSize cacheID =
     (let totalSizeBytes = (case cacheToSize of None \<Rightarrow> 0 | Some m \<Rightarrow> map_get 0 m cacheID)
      in if 0 < totalSizeBytes \<and> 0 < NumWays info then totalSizeBytes sdiv NumWays info else 0)"

definition make_partition ::
  "CATInfo \<Rightarrow> (int \<rightharpoonup> int) option \<Rightarrow> (int \<rightharpoonup> int) option \<Rightarrow> (int \<rightharpoonup> string) option \<Rightarrow> int
     \<Rightarrow> int \<Rightarrow> int \<Rightarrow> int \<Rightarrow> CachePartition" where
  "make_partition info cacheToNUMA cacheToSize cacheToCPU cacheID startWay globalIdx ways =
     (let waySizeBytes = domain_way_size info cacheToSize cacheID in
      \<lparr>ID = ''cache'' @ show_int cacheID @ ''-part'' @ show_int globalIdx,
       CacheID = cacheID,
       Index = globalIdx,
       Ways = ways,
       TotalWays = NumWays info,
       CBM = show_hex (buildCBM startWay ways),
       SizeBytes = (if 0 < waySizeBytes then wrap64 (ways * waySizeBytes) else 0),
       Level = ''L3'',
       NUMANode = (case cacheToNUMA of None \<Rightarrow> - 1
                   | Some m \<Rightarrow> (case m cacheID of None \<Rightarrow> - 1 | Some n \<Rightarrow> n)),
       ResctrlGroup = ''dra-cache'' @ show_int cacheID @ ''-part'' @ show_int globalIdx,
       WaySizeBytes = waySizeBytes,
       PartMinCBMBits = MinCBMBits info,
       MBAThrottle = 0, PartMBAMode = [],
       CPUList = (case cacheToCPU of None \<Rightarrow> [] | Some m \<Rightarrow> map_get [] m cacheID),
       SMBAThrottle = 0, PartSMBAMode = [], L2Ways = 0, L2TotalWays = 0, L2CBM = []\<rparr>)"

text \<open>\<open>for j := 0; j < spec.Count; j++\<close>: the partitions, the next way and the next index.\<close>

fun spec_loop :: "(int \<Rightarrow> int \<Rightarrow> int \<Rightarrow> 'p) \<Rightarrow> nat \<Rightarrow> int \<Rightarrow> int \<Rightarrow> int \<Rightarrow> 'p list \<times> int \<times> int" where
  "spec_loop mk 0 ways startWay globalIdx = ([], startWay, globalIdx)"
| "spec_loop mk (Suc n) ways startWay globalIdx =
     (let (ps, s, g) = spec_loop mk n ways (wrap64 (startWay + ways)) (wrap64 (globalIdx + 1))
      in (mk startWay globalIdx ways # ps, s, g))"

fun domain_loop :: "(int \<Rightarrow> int \<Rightarrow> int \<Rightarrow> 'p) \<Rightarrow> PartitionSpec list \<Rightarrow> int \<Rightarrow> int \<Rightarrow> 'p list" where
  "domain_loop mk [] startWay globalIdx = []"
| "domain_loop mk (spec # specs) startWay globalIdx =
     (let (ps, s, g) = spec_loop mk (nat (SpecCount spec)) (SpecWays spec) startWay globalIdx
      in ps @ domain_loop mk specs s g)"

definition PartitionCache ::
  "CATInfo \<Rightarrow> PartitionSpec list \<Rightarrow> (int \<rightharpoonup> int) option \<Rightarrow> (int \<rightharpoonup> int) option
     \<Rightarrow> (int \<rightharpoonup> string) option \<Rightarrow> go_error + CachePartition list list" where
  "PartitionCache info specs cacheToNUMA cacheToSize cacheToCPU =
     (case validate_specs info specs of
        Inl e \<Rightarrow> Inl e
      | Inr _ \<Rightarrow>
          Inr (map (\<lambda>cacheID.
                 domain_loop (make_partition info cacheToNUMA cacheToSize cacheToCPU cacheID)
                   specs 0 0)
               (CacheIDs info)))"

definition AllPartitions :: "CachePartition list list \<Rightarrow> CachePartition list" where
  "AllPartitions perCache = concat perCache"

subsection \<open>Bandwidth, L2 and schemata\<close>

definition ApplyMBA :: "int \<Rightarrow> string \<Rightarrow> CachePartition list list \<Rightarrow> CachePartition list list" where
  "ApplyMBA throttle mode perCache =
     map (map (\<lambda>p. p\<lparr>MBAThrottle := throttle, PartMBAMode := mode\<rparr>)) perCache"

definition ApplySMBA :: "int \<Rightarrow> string \<Rightarrow> CachePartition list list \<Rightarrow> CachePartition list list" where
  "ApplySMBA throttle mode perCache =
     map (map (\<lambda>p. p\<lparr>SMBAThrottle := throttle, PartSMBAMode := mode\<rparr>)) perCache"

definition ApplyL2 :: "CATInfo \<Rightarrow> CachePartition list list \<Rightarrow> CachePartition list list" where
  "ApplyL2 l2Info perCache =
     (let totalWays = NumWays l2Info; fullCBM = show_hex (CBMMask l2Info) in
      map (map (\<lambda>p. p\<lparr>L2Ways := totalWays, L2TotalWays := totalWays, L2CBM := fullCBM\<rparr>)) perCache)"

definition FormatSchemata :: "int \<Rightarrow> string \<Rightarrow> string" where
  "FormatSchemata cacheID cbm = ''L3:'' @ show_int cacheID @ ''='' @ cbm"

definition FormatCombinedSchemata :: "CachePartition \<Rightarrow> string" where
  "FormatCombinedSchemata p =
     str_join [newline]
       ([FormatSchemata (CacheID p) (CBM p)]
        @ (if L2CBM p \<noteq> [] then [''L2:'' @ show_int (CacheID p) @ ''='' @ L2CBM p] else [])
        @ (if 0 < MBAThrottle p then [FormatMBASchemata (CacheID p) (MBAThrottle p)] else [])
        @ (if 0 < SMBAThrottle p then [FormatSMBASchemata (CacheID p) (SMBAThrottle p)] else []))"

definition FormatCombinedSchemataStr :: "int \<Rightarrow> string \<Rightarrow> int \<Rightarrow> string" where
  "FormatCombinedSchemataStr cacheID cbm mbaThrottle =
     str_join [newline]
       ([FormatSchemata cacheID cbm]
        @ (if 0 < mbaThrottle then [FormatMBASchemata cacheID mbaThrottle] else []))"

definition MBADeviceID :: "CachePartition \<Rightarrow> string" where
  "MBADeviceID p = ''mba'' @ show_int (CacheID p) @ ''-part'' @ show_int (Index p)"

definition SMBADeviceID :: "CachePartition \<Rightarrow> string" where
  "SMBADeviceID p = ''smba'' @ show_int (CacheID p) @ ''-part'' @ show_int (Index p)"

subsection \<open>The layout of a domain\<close>

text \<open>
  The abstract view of a spec list: \<open>layout\<close> is the list of way counts in partition order,
  \<open>spec_total\<close> and \<open>spec_count\<close> are the totals the validation means to compute, in unbounded
  arithmetic. \<open>well_sized\<close> says that these totals fit in an \<open>int\<close>; without it the running
  totals of the validation wrap around (see \<open>validation_wraps\<close> below).
\<close>

definition layout :: "PartitionSpec list \<Rightarrow> int list" where
  "layout specs = concat (map (\<lambda>s. replicate (nat (SpecCount s)) (SpecWays s)) specs)"

definition spec_total :: "PartitionSpec list \<Rightarrow> int" where
  "spec_total specs = sum_list (map (\<lambda>s. SpecWays s * SpecCount s) specs)"

definition spec_count :: "PartitionSpec list \<Rightarrow> int" where
  "spec_count specs = sum_list (map SpecCount specs)"

definition nonneg_specs :: "PartitionSpec list \<Rightarrow> bool" where
  "nonneg_specs specs \<longleftrightarrow> (\<forall>s \<in> set specs. 0 \<le> SpecWays s \<and> 0 \<le> SpecCount s)"

definition well_sized :: "PartitionSpec list \<Rightarrow> bool" where
  "well_sized specs \<longleftrightarrow>
     nonneg_specs specs \<and> spec_total specs < 2 ^ 63 \<and> spec_count specs < 2 ^ 63"

lemma spec_simps [simp]:
  "layout [] = []" "layout (s # ss) = replicate (nat (SpecCount s)) (SpecWays s) @ layout ss"
  "spec_total [] = 0" "spec_total (s # ss) = SpecWays s * SpecCount s + spec_total ss"
  "spec_count [] = 0" "spec_count (s # ss) = SpecCount s + spec_count ss"
  "nonneg_specs []"
  "nonneg_specs (s # ss) \<longleftrightarrow> 0 \<le> SpecWays s \<and> 0 \<le> SpecCount s \<and> nonneg_specs ss"
  by (auto simp: layout_def spec_total_def spec_count_def nonneg_specs_def)

lemma spec_nonneg: "nonneg_specs ss \<Longrightarrow> 0 \<le> spec_total ss" "nonneg_specs ss \<Longrightarrow> 0 \<le> spec_count ss"
  by (induction ss) auto

lemma sum_layout: "nonneg_specs ss \<Longrightarrow> sum_list (layout ss) = spec_total ss"
  by (induction ss) (auto simp: sum_list_replicate)

lemma length_layout: "nonneg_specs ss \<Longrightarrow> int (length (layout ss)) = spec_count ss"
  by (induction ss) auto

lemma layout_nonneg: "nonneg_specs ss \<Longrightarrow> \<forall>w \<in> set (layout ss). 0 \<le> w"
  by (auto simp: layout_def nonneg_specs_def)

text \<open>The two loops over specs and counts are one loop over the layout.\<close>

fun lay :: "(int \<Rightarrow> int \<Rightarrow> int \<Rightarrow> 'p) \<Rightarrow> int list \<Rightarrow> int \<Rightarrow> int \<Rightarrow> 'p list" where
  "lay mk [] s g = []"
| "lay mk (w # ws) s g = mk s g w # lay mk ws (wrap64 (s + w)) (wrap64 (g + 1))"

fun lay_end :: "int list \<Rightarrow> int \<Rightarrow> int \<Rightarrow> int \<times> int" where
  "lay_end [] s g = (s, g)"
| "lay_end (w # ws) s g = lay_end ws (wrap64 (s + w)) (wrap64 (g + 1))"

lemma lay_append:
  "lay mk (ws @ vs) s g = lay mk ws s g @ (case lay_end ws s g of (s', g') \<Rightarrow> lay mk vs s' g')"
  by (induction ws arbitrary: s g) simp_all

lemma spec_loop_lay:
  "spec_loop mk n ways s g =
     (lay mk (replicate n ways) s g, fst (lay_end (replicate n ways) s g), snd (lay_end (replicate n ways) s g))"
  by (induction n arbitrary: s g) (simp_all add: Let_def)

lemma domain_loop_lay: "domain_loop mk specs s g = lay mk (layout specs) s g"
  by (induction specs arbitrary: s g) (simp_all add: spec_loop_lay lay_append split: prod.splits)

text \<open>Within the range of \<open>int\<close>, partition \<open>k\<close> starts where the ways before it end.\<close>

lemma lay_nth:
  assumes "\<forall>w \<in> set ws. 0 \<le> w" "0 \<le> s" "0 \<le> g"
    and "s + sum_list ws < 2 ^ 63" "g + int (length ws) < 2 ^ 63"
  shows "lay mk ws s g =
    map (\<lambda>k. mk (s + sum_list (take k ws)) (g + int k) (ws ! k)) [0..<length ws]"
  using assms
proof (induction ws arbitrary: s g)
  case Nil
  then show ?case by simp
next
  case (Cons w ws)
  have nonneg: "0 \<le> sum_list ws" using Cons.prems(1) by (simp add: sum_list_nonneg)
  then have "wrap64 (s + w) = s + w" "wrap64 (g + 1) = g + 1"
    using Cons.prems by (auto simp: in_int_def)
  moreover have "lay mk ws (s + w) (g + 1) =
      map (\<lambda>k. mk (s + w + sum_list (take k ws)) (g + 1 + int k) (ws ! k)) [0..<length ws]"
    using Cons.prems by (intro Cons.IH) auto
  moreover have "[0..<length (w # ws)] = 0 # map Suc [0..<length ws]"
    by (simp add: map_Suc_upt upt_conv_Cons del: upt_Suc)
  ultimately show ?case by (simp add: algebra_simps comp_def del: upt_Suc)
qed

subsection \<open>Validation\<close>

lemma validate_loop_totals:
  assumes "nonneg_specs specs" "0 \<le> req" "0 \<le> cnt"
    and "req + spec_total specs < 2 ^ 63" "cnt + spec_count specs < 2 ^ 63"
    and "validate_loop lo hi specs req cnt = Inr r"
  shows "r = (req + spec_total specs, cnt + spec_count specs) \<and>
    (\<forall>s \<in> set specs. lo \<le> SpecWays s \<and> SpecWays s \<le> hi)"
  using assms
proof (induction lo hi specs req cnt rule: validate_loop.induct)
  case (1 lo hi req cnt)
  then show ?case by simp
next
  case (2 lo hi s ss req cnt)
  have n: "0 \<le> SpecWays s * SpecCount s" "0 \<le> spec_total ss" "0 \<le> spec_count ss"
    using 2(2) spec_nonneg [of ss] by simp_all
  have "wrap64 (SpecWays s * SpecCount s) = SpecWays s * SpecCount s"
    "wrap64 (req + SpecWays s * SpecCount s) = req + SpecWays s * SpecCount s"
    using wrap64_running [of req "SpecWays s * SpecCount s" "spec_total ss"] n "2.prems" by simp_all
  moreover have "wrap64 (cnt + SpecCount s) = cnt + SpecCount s"
    using wrap64_running [of cnt "SpecCount s" "spec_count ss"] n "2.prems" by simp
  ultimately show ?case
    using 2 n by (auto simp: algebra_simps split: if_splits)
qed

lemma validate_loop_ok:
  assumes "nonneg_specs specs" "0 \<le> req" "0 \<le> cnt"
    and "req + spec_total specs < 2 ^ 63" "cnt + spec_count specs < 2 ^ 63"
    and "\<forall>s \<in> set specs. lo \<le> SpecWays s \<and> SpecWays s \<le> hi"
  shows "validate_loop lo hi specs req cnt = Inr (req + spec_total specs, cnt + spec_count specs)"
  using assms
proof (induction lo hi specs req cnt rule: validate_loop.induct)
  case (1 lo hi req cnt)
  then show ?case by simp
next
  case (2 lo hi s ss req cnt)
  have n: "0 \<le> SpecWays s * SpecCount s" "0 \<le> spec_total ss" "0 \<le> spec_count ss"
    using 2(2) spec_nonneg [of ss] by simp_all
  have "wrap64 (SpecWays s * SpecCount s) = SpecWays s * SpecCount s"
    "wrap64 (req + SpecWays s * SpecCount s) = req + SpecWays s * SpecCount s"
    using wrap64_running [of req "SpecWays s * SpecCount s" "spec_total ss"] n "2.prems" by simp_all
  moreover have "wrap64 (cnt + SpecCount s) = cnt + SpecCount s"
    using wrap64_running [of cnt "SpecCount s" "spec_count ss"] n "2.prems" by simp
  ultimately show ?case
    using 2 n by (auto simp: algebra_simps)
qed

text \<open>Exactly which spec lists are accepted, as long as the totals fit in an \<open>int\<close>.\<close>

definition specs_fit :: "CATInfo \<Rightarrow> PartitionSpec list \<Rightarrow> bool" where
  "specs_fit info specs \<longleftrightarrow>
     specs \<noteq> [] \<and>
     (\<forall>s \<in> set specs. MinCBMBits info \<le> SpecWays s \<and> SpecWays s \<le> NumWays info) \<and>
     spec_total specs \<le> NumWays info \<and> spec_count specs \<le> wrap64 (NumCLOSIDs info - 1)"

lemma validate_specs_iff:
  assumes "well_sized specs"
  shows "validate_specs info specs = Inr () \<longleftrightarrow> specs_fit info specs"
proof
  assume "validate_specs info specs = Inr ()"
  then obtain r where "specs \<noteq> []"
    and r: "validate_loop (MinCBMBits info) (NumWays info) specs 0 0 = Inr r"
    and le: "fst r \<le> NumWays info" "snd r \<le> wrap64 (NumCLOSIDs info - 1)"
    by (auto simp: validate_specs_def not_less split: sum.splits if_splits)
  with assms validate_loop_totals [OF _ _ _ _ _ r] show "specs_fit info specs"
    by (auto simp: well_sized_def specs_fit_def)
next
  assume "specs_fit info specs"
  with assms show "validate_specs info specs = Inr ()"
    using validate_loop_ok [of specs 0 0 "MinCBMBits info" "NumWays info"]
    by (auto simp: well_sized_def specs_fit_def validate_specs_def)
qed

lemma PartitionCache_ok_iff:
  "well_sized specs \<Longrightarrow> is_ok (PartitionCache info specs n z c) \<longleftrightarrow> specs_fit info specs"
  using validate_specs_iff [of specs info]
  by (auto simp: PartitionCache_def is_ok_def split: sum.splits)

subsection \<open>The partitions of an accepted spec list\<close>

definition partition_ways :: "CachePartition \<Rightarrow> nat set" where
  "partition_ways p = (case parse_uint_hex (CBM p) of None \<Rightarrow> {} | Some m \<Rightarrow> way_set m)"

lemma way_set_buildCBM:
  "0 \<le> s \<Longrightarrow> 0 \<le> n \<Longrightarrow> s + n \<le> 64 \<Longrightarrow> way_set (buildCBM s n) = run_set s n"
  by (simp add: buildCBM_def in_int_def way_set_mask_loop)

lemma make_partition_simps [simp]:
  "ID (make_partition i n z c d s g w) = ''cache'' @ show_int d @ ''-part'' @ show_int g"
  "CacheID (make_partition i n z c d s g w) = d"
  "Index (make_partition i n z c d s g w) = g"
  "Ways (make_partition i n z c d s g w) = w"
  "TotalWays (make_partition i n z c d s g w) = NumWays i"
  "ResctrlGroup (make_partition i n z c d s g w) = ''dra-cache'' @ show_int d @ ''-part'' @ show_int g"
  "CBM (make_partition i n z c d s g w) = show_hex (buildCBM s w)"
  by (simp_all add: make_partition_def Let_def)

lemma partition_ways_make:
  "0 \<le> s \<Longrightarrow> 0 \<le> w \<Longrightarrow> s + w \<le> 64 \<Longrightarrow> partition_ways (make_partition i n z c d s g w) = run_set s w"
  by (simp add: partition_ways_def parse_show_hex way_set_buildCBM)

text \<open>The first way of partition \<open>k\<close>: the sum of the way counts before it.\<close>

definition way_start :: "PartitionSpec list \<Rightarrow> nat \<Rightarrow> int" where
  "way_start specs k = sum_list (take k (layout specs))"

lemma sum_list_take_le:
  assumes "\<forall>w \<in> set ws. 0 \<le> (w :: int)"
  shows "0 \<le> sum_list (take k ws)" "sum_list (take k ws) \<le> sum_list ws"
proof -
  show "0 \<le> sum_list (take k ws)"
    using assms by (intro sum_list_nonneg) (auto dest: in_set_takeD)
  have "0 \<le> sum_list (drop k ws)"
    using assms by (intro sum_list_nonneg) (auto dest: in_set_dropD)
  moreover have "sum_list ws = sum_list (take k ws) + sum_list (drop k ws)"
    using sum_list_append [of "take k ws" "drop k ws"] by simp
  ultimately show "sum_list (take k ws) \<le> sum_list ws" by simp
qed

lemma way_start_Suc:
  "k < length (layout specs) \<Longrightarrow> way_start specs (Suc k) = way_start specs k + layout specs ! k"
  by (simp add: way_start_def take_Suc_conv_app_nth)

lemma way_start_bounds:
  "nonneg_specs specs \<Longrightarrow> 0 \<le> way_start specs k"
  "nonneg_specs specs \<Longrightarrow> way_start specs k \<le> spec_total specs"
  using sum_list_take_le [OF layout_nonneg, of specs k] by (simp_all add: way_start_def sum_layout)

lemma way_start_mono:
  assumes "nonneg_specs specs" "j \<le> k"
  shows "way_start specs j \<le> way_start specs k"
proof -
  have "take j (layout specs) = take j (take k (layout specs))"
    using assms(2) by (simp add: min_def)
  moreover have "\<forall>w \<in> set (take k (layout specs)). 0 \<le> w"
    using layout_nonneg [OF assms(1)] by (auto dest: in_set_takeD)
  ultimately show ?thesis
    unfolding way_start_def by (metis sum_list_take_le(2))
qed

lemma PartitionCache_layout:
  assumes "PartitionCache info specs n z c = Inr perCache" "well_sized specs"
  shows "perCache =
    map (\<lambda>d. map (\<lambda>k. make_partition info n z c d (way_start specs k) (int k) (layout specs ! k))
               [0..<length (layout specs)]) (CacheIDs info)"
    and "specs_fit info specs"
proof -
  have "is_ok (PartitionCache info specs n z c)" using assms(1) by simp
  then show fit: "specs_fit info specs" using assms(2) PartitionCache_ok_iff by blast
  have nn: "nonneg_specs specs" using assms(2) by (simp add: well_sized_def)
  have "perCache = map (\<lambda>d. lay (make_partition info n z c d) (layout specs) 0 0) (CacheIDs info)"
    using assms(1) by (auto simp: PartitionCache_def domain_loop_lay split: sum.splits)
  moreover have "lay mk (layout specs) 0 0 =
      map (\<lambda>k. mk (way_start specs k) (int k) (layout specs ! k)) [0..<length (layout specs)]"
    for mk :: "int \<Rightarrow> int \<Rightarrow> int \<Rightarrow> CachePartition"
    using lay_nth [OF layout_nonneg [OF nn], of 0 0 mk] assms(2)
    by (simp add: sum_layout [OF nn] length_layout [OF nn] well_sized_def way_start_def)
  ultimately show "perCache =
    map (\<lambda>d. map (\<lambda>k. make_partition info n z c d (way_start specs k) (int k) (layout specs ! k))
               [0..<length (layout specs)]) (CacheIDs info)"
    by simp
qed

end
