(* ===== verification/AllocState.thy ===== *)
theory AllocState
  imports Partition
begin

text \<open>
  \<open>pkg/driver/state.go\<close>: which partition belongs to which claim (basic mode). A Go map is ranged
  over in an arbitrary order, which is an argument of the operations that do so. The abstract
  state is \<open>owner\<close>, the map from partition IDs to the claims that hold them; the locale
  \<open>claim_store\<close> is the contract that claim preparation and crash recovery share.
\<close>

record PartitionState =
  StPartition :: CachePartition
  Allocated :: bool
  ClaimUID :: string

type_synonym AllocationState = "string \<rightharpoonup> PartitionState"

definition NewAllocationState :: "CachePartition list list \<Rightarrow> AllocationState" where
  "NewAllocationState perCache =
     fold (fold (\<lambda>p partitions.
             partitions(ID p \<mapsto> \<lparr>StPartition = p, Allocated = False, ClaimUID = []\<rparr>)))
       perCache Map.empty"

text \<open>\<open>for id, p := range a.partitions\<close> in the order \<open>order\<close>.\<close>

definition range_states :: "string list \<Rightarrow> AllocationState \<Rightarrow> PartitionState list" where
  "range_states order a = List.map_filter a order"

definition AvailablePartitions :: "string list \<Rightarrow> AllocationState \<Rightarrow> CachePartition list" where
  "AvailablePartitions order a =
     map StPartition (filter (\<lambda>p. \<not> Allocated p) (range_states order a))"

definition StAllocate ::
  "string \<Rightarrow> string \<Rightarrow> AllocationState \<Rightarrow> go_error option \<times> AllocationState" where
  "StAllocate partitionID claimUID a =
     (case a partitionID of
        None \<Rightarrow> (Some (Errorf ''partition %q not found'' [ArgStr partitionID]), a)
      | Some p \<Rightarrow>
          if Allocated p then
            (if ClaimUID p = claimUID then (None, a)
             else (Some (Errorf ''partition %q already allocated to claim %q''
                     [ArgStr partitionID, ArgStr (ClaimUID p)]), a))
          else (None, a(partitionID \<mapsto> p\<lparr>Allocated := True, ClaimUID := claimUID\<rparr>)))"

definition StRelease :: "string \<Rightarrow> AllocationState \<Rightarrow> go_error option \<times> AllocationState" where
  "StRelease partitionID a =
     (case a partitionID of
        None \<Rightarrow> (Some (Errorf ''partition %q not found'' [ArgStr partitionID]), a)
      | Some p \<Rightarrow> (None, a(partitionID \<mapsto> p\<lparr>Allocated := False, ClaimUID := []\<rparr>)))"

fun release_loop :: "string \<Rightarrow> string list \<Rightarrow> AllocationState \<Rightarrow> string list \<times> AllocationState" where
  "release_loop claimUID [] a = ([], a)"
| "release_loop claimUID (k # ks) a =
     (case a k of
        None \<Rightarrow> release_loop claimUID ks a
      | Some p \<Rightarrow>
          if Allocated p \<and> ClaimUID p = claimUID then
            (let (released, a') =
               release_loop claimUID ks (a(k \<mapsto> p\<lparr>Allocated := False, ClaimUID := []\<rparr>))
             in (k # released, a'))
          else release_loop claimUID ks a)"

definition ReleaseByClaimUID ::
  "string list \<Rightarrow> string \<Rightarrow> AllocationState \<Rightarrow> string list \<times> AllocationState" where
  "ReleaseByClaimUID order claimUID a = release_loop claimUID order a"

definition AllocatedCount :: "string list \<Rightarrow> AllocationState \<Rightarrow> int" where
  "AllocatedCount order a = int (length (filter Allocated (range_states order a)))"

definition PartitionsByClaimUID :: "string list \<Rightarrow> string \<Rightarrow> AllocationState \<Rightarrow> CachePartition list" where
  "PartitionsByClaimUID order claimUID a =
     map StPartition (filter (\<lambda>p. Allocated p \<and> ClaimUID p = claimUID) (range_states order a))"

subsection \<open>The abstract state: owners\<close>

definition owner :: "AllocationState \<Rightarrow> string \<rightharpoonup> string" where
  "owner a k = (case a k of None \<Rightarrow> None | Some p \<Rightarrow> if Allocated p then Some (ClaimUID p) else None)"

definition known :: "AllocationState \<Rightarrow> string \<rightharpoonup> CachePartition" where
  "known a k = map_option StPartition (a k)"

text \<open>A free partition carries no claim.\<close>

definition tidy :: "AllocationState \<Rightarrow> bool" where
  "tidy a \<longleftrightarrow> (\<forall>k p. a k = Some p \<longrightarrow> \<not> Allocated p \<longrightarrow> ClaimUID p = [])"

lemma dom_known: "dom (known a) = dom a"
  by (auto simp: known_def)

lemma owner_upd: "owner (a(k \<mapsto> p)) = (owner a)(k := (if Allocated p then Some (ClaimUID p) else None))"
  by (auto simp: owner_def)

lemma known_upd: "known (a(k \<mapsto> p)) = (known a)(k \<mapsto> StPartition p)"
  by (auto simp: known_def)

lemma known_same: "a k = Some p \<Longrightarrow> StPartition q = StPartition p \<Longrightarrow> known (a(k \<mapsto> q)) = known a"
  by (auto simp: known_def)

lemma dom_owner: "dom (owner a) \<subseteq> dom a"
  by (auto simp: owner_def split: option.splits)

lemma StAllocate_None_iff:
  "fst (StAllocate k uid a) = None \<longleftrightarrow> k \<in> dom a \<and> (owner a k = None \<or> owner a k = Some uid)"
  by (auto simp: StAllocate_def owner_def split: option.splits if_splits)

lemma StAllocate_owner:
  "owner (snd (StAllocate k uid a)) =
     (if fst (StAllocate k uid a) = None then (owner a)(k \<mapsto> uid) else owner a)"
  by (auto simp: StAllocate_def owner_upd split: option.splits if_splits)
    (auto simp: owner_def)

lemma StAllocate_known: "known (snd (StAllocate k uid a)) = known a"
  by (auto simp: StAllocate_def known_same split: option.splits if_splits)

lemma StAllocate_tidy: "tidy a \<Longrightarrow> tidy (snd (StAllocate k uid a))"
  by (auto simp: StAllocate_def tidy_def split: option.splits if_splits)

lemma StRelease_owner: "owner (snd (StRelease k a)) = (owner a)(k := None)"
  by (auto simp: StRelease_def owner_upd split: option.splits) (auto simp: owner_def)

lemma StRelease_known: "known (snd (StRelease k a)) = known a"
  by (auto simp: StRelease_def known_same split: option.splits)

lemma StRelease_tidy: "tidy a \<Longrightarrow> tidy (snd (StRelease k a))"
  by (auto simp: StRelease_def tidy_def split: option.splits)

text \<open>The loop of \<open>ReleaseByClaimUID\<close> releases, one by one, the partitions that the claim owns.\<close>

lemma release_loop_Cons:
  "release_loop uid (k # ks) a =
     (if owner a k = Some uid
      then (k # fst (release_loop uid ks (snd (StRelease k a))),
            snd (release_loop uid ks (snd (StRelease k a))))
      else release_loop uid ks a)"
  by (simp add: owner_def StRelease_def case_prod_unfold Let_def split: option.splits)

lemma release_loop_owner:
  "owner (snd (release_loop uid ks a)) k =
     (if k \<in> set ks \<and> owner a k = Some uid then None else owner a k)"
  by (induction ks arbitrary: a)
    (simp_all add: release_loop_Cons StRelease_owner del: release_loop.simps(2))

lemma release_loop_known: "known (snd (release_loop uid ks a)) = known a"
  by (induction ks arbitrary: a)
    (simp_all add: release_loop_Cons StRelease_known del: release_loop.simps(2))

lemma release_loop_tidy: "tidy a \<Longrightarrow> tidy (snd (release_loop uid ks a))"
  by (induction ks arbitrary: a)
    (simp_all add: release_loop_Cons StRelease_tidy del: release_loop.simps(2))

lemma release_loop_keys:
  "distinct ks \<Longrightarrow> fst (release_loop uid ks a) = filter (\<lambda>k. owner a k = Some uid) ks"
proof (induction ks arbitrary: a)
  case (Cons k ks)
  have "filter (\<lambda>k'. owner (snd (StRelease k a)) k' = Some uid) ks =
      filter (\<lambda>k'. owner a k' = Some uid) ks"
    using Cons.prems by (auto simp: StRelease_owner intro!: filter_cong)
  with Cons show ?case by (simp add: release_loop_Cons del: release_loop.simps(2))
qed simp

lemmas release_loop_facts = release_loop_owner release_loop_known release_loop_keys

subsection \<open>Start state\<close>

lemma fold_states:
  "fold (\<lambda>p partitions. partitions(ID p \<mapsto> \<lparr>StPartition = p, Allocated = False, ClaimUID = []\<rparr>)) ps a k =
     (case find (\<lambda>p. ID p = k) (rev ps) of
        None \<Rightarrow> a k
      | Some p \<Rightarrow> Some \<lparr>StPartition = p, Allocated = False, ClaimUID = []\<rparr>)"
proof (induction ps rule: rev_induct)
  case (snoc p ps)
  then show ?case by (auto split: option.splits)
qed simp

lemma NewAllocationState_eq:
  "NewAllocationState perCache =
     fold (\<lambda>p partitions. partitions(ID p \<mapsto> \<lparr>StPartition = p, Allocated = False, ClaimUID = []\<rparr>))
       (AllPartitions perCache) Map.empty"
proof -
  have "fold (fold f) xss a = fold f (concat xss) a" for f :: "'x \<Rightarrow> 'y \<Rightarrow> 'y" and xss a
    by (induction xss arbitrary: a) simp_all
  then show ?thesis by (simp only: NewAllocationState_def AllPartitions_def)
qed

lemma find_SomeD: "find P xs = Some x \<Longrightarrow> x \<in> set xs \<and> P x"
  by (induction xs) (auto split: if_splits)

lemma find_distinct: "distinct (map f xs) \<Longrightarrow> x \<in> set xs \<Longrightarrow> find (\<lambda>y. f y = f x) xs = Some x"
  by (induction xs) (auto simp: image_iff)

lemma NewAllocationState_lookup:
  assumes "distinct (map ID (AllPartitions perCache))"
  shows "NewAllocationState perCache k = Some s \<longleftrightarrow>
    (\<exists>p \<in> set (AllPartitions perCache). ID p = k \<and>
       s = \<lparr>StPartition = p, Allocated = False, ClaimUID = []\<rparr>)"
proof -
  let ?ps = "rev (AllPartitions perCache)"
  have d: "distinct (map ID ?ps)" using assms by (simp add: rev_map [symmetric])
  show ?thesis
  proof (cases "find (\<lambda>p. ID p = k) ?ps")
    case None
    then have "\<forall>p \<in> set (AllPartitions perCache). ID p \<noteq> k" by (auto simp: find_None_iff)
    with None show ?thesis by (auto simp: NewAllocationState_eq fold_states)
  next
    case (Some p)
    then have p: "p \<in> set (AllPartitions perCache)" "ID p = k"
      using find_SomeD [OF Some] by simp_all
    have uniq: "q = p" if "q \<in> set (AllPartitions perCache)" "ID q = k" for q
      using find_distinct [OF d, of q] that Some by simp
    have "NewAllocationState perCache k =
        Some \<lparr>StPartition = p, Allocated = False, ClaimUID = []\<rparr>"
      using Some by (simp add: NewAllocationState_eq fold_states)
    with p show ?thesis by (auto dest: uniq)
  qed
qed

lemma NewAllocationState_Some:
  "NewAllocationState perCache k = Some s \<Longrightarrow> \<not> Allocated s \<and> ClaimUID s = []"
  by (auto simp: NewAllocationState_eq fold_states split: option.splits)

lemma NewAllocationState_owner: "owner (NewAllocationState perCache) = Map.empty"
  using NewAllocationState_Some by (fastforce simp: owner_def split: option.splits)

lemma NewAllocationState_tidy: "tidy (NewAllocationState perCache)"
  using NewAllocationState_Some by (auto simp: tidy_def)

subsection \<open>The interface to claim preparation and recovery\<close>

text \<open>
  Both callers run \<open>Allocate\<close> over the results of one claim and skip the results it refuses;
  \<open>claim_loop\<close> is that loop, with the accepted results and the state after it.
\<close>

fun claim_loop ::
  "(string \<Rightarrow> string \<Rightarrow> 's \<Rightarrow> go_error option \<times> 's) \<Rightarrow> ('r \<Rightarrow> string) \<Rightarrow> string \<Rightarrow> 'r list \<Rightarrow> 's \<Rightarrow> 'r list \<times> 's"
where
  "claim_loop alloc dev uid [] s = ([], s)"
| "claim_loop alloc dev uid (r # rs) s =
     (case alloc (dev r) uid s of
        (Some _, s') \<Rightarrow> claim_loop alloc dev uid rs s'
      | (None, s') \<Rightarrow> (let (acc, s'') = claim_loop alloc dev uid rs s' in (r # acc, s'')))"

locale claim_store =
  fixes ids :: "'s \<Rightarrow> string set" and own :: "'s \<Rightarrow> string \<rightharpoonup> string"
    and alloc :: "string \<Rightarrow> string \<Rightarrow> 's \<Rightarrow> go_error option \<times> 's"
  assumes alloc_ok: "fst (alloc k uid s) = None \<longleftrightarrow> k \<in> ids s \<and> (own s k = None \<or> own s k = Some uid)"
    and alloc_own: "own (snd (alloc k uid s)) =
      (if fst (alloc k uid s) = None then (own s)(k \<mapsto> uid) else own s)"
    and alloc_ids: "ids (snd (alloc k uid s)) = ids s"
begin

definition free_for :: "string \<Rightarrow> 's \<Rightarrow> string \<Rightarrow> bool" where
  "free_for uid s k \<longleftrightarrow> k \<in> ids s \<and> (own s k = None \<or> own s k = Some uid)"

lemma claim_loop_Cons:
  "claim_loop alloc dev uid (r # rs) s =
     (let s' = snd (alloc (dev r) uid s) in
      if free_for uid s (dev r)
      then (r # fst (claim_loop alloc dev uid rs s'), snd (claim_loop alloc dev uid rs s'))
      else claim_loop alloc dev uid rs s')"
  using alloc_ok [of "dev r" uid s]
  by (auto simp: free_for_def case_prod_unfold Let_def split: option.splits prod.splits)

lemma free_for_alloc: "free_for uid (snd (alloc k uid s)) k' \<longleftrightarrow> free_for uid s k'"
  using alloc_ok [of k uid s] by (auto simp: free_for_def alloc_own alloc_ids)

lemma claim_loop_accepts:
  "fst (claim_loop alloc dev uid rs s) = filter (\<lambda>r. free_for uid s (dev r)) rs"
  by (induction rs arbitrary: s)
    (simp_all add: claim_loop_Cons free_for_alloc Let_def del: claim_loop.simps(2))

lemma own_alloc: "own (snd (alloc k uid s)) = (if free_for uid s k then (own s)(k \<mapsto> uid) else own s)"
  by (simp add: alloc_own alloc_ok free_for_def)

lemma claim_loop_own:
  "own (snd (claim_loop alloc dev uid rs s)) k =
     (if free_for uid s k \<and> k \<in> dev ` set rs then Some uid else own s k)"
proof (induction rs arbitrary: s)
  case (Cons r rs)
  have "snd (claim_loop alloc dev uid (r # rs) s) =
      snd (claim_loop alloc dev uid rs (snd (alloc (dev r) uid s)))"
    by (simp add: claim_loop_Cons Let_def del: claim_loop.simps(2))
  with Cons show ?case by (auto simp: free_for_alloc own_alloc)
qed simp

lemma claim_loop_ids: "ids (snd (claim_loop alloc dev uid rs s)) = ids s"
  by (induction rs arbitrary: s) (simp_all add: claim_loop_Cons Let_def alloc_ids del: claim_loop.simps(2))

text \<open>The claims of other owners are left alone, and a second run accepts the same results.\<close>

lemma claim_loop_frame:
  "own s k = Some u \<Longrightarrow> u \<noteq> uid \<Longrightarrow> own (snd (claim_loop alloc dev uid rs s)) k = Some u"
  by (simp add: claim_loop_own free_for_def)

lemma claim_loop_again:
  "fst (claim_loop alloc dev uid rs (snd (claim_loop alloc dev uid rs s))) =
     fst (claim_loop alloc dev uid rs s)"
  by (auto simp: claim_loop_accepts free_for_def claim_loop_own claim_loop_ids intro!: filter_cong)

end

interpretation claims: claim_store dom owner StAllocate
proof unfold_locales
  fix k uid and s :: AllocationState
  show "fst (StAllocate k uid s) = None \<longleftrightarrow> k \<in> dom s \<and> (owner s k = None \<or> owner s k = Some uid)"
    by (rule StAllocate_None_iff)
  show "owner (snd (StAllocate k uid s)) =
      (if fst (StAllocate k uid s) = None then (owner s)(k \<mapsto> uid) else owner s)"
    by (rule StAllocate_owner)
  show "dom (snd (StAllocate k uid s)) = dom s"
    using StAllocate_known [of k uid s] by (metis dom_known)
qed

end
