(* ===== verification/KubeModel.thy ===== *)
theory KubeModel
  imports GoPrelude
begin

text \<open>
  What the driver exchanges with the Kubernetes API server and the kubelet: the fields of the
  API objects that the source reads or writes, and the client calls as a record of functions on
  the outside world \<open>'w\<close>. The API server is not part of the repository, so every operation of the
  model takes the client as an argument and its theorems hold for every client.
\<close>

subsection \<open>ResourceClaims\<close>

record alloc_result =
  res_request :: string
  res_driver :: string
  res_pool :: string
  res_device :: string

text \<open>\<open>claim_allocation\<close> is \<open>None\<close> while \<open>Status.Allocation\<close> is nil.\<close>

record ResourceClaim =
  claim_uid :: string
  claim_namespace :: string
  claim_name :: string
  claim_allocation :: "alloc_result list option"

record claim_page =
  page_items :: "ResourceClaim list"
  page_continue :: string

subsection \<open>ResourceSlices\<close>

datatype attr_value = IntValue int | StringValue string

record device_capacity =
  cap_value :: int
  cap_policy :: "int option"

record slice_device =
  dev_name :: string
  dev_attrs :: "string \<rightharpoonup> attr_value"
  dev_consumes :: "(string \<times> (string \<rightharpoonup> int)) list"
  dev_multi :: "bool option"
  dev_capacity :: "string \<rightharpoonup> device_capacity"

record owner_ref =
  or_api :: string
  or_kind :: string
  or_name :: string
  or_uid :: string

record ResourceSlice =
  sl_name :: string
  sl_version :: string
  sl_owners :: "owner_ref list"
  sl_driver :: string
  sl_node :: string
  sl_counters :: "(string \<times> (string \<rightharpoonup> int)) list"
  sl_pool :: string
  sl_pool_count :: int
  sl_devices :: "slice_device list"

record node_object =
  node_obj_name :: string
  node_obj_uid :: string

subsection \<open>The client\<close>

text \<open>
  Errors are strings; \<open>kube_already_exists\<close> classifies them as \<open>errors.IsAlreadyExists\<close> does.
  The flag of \<open>kube_create_slice\<close> asks for a dry run.
\<close>

record 'w kube =
  kube_get_claim :: "'w \<Rightarrow> string \<Rightarrow> string \<Rightarrow> string + ResourceClaim"
  kube_list_claims :: "'w \<Rightarrow> int \<Rightarrow> string \<Rightarrow> string + claim_page"
  kube_get_node :: "'w \<Rightarrow> string \<Rightarrow> string + node_object"
  kube_create_slice :: "'w \<Rightarrow> bool \<Rightarrow> ResourceSlice \<Rightarrow> (string + ResourceSlice) \<times> 'w"
  kube_get_slice :: "'w \<Rightarrow> string \<Rightarrow> string + ResourceSlice"
  kube_update_slice :: "'w \<Rightarrow> ResourceSlice \<Rightarrow> string option \<times> 'w"
  kube_delete_slice :: "'w \<Rightarrow> string \<Rightarrow> string option \<times> 'w"
  kube_already_exists :: "string \<Rightarrow> bool"

subsection \<open>The kubelet's requests\<close>

record kubelet_claim =
  kc_uid :: string
  kc_namespace :: string
  kc_name :: string

record prepared_device =
  pd_requests :: "string list"
  pd_pool :: string
  pd_device :: string
  pd_cdi_ids :: "string list"

record prepare_response =
  pr_devices :: "prepared_device list"
  pr_error :: "go_error option"

subsection \<open>A concrete client for examples\<close>

text \<open>Claims from a fixed list, in one page; a store of slices that the world \<open>'w\<close> is.\<close>

definition list_kube :: "ResourceClaim list \<Rightarrow> 'w kube" where
  "list_kube cs =
     \<lparr>kube_get_claim = (\<lambda>w ns n.
        case find (\<lambda>c. claim_namespace c = ns \<and> claim_name c = n) cs of
          None \<Rightarrow> Inl ''not found'' | Some c \<Rightarrow> Inr c),
      kube_list_claims = (\<lambda>w limit token. Inr \<lparr>page_items = cs, page_continue = []\<rparr>),
      kube_get_node = (\<lambda>w n. Inr \<lparr>node_obj_name = n, node_obj_uid = ''node-uid''\<rparr>),
      kube_create_slice = (\<lambda>w dry s. (Inl ''read only'', w)),
      kube_get_slice = (\<lambda>w n. Inl ''not found''),
      kube_update_slice = (\<lambda>w s. (Some ''read only'', w)),
      kube_delete_slice = (\<lambda>w n. (Some ''read only'', w)),
      kube_already_exists = (\<lambda>e. False)\<rparr>"

lemmas list_kube_simps [go_eval] = list_kube_def

definition slice_kube :: "ResourceSlice list kube" where
  "slice_kube =
     \<lparr>kube_get_claim = (\<lambda>w ns n. Inl ''not found''),
      kube_list_claims = (\<lambda>w limit token. Inr \<lparr>page_items = [], page_continue = []\<rparr>),
      kube_get_node = (\<lambda>w n. Inr \<lparr>node_obj_name = n, node_obj_uid = ''node-uid''\<rparr>),
      kube_create_slice = (\<lambda>w dry s.
        if sl_name s \<in> sl_name ` set w then (Inl ''already exists'', w)
        else (Inr s, if dry then w else s # w)),
      kube_get_slice = (\<lambda>w n. case find (\<lambda>s. sl_name s = n) w of None \<Rightarrow> Inl ''not found'' | Some s \<Rightarrow> Inr s),
      kube_update_slice = (\<lambda>w s.
        if sl_name s \<in> sl_name ` set w
        then (None, map (\<lambda>t. if sl_name t = sl_name s then s else t) w)
        else (Some ''not found'', w)),
      kube_delete_slice = (\<lambda>w n.
        if n \<in> sl_name ` set w then (None, filter (\<lambda>s. sl_name s \<noteq> n) w)
        else (Some ''not found'', w)),
      kube_already_exists = (\<lambda>e. e = ''already exists'')\<rparr>"

end
