(* ===== verification/Recovery.thy ===== *)
theory Recovery
  imports AllocState KubeModel
begin

text \<open>
  \<open>pkg/driver/recovery.go\<close>: after a restart the allocation state is rebuilt from the
  ResourceClaims of the cluster, which the API server lists in pages. The loop over the pages
  ends when the server sends no continue token, so it is a partial function; the theorems show
  that it returns on every finite chain of pages and which owners it restores.
\<close>

definition recoveryPageSize :: int where "recoveryPageSize = 500"

definition claimAllocatedOnNode :: "ResourceClaim \<Rightarrow> string \<Rightarrow> bool" where
  "claimAllocatedOnNode claim nodeName =
     (case claim_allocation claim of
        None \<Rightarrow> False
      | Some results \<Rightarrow> list_ex (\<lambda>result. res_pool result = nodeName) results)"

fun recover_results ::
  "string \<Rightarrow> string \<Rightarrow> string \<Rightarrow> alloc_result list \<Rightarrow> AllocationState \<Rightarrow> int \<times> AllocationState" where
  "recover_results driverName nodeName claimUID [] state = (0, state)"
| "recover_results driverName nodeName claimUID (result # results) state =
     (if res_driver result \<noteq> driverName then recover_results driverName nodeName claimUID results state
      else if res_pool result \<noteq> nodeName then recover_results driverName nodeName claimUID results state
      else (case StAllocate (res_device result) claimUID state of
              (Some _, state') \<Rightarrow> recover_results driverName nodeName claimUID results state'
            | (None, state') \<Rightarrow>
                (let (count, state'') = recover_results driverName nodeName claimUID results state'
                 in (count + 1, state''))))"

definition recoverClaim ::
  "ResourceClaim \<Rightarrow> string \<Rightarrow> string \<Rightarrow> AllocationState \<Rightarrow> int \<times> AllocationState" where
  "recoverClaim claim driverName nodeName state =
     (case claim_allocation claim of
        None \<Rightarrow> (0, state)
      | Some results \<Rightarrow>
          if \<not> claimAllocatedOnNode claim nodeName then (0, state)
          else recover_results driverName nodeName (claim_uid claim) results state)"

fun recover_items ::
  "string \<Rightarrow> string \<Rightarrow> ResourceClaim list \<Rightarrow> int \<Rightarrow> AllocationState \<Rightarrow> int \<times> AllocationState" where
  "recover_items driverName nodeName [] recovered state = (recovered, state)"
| "recover_items driverName nodeName (claim # claims) recovered state =
     (let (n, state') = recoverClaim claim driverName nodeName state
      in recover_items driverName nodeName claims (recovered + n) state')"

partial_function (option) recover_pages ::
  "'w kube \<Rightarrow> 'w \<Rightarrow> string \<Rightarrow> string \<Rightarrow> string \<Rightarrow> int \<Rightarrow> AllocationState
     \<Rightarrow> (int \<times> go_error option \<times> AllocationState) option" where
  "recover_pages kube w driverName nodeName continueToken recovered state =
     (case kube_list_claims kube w recoveryPageSize continueToken of
        Inl e \<Rightarrow> Some (recovered, Some (Wrapf ''listing ResourceClaims: %w'' [] (OsError e)), state)
      | Inr claims \<Rightarrow>
          (let (recovered', state') =
             recover_items driverName nodeName (page_items claims) recovered state
           in if page_continue claims = [] then Some (recovered', None, state')
              else recover_pages kube w driverName nodeName (page_continue claims) recovered' state'))"

definition RecoverAllocations ::
  "'w kube \<Rightarrow> 'w \<Rightarrow> string \<Rightarrow> string \<Rightarrow> AllocationState
     \<Rightarrow> (int \<times> go_error option \<times> AllocationState) option" where
  "RecoverAllocations kube w driverName nodeName state =
     recover_pages kube w driverName nodeName [] 0 state"

subsection \<open>One claim\<close>

text \<open>The results of a claim that are this driver's on this node.\<close>

definition own_results :: "string \<Rightarrow> string \<Rightarrow> ResourceClaim \<Rightarrow> alloc_result list" where
  "own_results driverName nodeName claim =
     (case claim_allocation claim of
        None \<Rightarrow> []
      | Some results \<Rightarrow> filter (\<lambda>r. res_driver r = driverName \<and> res_pool r = nodeName) results)"

definition own_devices :: "string \<Rightarrow> string \<Rightarrow> ResourceClaim \<Rightarrow> string set" where
  "own_devices driverName nodeName claim = res_device ` set (own_results driverName nodeName claim)"

lemma recover_results_loop:
  "recover_results drv node uid rs s =
     (let l = claim_loop StAllocate res_device uid (filter (\<lambda>r. res_driver r = drv \<and> res_pool r = node) rs) s
      in (int (length (fst l)), snd l))"
  by (induction drv node uid rs s rule: recover_results.induct)
    (auto simp: Let_def split: option.splits prod.splits)

lemma recoverClaim_loop:
  "recoverClaim claim drv node s =
     (let l = claim_loop StAllocate res_device (claim_uid claim) (own_results drv node claim) s
      in (int (length (fst l)), snd l))"
proof (cases "claim_allocation claim")
  case (Some rs)
  show ?thesis
  proof (cases "claimAllocatedOnNode claim node")
    case False
    with Some have "\<forall>r \<in> set rs. res_pool r \<noteq> node"
      by (auto simp: claimAllocatedOnNode_def list_ex_iff)
    then have "filter (\<lambda>r. res_driver r = drv \<and> res_pool r = node) rs = []" by (auto simp: filter_empty_conv)
    with Some False show ?thesis by (simp add: recoverClaim_def own_results_def Let_def)
  qed (use Some in \<open>simp add: recoverClaim_def own_results_def recover_results_loop\<close>)
qed (simp add: recoverClaim_def own_results_def)

lemma recoverClaim_owner:
  "owner (snd (recoverClaim claim drv node s)) k =
     (if owner s k = None \<and> k \<in> dom s \<and> k \<in> own_devices drv node claim
      then Some (claim_uid claim) else owner s k)"
  using dom_owner [of s]
  by (auto simp: recoverClaim_loop claims.claim_loop_own claims.free_for_def own_devices_def Let_def)

lemma recoverClaim_dom: "dom (snd (recoverClaim claim drv node s)) = dom s"
  by (simp add: recoverClaim_loop claims.claim_loop_ids Let_def)

subsection \<open>All claims\<close>

definition first_claim :: "string \<Rightarrow> string \<Rightarrow> ResourceClaim list \<Rightarrow> string \<rightharpoonup> string" where
  "first_claim drv node cs k = map_option claim_uid (find (\<lambda>c. k \<in> own_devices drv node c) cs)"

lemma recover_items_Cons:
  "recover_items drv node (c # cs) n s =
     recover_items drv node cs (n + fst (recoverClaim c drv node s)) (snd (recoverClaim c drv node s))"
  by (simp add: case_prod_unfold Let_def)

lemma recover_items_dom: "dom (snd (recover_items drv node cs n s)) = dom s"
  by (induction cs arbitrary: n s)
    (simp_all add: recover_items_Cons recoverClaim_dom del: recover_items.simps(2))

lemma recover_items_owner:
  "owner (snd (recover_items drv node cs n s)) k =
     (if owner s k \<noteq> None then owner s k else if k \<in> dom s then first_claim drv node cs k else None)"
proof (induction cs arbitrary: n s)
  case (Cons c cs)
  have d: "k \<in> dom (snd (recoverClaim c drv node s)) \<longleftrightarrow> k \<in> dom s"
    by (simp only: recoverClaim_dom)
  show ?case
    unfolding recover_items_Cons Cons.IH recoverClaim_owner d
    by (cases "owner s k") (simp_all add: first_claim_def)
qed (simp add: first_claim_def)

lemma recover_items_append:
  "recover_items drv node (cs @ ds) n s =
     (let r = recover_items drv node cs n s in recover_items drv node ds (fst r) (snd r))"
  by (induction cs arbitrary: n s)
    (simp_all add: recover_items_Cons Let_def del: recover_items.simps(2))

text \<open>The chain of pages that the server sends from a token on.\<close>

fun page_chain :: "'w kube \<Rightarrow> 'w \<Rightarrow> string \<Rightarrow> claim_page list \<Rightarrow> bool" where
  "page_chain kube w token [] = False"
| "page_chain kube w token (p # ps) =
     (kube_list_claims kube w recoveryPageSize token = Inr p \<and>
      (if ps = [] then page_continue p = []
       else page_continue p \<noteq> [] \<and> page_chain kube w (page_continue p) ps))"

lemma recover_pages_chain:
  "page_chain kube w token ps \<Longrightarrow>
     recover_pages kube w drv node token n s =
       (let r = recover_items drv node (concat (map page_items ps)) n s in Some (fst r, None, snd r))"
proof (induction ps arbitrary: token n s)
  case (Cons p ps)
  then have "kube_list_claims kube w recoveryPageSize token = Inr p" by simp
  with Cons show ?case
    by (subst recover_pages.simps)
      (auto simp: case_prod_unfold Let_def recover_items_append split: if_splits)
qed simp

end
