(* ===== verification/WayAlloc.thy ===== *)
theory WayAlloc
  imports Resctrl
begin

text \<open>
  \<open>pkg/driver/wayallocator.go\<close>: the allocator of cache ways for structured mode. Its mutex makes
  every operation atomic, so an operation is a function on the allocator's state. \<open>used_ways\<close> is
  its abstract state, the set of ways in use per cache domain.

  The locale \<open>way_pool\<close> is what the driver relies on: an allocation is disjoint from everything
  in use, a release gives back exactly its ways. Its client lemmas keep a table of holders
  (claims) and their masks pairwise disjoint. It is interpreted on the allocator of this theory.
\<close>

subsection \<open>State and operations\<close>

record WayAllocator =
  totalWays :: "int \<rightharpoonup> int"
  allocated :: "int \<rightharpoonup> 64 word"

definition NewWayAllocator :: "(int \<rightharpoonup> int) \<Rightarrow> WayAllocator" where
  "NewWayAllocator tw = \<lparr>totalWays = tw, allocated = (\<lambda>i. map_option (\<lambda>_. 0) (tw i))\<rparr>"

definition buildWayMask :: "int \<Rightarrow> int \<Rightarrow> 64 word" where
  "buildWayMask start count = mask_loop start (wrap64 (start + count)) 0"

text \<open>
  The first-fit search. The loop bound \<open>start + ways\<close> is at most \<open>total + 1\<close>, which does not
  overflow: a total is a number of ways, at most 64.
\<close>

function first_fit :: "64 word \<Rightarrow> int \<Rightarrow> int \<Rightarrow> int \<Rightarrow> 64 word option" where
  "first_fit used ways tw start =
     (if start + ways \<le> tw then
        (let candidate = buildWayMask start ways in
         if used AND candidate = 0 then Some candidate else first_fit used ways tw (start + 1))
      else None)"
  by pat_completeness auto
termination
  by (relation "measure (\<lambda>(used, ways, tw, start). nat (tw - ways - start + 1))") auto

declare first_fit.simps [simp del]

definition WayAllocate :: "int \<Rightarrow> int \<Rightarrow> WayAllocator \<Rightarrow> (go_error + 64 word) \<times> WayAllocator" where
  "WayAllocate cacheID ways a =
     (case totalWays a cacheID of
        None \<Rightarrow> (Inl (Errorf ''unknown cache domain %d'' [ArgInt cacheID]), a)
      | Some tw \<Rightarrow>
          if ways \<le> 0 \<or> tw < ways
          then (Inl (Errorf ''requested %d ways, domain %d has %d total''
                       [ArgInt ways, ArgInt cacheID, ArgInt tw]), a)
          else
            (let used = map_get 0 (allocated a) cacheID in
             case first_fit used ways tw 0 of
               Some candidate \<Rightarrow>
                 (Inr candidate, a\<lparr>allocated := (allocated a)(cacheID \<mapsto> used OR candidate)\<rparr>)
             | None \<Rightarrow>
                 (Inl (Errorf ''no %d consecutive free ways in cache domain %d (used: %b)''
                         [ArgInt ways, ArgInt cacheID, ArgWord used]), a)))"

definition WayRelease :: "int \<Rightarrow> 64 word \<Rightarrow> WayAllocator \<Rightarrow> WayAllocator" where
  "WayRelease cacheID cbm a =
     a\<lparr>allocated := (allocated a)(cacheID \<mapsto> map_get 0 (allocated a) cacheID AND NOT cbm)\<rparr>"

definition FreeWays :: "int \<Rightarrow> WayAllocator \<Rightarrow> int" where
  "FreeWays cacheID a =
     (let used = map_get 0 (allocated a) cacheID in
      int (length (filter (\<lambda>i. drop_bit i used AND 1 = 0)
                     [0..<nat (map_get 0 (totalWays a) cacheID)])))"

text \<open>Crash recovery: the masks in the \<open>L3:\<close> lines of the groups' schemata files.\<close>

definition rebuild_segment :: "string \<Rightarrow> (int \<rightharpoonup> 64 word) \<Rightarrow> (int \<rightharpoonup> 64 word)" where
  "rebuild_segment seg al =
     (case str_index (CHR ''='') seg of
        None \<Rightarrow> al
      | Some eqIdx \<Rightarrow>
          (case atoi (take eqIdx seg) of
             None \<Rightarrow> al
           | Some cacheID \<Rightarrow>
               (case parse_uint_hex (drop (Suc eqIdx) seg) of
                  None \<Rightarrow> al
                | Some cbm \<Rightarrow> al(cacheID \<mapsto> map_get 0 al cacheID OR cbm))))"

definition rebuild_line :: "string \<Rightarrow> (int \<rightharpoonup> 64 word) \<Rightarrow> (int \<rightharpoonup> 64 word)" where
  "rebuild_line l al =
     (let line = trim_space l in
      if \<not> has_prefix ''L3:'' line then al
      else fold rebuild_segment (str_split (CHR '';'') (trim_prefix ''L3:'' line)) al)"

definition rebuild_data :: "string \<Rightarrow> (int \<rightharpoonup> 64 word) \<Rightarrow> (int \<rightharpoonup> 64 word)" where
  "rebuild_data data al = fold rebuild_line (str_split newline (trim_space data)) al"

definition rebuild_entry ::
  "'w os \<Rightarrow> 'w \<Rightarrow> string \<Rightarrow> string \<Rightarrow> dir_entry \<Rightarrow> (int \<rightharpoonup> 64 word) \<Rightarrow> (int \<rightharpoonup> 64 word)" where
  "rebuild_entry os w root groupPrefix entry al =
     (if \<not> de_dir entry \<or> \<not> has_prefix groupPrefix (de_name entry) then al
      else (case os_read_file os w (path_join [root, de_name entry, ''schemata'']) of
              Inl _ \<Rightarrow> al
            | Inr data \<Rightarrow> rebuild_data data al))"

definition RebuildFromResctrl ::
  "'w os \<Rightarrow> 'w \<Rightarrow> string \<Rightarrow> string \<Rightarrow> WayAllocator \<Rightarrow> go_error option \<times> WayAllocator" where
  "RebuildFromResctrl os w resctrlRoot groupPrefix a =
     (case os_read_dir os w resctrlRoot of
        Inl e \<Rightarrow> (Some (Wrapf ''reading resctrl root %s: %w'' [ArgStr resctrlRoot] (OsError e)), a)
      | Inr entries \<Rightarrow>
          (None, a\<lparr>allocated := fold (rebuild_entry os w resctrlRoot groupPrefix) entries (allocated a)\<rparr>))"

subsection \<open>The abstract state\<close>

definition used_ways :: "WayAllocator \<Rightarrow> int \<Rightarrow> nat set" where
  "used_ways a c = way_set (map_get 0 (allocated a) c)"

definition way_inv :: "WayAllocator \<Rightarrow> bool" where
  "way_inv a \<longleftrightarrow> dom (totalWays a) \<subseteq> dom (allocated a) \<and> (\<forall>c n. totalWays a c = Some n \<longrightarrow> n \<le> 64)"

lemma way_set_buildWayMask:
  "0 \<le> s \<Longrightarrow> 0 \<le> n \<Longrightarrow> s + n \<le> 64 \<Longrightarrow> way_set (buildWayMask s n) = run_set s n"
  by (simp add: buildWayMask_def in_int_def way_set_mask_loop)

text \<open>First fit: the candidate is the free run with the least start, and \<open>None\<close> means there is none.\<close>

lemma first_fit_Some:
  assumes "first_fit used ways tw s = Some m" "0 \<le> s" "0 < ways" "tw \<le> 64"
  shows "\<exists>start. s \<le> start \<and> start + ways \<le> tw \<and> way_set m = run_set start ways \<and>
    way_set used \<inter> run_set start ways = {} \<and>
    (\<forall>t. s \<le> t \<longrightarrow> t < start \<longrightarrow> way_set used \<inter> run_set t ways \<noteq> {})"
  using assms
proof (induction used ways tw s rule: first_fit.induct)
  case (1 used ways tw s)
  from "1.prems" have b: "s + ways \<le> tw" by (auto simp: first_fit.simps [of used ways tw s] split: if_splits)
  then have run: "way_set (buildWayMask s ways) = run_set s ways"
    using "1.prems" by (intro way_set_buildWayMask) auto
  show ?case
  proof (cases "used AND buildWayMask s ways = 0")
    case True
    with "1.prems" b have "m = buildWayMask s ways" by (simp add: first_fit.simps [of used ways tw s])
    with True b run show ?thesis by (intro exI [of _ s]) (auto simp: and_eq_0_iff)
  next
    case False
    with "1.prems" b have "first_fit used ways tw (s + 1) = Some m"
      by (simp add: first_fit.simps [of used ways tw s])
    with False b "1.prems" "1.IH" [OF b refl] obtain start where
      st: "s + 1 \<le> start" "start + ways \<le> tw" "way_set m = run_set start ways"
        "way_set used \<inter> run_set start ways = {}"
        "\<forall>t. s + 1 \<le> t \<longrightarrow> t < start \<longrightarrow> way_set used \<inter> run_set t ways \<noteq> {}"
      by auto
    moreover have "way_set used \<inter> run_set t ways \<noteq> {}" if t: "s \<le> t" "t < start" for t
    proof (cases "t = s")
      case True
      then show ?thesis using False run by (simp add: and_eq_0_iff)
    next
      case False
      with t have "s + 1 \<le> t" by simp
      with t st(5) show ?thesis by blast
    qed
    ultimately show ?thesis by (intro exI [of _ start]) simp
  qed
qed

lemma first_fit_None:
  assumes "first_fit used ways tw s = None" "0 \<le> s" "0 < ways" "tw \<le> 64"
    and "s \<le> start" "start + ways \<le> tw"
  shows "way_set used \<inter> run_set start ways \<noteq> {}"
  using assms
proof (induction used ways tw s rule: first_fit.induct)
  case (1 used ways tw s)
  from "1.prems" have b: "s + ways \<le> tw" by simp
  with "1.prems" have ne: "used AND buildWayMask s ways \<noteq> 0"
    and rest: "first_fit used ways tw (s + 1) = None"
    by (auto simp: first_fit.simps [of used ways tw s] Let_def split: if_splits)
  show ?case
  proof (cases "start = s")
    case True
    then show ?thesis
      using ne b "1.prems" way_set_buildWayMask [of s ways] by (simp add: and_eq_0_iff)
  next
    case False
    then show ?thesis using "1.IH" [OF b refl ne rest] "1.prems" by simp
  qed
qed

lemma WayAllocate_Inr:
  assumes "way_inv a" "WayAllocate c n a = (Inr m, a')"
  obtains tw start where "totalWays a c = Some tw" "0 < n" "n \<le> tw"
    "0 \<le> start" "start + n \<le> tw" "way_set m = run_set start n"
    "used_ways a c \<inter> way_set m = {}"
    "\<And>t. 0 \<le> t \<Longrightarrow> t < start \<Longrightarrow> used_ways a c \<inter> run_set t n \<noteq> {}"
    "a' = a\<lparr>allocated := (allocated a)(c \<mapsto> map_get 0 (allocated a) c OR m)\<rparr>"
proof -
  from assms(2) obtain tw where tw: "totalWays a c = Some tw" "0 < n" "n \<le> tw"
    and f: "first_fit (map_get 0 (allocated a) c) n tw 0 = Some m"
    and a': "a' = a\<lparr>allocated := (allocated a)(c \<mapsto> map_get 0 (allocated a) c OR m)\<rparr>"
    by (auto simp: WayAllocate_def Let_def split: option.splits if_splits)
  have "tw \<le> 64" using assms(1) tw(1) by (auto simp: way_inv_def)
  from first_fit_Some [OF f _ tw(2) this] tw a' that show ?thesis
    by (auto simp: used_ways_def)
qed

lemma WayAllocate_Inl: "WayAllocate c n a = (Inl e, a') \<Longrightarrow> a' = a"
  by (auto simp: WayAllocate_def Let_def split: option.splits if_splits)

lemma used_ways_update [simp]:
  "used_ways (a\<lparr>allocated := (allocated a)(c \<mapsto> m)\<rparr>) d = (if d = c then way_set m else used_ways a d)"
  by (simp add: used_ways_def)

lemma used_ways_release:
  "used_ways (WayRelease c m a) d = (if d = c then used_ways a c - way_set m else used_ways a d)"
  by (simp add: WayRelease_def used_ways_def del: way_set_simps(3))

lemma way_inv_update [simp]: "way_inv a \<Longrightarrow> way_inv (a\<lparr>allocated := (allocated a)(c \<mapsto> m)\<rparr>)"
  by (auto simp: way_inv_def)

lemma way_inv_release [simp]: "way_inv a \<Longrightarrow> way_inv (WayRelease c m a)"
  by (simp add: WayRelease_def)

lemma way_inv_new: "\<forall>c n. tw c = Some n \<longrightarrow> n \<le> 64 \<Longrightarrow> way_inv (NewWayAllocator tw)"
  by (auto simp: way_inv_def NewWayAllocator_def)

lemma used_ways_new [simp]: "used_ways (NewWayAllocator tw) c = {}"
  by (cases "tw c") (simp_all add: NewWayAllocator_def used_ways_def)

subsection \<open>The interface to the driver\<close>

text \<open>A table of holders: every held mask is in use, and the masks held in one domain are disjoint.\<close>

definition holds ::
  "('s \<Rightarrow> int \<Rightarrow> nat set) \<Rightarrow> ('k \<rightharpoonup> int \<times> 64 word) \<Rightarrow> 's \<Rightarrow> bool" where
  "holds used h s \<longleftrightarrow>
     (\<forall>k c m. h k = Some (c, m) \<longrightarrow> way_set m \<subseteq> used s c) \<and>
     (\<forall>k k' c m m'. k \<noteq> k' \<longrightarrow> h k = Some (c, m) \<longrightarrow> h k' = Some (c, m') \<longrightarrow>
        way_set m \<inter> way_set m' = {})"

text \<open>No way is lost: what is in use beyond the set \<open>base\<close> is held by somebody.\<close>

definition no_leak ::
  "('s \<Rightarrow> int \<Rightarrow> nat set) \<Rightarrow> ('k \<rightharpoonup> int \<times> 64 word) \<Rightarrow> 's \<Rightarrow> bool" where
  "no_leak used h s \<longleftrightarrow> (\<forall>c i. i \<in> used s c \<longrightarrow> (\<exists>k m. h k = Some (c, m) \<and> i \<in> way_set m))"

locale way_pool =
  fixes inv :: "'s \<Rightarrow> bool" and used :: "'s \<Rightarrow> int \<Rightarrow> nat set"
    and alloc :: "int \<Rightarrow> int \<Rightarrow> 's \<Rightarrow> (go_error + 64 word) \<times> 's"
    and release :: "int \<Rightarrow> 64 word \<Rightarrow> 's \<Rightarrow> 's"
  assumes alloc_inv: "inv s \<Longrightarrow> inv (snd (alloc c n s))"
    and alloc_free: "inv s \<Longrightarrow> alloc c n s = (Inr m, s') \<Longrightarrow> used s c \<inter> way_set m = {}"
    and alloc_used: "inv s \<Longrightarrow> alloc c n s = (Inr m, s') \<Longrightarrow>
      used s' d = (if d = c then used s c \<union> way_set m else used s d)"
    and alloc_error: "alloc c n s = (Inl e, s') \<Longrightarrow> s' = s"
    and release_inv: "inv s \<Longrightarrow> inv (release c m s)"
    and release_used: "used (release c m s) d = (if d = c then used s c - way_set m else used s d)"
begin

lemma alloc_release:
  assumes "inv s" "alloc c n s = (Inr m, s')"
  shows "used (release c m s') d = used s d"
  using alloc_free [OF assms] alloc_used [OF assms, of d] alloc_used [OF assms, of c]
  by (auto simp: release_used)

lemma holds_empty: "holds used Map.empty s"
  by (simp add: holds_def)

text \<open>An allocation may be recorded under any key, also one that was in use.\<close>

lemma holds_alloc:
  assumes "inv s" "holds used h s" "alloc c n s = (Inr m, s')"
  shows "holds used (h(k \<mapsto> (c, m))) s'"
  using assms(2) alloc_free [OF assms(1,3)] alloc_used [OF assms(1,3)]
  unfolding holds_def by (auto split: if_splits) blast+

text \<open>A holder may lose its mask, or hand it to another holder, without touching the allocator.\<close>

lemma holds_forget: "holds used h s \<Longrightarrow> holds used (h(k := None)) s"
  unfolding holds_def by (auto split: if_splits)

lemma holds_move:
  assumes "holds used h s" "h k = Some v"
  shows "holds used (h(k := None, k' := Some v)) s"
  using assms unfolding holds_def by (auto split: if_splits) blast+

lemma holds_mono_alloc:
  assumes "inv s" "holds used h s" "alloc c n s = (Inr m, s')"
  shows "holds used h s'"
  using assms(2) alloc_used [OF assms(1,3)] unfolding holds_def by auto blast+

lemma holds_release:
  assumes "holds used h s" "h k = Some (c, m)"
  shows "holds used (h(k := None)) (release c m s)"
  using assms unfolding holds_def release_used by (auto split: if_splits) blast+

text \<open>Releasing an unrecorded allocation, as the error paths of the driver do.\<close>

lemma holds_rollback:
  assumes "inv s" "holds used h s" "alloc c n s = (Inr m, s')"
  shows "holds used h (release c m s')"
  using assms(2) alloc_release [OF assms(1,3)] unfolding holds_def by simp

lemma no_leak_alloc:
  assumes "inv s" "no_leak used h s" "alloc c n s = (Inr m, s')" "h k = None"
  shows "no_leak used (h(k \<mapsto> (c, m))) s'"
  unfolding no_leak_def
proof (intro allI impI)
  fix d i
  assume i: "i \<in> used s' d"
  show "\<exists>k' m'. (h(k \<mapsto> (c, m))) k' = Some (d, m') \<and> i \<in> way_set m'"
  proof (cases "d = c \<and> i \<in> way_set m")
    case True
    then show ?thesis by (intro exI [of _ k] exI [of _ m]) simp
  next
    case False
    with i have "i \<in> used s d" using alloc_used [OF assms(1,3), of d] by (auto split: if_splits)
    then obtain k' m' where k': "h k' = Some (d, m')" "i \<in> way_set m'"
      using assms(2) unfolding no_leak_def by blast
    then have "k' \<noteq> k" using assms(4) by auto
    with k' show ?thesis by (intro exI [of _ k'] exI [of _ m']) simp
  qed
qed

lemma no_leak_release:
  assumes "no_leak used h s" "h k = Some (c, m)"
  shows "no_leak used (h(k := None)) (release c m s)"
  unfolding no_leak_def
proof (intro allI impI)
  fix d i
  assume "i \<in> used (release c m s) d"
  then have i: "i \<in> used s d" "\<not> (d = c \<and> i \<in> way_set m)"
    by (auto simp: release_used split: if_splits)
  then obtain k' m' where k': "h k' = Some (d, m')" "i \<in> way_set m'"
    using assms(1) unfolding no_leak_def by blast
  with i(2) assms(2) have "k' \<noteq> k" by auto
  with k' show "\<exists>k' m'. (h(k := None)) k' = Some (d, m') \<and> i \<in> way_set m'"
    by (intro exI [of _ k'] exI [of _ m']) simp
qed

end

interpretation ways: way_pool way_inv used_ways WayAllocate WayRelease
proof unfold_locales
  fix s c n
  assume "way_inv s"
  then show "way_inv (snd (WayAllocate c n s))"
    by (auto simp: WayAllocate_def Let_def split: option.splits)
next
  fix s c n m s'
  assume "way_inv s" "WayAllocate c n s = (Inr m, s')"
  then show "used_ways s c \<inter> way_set m = {}" by (rule WayAllocate_Inr)
next
  fix s c n m s' d
  assume "way_inv s" "WayAllocate c n s = (Inr m, s')"
  then show "used_ways s' d = (if d = c then used_ways s c \<union> way_set m else used_ways s d)"
    by (rule WayAllocate_Inr) (simp add: used_ways_def)
next
  fix c n s e s'
  assume "WayAllocate c n s = (Inl e, s')"
  then show "s' = s" by (rule WayAllocate_Inl)
next
  fix s c m d
  show "used_ways (WayRelease c m s) d = (if d = c then used_ways s c - way_set m else used_ways s d)"
    by (rule used_ways_release)
qed simp

end
