(* ===== verification/GoJson.thy ===== *)
theory GoJson
  imports GoStrconv
begin

text \<open>
  \<open>encoding/json\<close>, as far as the driver uses it to write CDI specs and the health report: \<open>MarshalIndent\<close> with
  two spaces of indentation and \<open>Marshal\<close>, over a type of JSON values. String literals are escaped byte by byte as
  the package does: control characters, quotes and backslashes, the HTML characters, the line
  separators \<open>U+2028\<close> and \<open>U+2029\<close>, and a replacement for every byte that is not valid UTF-8.
\<close>

datatype json = JNull | JString string | JArray "json list" | JObject "(string \<times> json) list"

abbreviation backslash :: char where "backslash \<equiv> CHR 0x5C"
abbreviation dquote :: char where "dquote \<equiv> CHR 0x22"

definition byte_in :: "nat \<Rightarrow> nat \<Rightarrow> char \<Rightarrow> bool" where
  "byte_in lo hi c \<longleftrightarrow> lo \<le> of_char c \<and> of_char c \<le> hi"

text \<open>Length of the UTF-8 encoding of more than one byte at the head of a string; \<open>0\<close> if there is none.\<close>

definition utf8_length :: "string \<Rightarrow> nat" where
  "utf8_length s =
     (case s of
        c0 # c1 # r \<Rightarrow>
          if byte_in 0xC2 0xDF c0 \<and> byte_in 0x80 0xBF c1 then 2
          else (case r of
            c2 # r' \<Rightarrow>
              if byte_in 0xE0 0xEF c0 \<and> byte_in 0x80 0xBF c2 \<and>
                 byte_in (if of_char c0 = (0xE0 :: nat) then 0xA0 else 0x80)
                         (if of_char c0 = (0xED :: nat) then 0x9F else 0xBF) c1 then 3
              else (case r' of
                c3 # _ \<Rightarrow>
                  if byte_in 0xF0 0xF4 c0 \<and> byte_in 0x80 0xBF c2 \<and> byte_in 0x80 0xBF c3 \<and>
                     byte_in (if of_char c0 = (0xF0 :: nat) then 0x90 else 0x80)
                             (if of_char c0 = (0xF4 :: nat) then 0x8F else 0xBF) c1 then 4
                  else 0
              | [] \<Rightarrow> 0)
          | [] \<Rightarrow> 0)
      | _ \<Rightarrow> 0)"

definition escape_ascii :: "char \<Rightarrow> string" where
  "escape_ascii c =
     (if c = backslash \<or> c = dquote then [backslash, c]
      else if c = CHR 0x08 then [backslash, CHR ''b'']
      else if c = CHR 0x0C then [backslash, CHR ''f'']
      else if c = CHR 0x0A then [backslash, CHR ''n'']
      else if c = CHR 0x0D then [backslash, CHR ''r'']
      else if c = CHR 0x09 then [backslash, CHR ''t'']
      else if (of_char c :: nat) < 0x20 \<or> c \<in> {CHR ''<'', CHR ''>'', CHR ''&''}
      then [backslash] @ ''u00'' @ [digit_char (of_char c div 16), digit_char (of_char c mod 16)]
      else [c])"

function json_escape :: "string \<Rightarrow> string" where
  "json_escape [] = []"
| "json_escape (c # s) =
     (if (of_char c :: nat) < 0x80 then escape_ascii c @ json_escape s
      else (let n = utf8_length (c # s) in
            if n = 0 then [backslash] @ ''ufffd'' @ json_escape s
            else if take 3 (c # s) = [CHR 0xE2, CHR 0x80, CHR 0xA8] then [backslash] @ ''u2028'' @ json_escape (drop 3 (c # s))
            else if take 3 (c # s) = [CHR 0xE2, CHR 0x80, CHR 0xA9] then [backslash] @ ''u2029'' @ json_escape (drop 3 (c # s))
            else take n (c # s) @ json_escape (drop n (c # s))))"
  by pat_completeness auto
termination by (relation "measure length") auto

definition json_quote :: "string \<Rightarrow> string" where
  "json_quote s = dquote # json_escape s @ [dquote]"

definition json_indent :: "nat \<Rightarrow> string" where
  "json_indent depth = newline # concat (replicate depth ''  '')"

fun json_render :: "nat \<Rightarrow> json \<Rightarrow> string" where
  "json_render d JNull = ''null''"
| "json_render d (JString s) = json_quote s"
| "json_render d (JArray xs) =
     (if xs = [] then ''[]''
      else ''['' @ str_join '','' (map (\<lambda>x. json_indent (Suc d) @ json_render (Suc d) x) xs)
             @ json_indent d @ '']'')"
| "json_render d (JObject fs) =
     (if fs = [] then ''{}''
      else ''{'' @ str_join '',''
                    (map (\<lambda>(k, x). json_indent (Suc d) @ json_quote k @ '': '' @ json_render (Suc d) x) fs)
             @ json_indent d @ ''}'')"

text \<open>The output of \<open>Marshal\<close>, without white space.\<close>

fun json_compact :: "json \<Rightarrow> string" where
  "json_compact JNull = ''null''"
| "json_compact (JString s) = json_quote s"
| "json_compact (JArray xs) = ''['' @ str_join '','' (map json_compact xs) @ '']''"
| "json_compact (JObject fs) = ''{'' @ str_join '','' (map (\<lambda>(k, x). json_quote k @ '':'' @ json_compact x) fs) @ ''}''"

text \<open>A literal without quotes, backslashes, HTML characters and non-ASCII bytes stays as it is.\<close>

definition json_plain :: "char \<Rightarrow> bool" where
  "json_plain c \<longleftrightarrow> (of_char c :: nat) < 0x80 \<and> escape_ascii c = [c]"

lemma escape_plain: "json_plain c \<Longrightarrow> escape_ascii c = [c]"
  by (simp add: json_plain_def)

lemma json_plain_ascii: "json_plain c \<Longrightarrow> (of_char c :: nat) < 0x80"
  by (simp add: json_plain_def)

lemma json_escape_ascii: "(of_char c :: nat) < 0x80 \<Longrightarrow> json_escape (c # s) = escape_ascii c @ json_escape s"
  by simp

lemma json_escape_plain: "\<forall>c \<in> set s. json_plain c \<Longrightarrow> json_escape s = s"
  by (induction s) (simp_all add: escape_plain json_plain_ascii json_escape_ascii del: json_escape.simps(2))

end
