(* ===== verification/Cdi.thy ===== *)
theory Cdi
  imports Partition GoJson
begin

text \<open>
  \<open>pkg/driver/cdi.go\<close>: the Container Device Interface specs. Basic mode writes one file with
  all partitions of the node, structured mode one file per claim. The hook binary is installed by
  copying the running executable, which is file copying and not modelled.
\<close>

definition cdiVendor :: string where "cdiVendor = ''resctrl.fabiendupont.io''"
definition cdiClass :: string where "cdiClass = ''partition''"
definition cdiVersion :: string where "cdiVersion = ''0.6.0''"

record CDIHook =
  HookName :: string
  HookPath :: string
  HookArgs :: "string list"

record CDIContainerEdit =
  EditEnv :: "string list"
  EditHooks :: "CDIHook list"

record CDIDevice =
  CdiName :: string
  ContainerEdits :: CDIContainerEdit

record CDISpec =
  CDIVersion :: string
  CdiKind :: string
  CdiDevices :: "CDIDevice list"

definition CDIDeviceID :: "string \<Rightarrow> string" where
  "CDIDeviceID partitionID = cdiVendor @ ''/'' @ cdiClass @ ''='' @ partitionID"

subsection \<open>The JSON text\<close>

text \<open>Fields tagged \<open>omitempty\<close> are left out when empty; a nil slice without the tag is \<open>null\<close>.\<close>

definition omitempty :: "string \<Rightarrow> json list \<Rightarrow> (string \<times> json) list" where
  "omitempty name xs = (if xs = [] then [] else [(name, JArray xs)])"

definition hook_json :: "CDIHook \<Rightarrow> json" where
  "hook_json h =
     JObject ([(''hookName'', JString (HookName h)), (''path'', JString (HookPath h))]
              @ omitempty ''args'' (map JString (HookArgs h)))"

definition edit_json :: "CDIContainerEdit \<Rightarrow> json" where
  "edit_json e =
     JObject (omitempty ''env'' (map JString (EditEnv e)) @ omitempty ''hooks'' (map hook_json (EditHooks e)))"

definition device_json :: "CDIDevice \<Rightarrow> json" where
  "device_json d =
     JObject [(''name'', JString (CdiName d)), (''containerEdits'', edit_json (ContainerEdits d))]"

definition spec_json :: "CDISpec \<Rightarrow> json" where
  "spec_json s =
     JObject [(''cdiVersion'', JString (CDIVersion s)), (''kind'', JString (CdiKind s)),
              (''devices'', if CdiDevices s = [] then JNull else JArray (map device_json (CdiDevices s)))]"

text \<open>\<open>MarshalIndent\<close> has no error for values of these types.\<close>

definition MarshalSpec :: "CDISpec \<Rightarrow> string" where
  "MarshalSpec s = json_render 0 (spec_json s)"

subsection \<open>Specs of all partitions\<close>

definition resctrlHook :: "string \<Rightarrow> string \<Rightarrow> CDIHook" where
  "resctrlHook hookBinaryPath grp =
     \<lparr>HookName = ''createRuntime'', HookPath = hookBinaryPath,
      HookArgs = [hookBinaryPath, ''--cdi-hook'', ''--group='' @ grp]\<rparr>"

definition partition_devices :: "string \<Rightarrow> CachePartition \<Rightarrow> CDIDevice list" where
  "partition_devices hookBinaryPath p =
     [\<lparr>CdiName = ID p,
       ContainerEdits = \<lparr>EditEnv =
          [''DRA_CACHE_PARTITION='' @ ID p,
           ''DRA_CACHE_WAYS='' @ show_int (Ways p),
           ''DRA_CACHE_LEVEL='' @ Level p,
           ''DRA_CACHE_NUMA_NODE='' @ show_int (NUMANode p),
           ''DRA_CACHE_CBM='' @ CBM p],
         EditHooks = [resctrlHook hookBinaryPath (ResctrlGroup p)]\<rparr>\<rparr>]
     @ (if 0 < MBAThrottle p then
     [\<lparr>CdiName = MBADeviceID p,
       ContainerEdits = \<lparr>EditEnv =
          [''DRA_MBA_PARTITION='' @ MBADeviceID p,
           ''DRA_MBA_THROTTLE='' @ show_int (MBAThrottle p),
           ''DRA_MBA_MODE='' @ PartMBAMode p,
           ''DRA_MBA_DOMAIN='' @ show_int (CacheID p),
           ''DRA_MBA_NUMA_NODE='' @ show_int (NUMANode p)],
         EditHooks = [resctrlHook hookBinaryPath (ResctrlGroup p)]\<rparr>\<rparr>] else [])
     @ (if 0 < SMBAThrottle p then
     [\<lparr>CdiName = SMBADeviceID p,
       ContainerEdits = \<lparr>EditEnv =
          [''DRA_SMBA_PARTITION='' @ SMBADeviceID p,
           ''DRA_SMBA_THROTTLE='' @ show_int (SMBAThrottle p),
           ''DRA_SMBA_MODE='' @ PartSMBAMode p,
           ''DRA_SMBA_DOMAIN='' @ show_int (CacheID p),
           ''DRA_SMBA_NUMA_NODE='' @ show_int (NUMANode p)],
         EditHooks = [resctrlHook hookBinaryPath (ResctrlGroup p)]\<rparr>\<rparr>] else [])"

definition node_spec :: "string \<Rightarrow> CachePartition list list \<Rightarrow> CDISpec" where
  "node_spec hookBinaryPath perCache =
     \<lparr>CDIVersion = cdiVersion, CdiKind = cdiVendor @ ''/'' @ cdiClass,
      CdiDevices = concat (map (\<lambda>parts. concat (map (partition_devices hookBinaryPath) parts)) perCache)\<rparr>"

definition node_spec_path :: "string \<Rightarrow> string" where
  "node_spec_path cdiDir = path_join [cdiDir, cdiVendor @ ''-'' @ cdiClass @ ''.json'']"

definition WriteCDISpecs ::
  "'w os \<Rightarrow> string \<Rightarrow> string \<Rightarrow> CachePartition list list \<Rightarrow> 'w \<Rightarrow> go_error option \<times> 'w" where
  "WriteCDISpecs os cdiDir hookBinaryPath perCache w =
     (case os_mkdir_all os w cdiDir of
        (Some e, w1) \<Rightarrow> (Some (Wrapf ''creating CDI directory: %w'' [] (OsError e)), w1)
      | (None, w1) \<Rightarrow>
          (case os_write_file os w1 (node_spec_path cdiDir) (MarshalSpec (node_spec hookBinaryPath perCache)) of
             (Some e, w2) \<Rightarrow>
               (Some (Wrapf ''writing CDI spec %s: %w'' [ArgStr (node_spec_path cdiDir)] (OsError e)), w2)
           | (None, w2) \<Rightarrow> (None, w2)))"

text \<open>Errors of the removal are only logged.\<close>

definition CleanupCDISpecs :: "'w os \<Rightarrow> string \<Rightarrow> 'w \<Rightarrow> 'w" where
  "CleanupCDISpecs os cdiDir w = snd (os_remove os w (node_spec_path cdiDir))"

subsection \<open>The hook binary\<close>

text \<open>
  The calls on open files, as a record over the worlds: the path of the running executable, opening
  a file for reading, creating or truncating one for writing, copying into it from an open file, and
  closing it. An error of closing the source is dropped.
\<close>

record 'w fileio =
  io_executable :: "'w \<Rightarrow> string + string"
  io_open :: "'w \<Rightarrow> string \<Rightarrow> string option"
  io_create :: "'w \<Rightarrow> string \<Rightarrow> string option \<times> 'w"
  io_copy :: "'w \<Rightarrow> string \<Rightarrow> string \<Rightarrow> string option \<times> 'w"
  io_close :: "'w \<Rightarrow> string \<Rightarrow> string option \<times> 'w"

definition hook_path :: "string \<Rightarrow> string" where
  "hook_path hostPluginDir = path_join [hostPluginDir, ''dra-cache-partition-hook'']"

definition InstallHookBinary :: "'w fileio \<Rightarrow> string \<Rightarrow> 'w \<Rightarrow> (go_error + string) \<times> 'w" where
  "InstallHookBinary io hostPluginDir w =
     (case io_executable io w of
        Inl e \<Rightarrow> (Inl (Wrapf ''resolving self: %w'' [] (OsError e)), w)
      | Inr self \<Rightarrow>
          (let hookPath = hook_path hostPluginDir in
           case io_open io w self of
             Some e \<Rightarrow> (Inl (Wrapf ''opening self binary: %w'' [] (OsError e)), w)
           | None \<Rightarrow>
               (case io_create io w hookPath of
                  (Some e, w1) \<Rightarrow> (Inl (Wrapf ''creating hook binary: %w'' [] (OsError e)), w1)
                | (None, w1) \<Rightarrow>
                    (case io_copy io w1 hookPath self of
                       (Some e, w2) \<Rightarrow>
                         (Inl (Wrapf ''writing hook binary: %w'' [] (OsError e)), snd (io_close io w2 hookPath))
                     | (None, w2) \<Rightarrow>
                         (case io_close io w2 hookPath of
                            (Some e, w3) \<Rightarrow> (Inl (Wrapf ''finalizing hook binary: %w'' [] (OsError e)), w3)
                          | (None, w3) \<Rightarrow> (Inr hookPath, w3))))))"

definition CachePartitionSizeBytes :: "int \<Rightarrow> int \<Rightarrow> int \<Rightarrow> int" where
  "CachePartitionSizeBytes ways totalWays totalSizeBytes =
     (if totalWays = 0 then 0 else wrap64 (wrap64 (totalSizeBytes * ways) sdiv totalWays))"

subsection \<open>Specs of one claim\<close>

text \<open>
  \<open>claimUID[:8]\<close> panics when the UID has fewer than eight bytes. The result is \<open>None\<close> for the
  panic; the file system is returned in every case, since the directory is made before.
\<close>

definition uid8 :: "string \<Rightarrow> string option" where
  "uid8 claimUID = (if length claimUID < 8 then None else Some (take 8 claimUID))"

definition claim_spec ::
  "string \<Rightarrow> string \<Rightarrow> string \<Rightarrow> int \<Rightarrow> int \<Rightarrow> string \<Rightarrow> CDISpec" where
  "claim_spec hookBinaryPath deviceName resctrlGroup cacheID ways cbmHex =
     \<lparr>CDIVersion = cdiVersion, CdiKind = cdiVendor @ ''/'' @ cdiClass,
      CdiDevices = [\<lparr>CdiName = deviceName,
        ContainerEdits = \<lparr>EditEnv =
           [''DRA_CACHE_PARTITION='' @ deviceName,
            ''DRA_CACHE_WAYS='' @ show_int ways,
            ''DRA_CACHE_CBM='' @ cbmHex,
            ''DRA_CACHE_LEVEL=L3'',
            ''DRA_CACHE_DOMAIN='' @ show_int cacheID],
          EditHooks = [\<lparr>HookName = ''createRuntime'', HookPath = hookBinaryPath,
            HookArgs = [hookBinaryPath, ''--cdi-hook'', ''--group='' @ resctrlGroup]\<rparr>]\<rparr>\<rparr>]\<rparr>"

definition writeClaimCDISpec ::
  "'w os \<Rightarrow> string \<Rightarrow> string \<Rightarrow> string \<Rightarrow> string \<Rightarrow> int \<Rightarrow> int \<Rightarrow> string \<Rightarrow> 'w
     \<Rightarrow> (go_error + string \<times> string) option \<times> 'w" where
  "writeClaimCDISpec os cdiDir hookBinaryPath claimUID resctrlGroup cacheID ways cbmHex w =
     (case os_mkdir_all os w cdiDir of
        (Some e, w1) \<Rightarrow> (Some (Inl (Wrapf ''creating CDI directory: %w'' [] (OsError e))), w1)
      | (None, w1) \<Rightarrow>
          (case uid8 claimUID of
             None \<Rightarrow> (None, w1)
           | Some short \<Rightarrow>
               (let deviceName = ''cache'' @ show_int cacheID @ ''-'' @ show_int ways @ ''way-'' @ short;
                    cdiDeviceID = cdiVendor @ ''/'' @ cdiClass @ ''='' @ deviceName;
                    specPath = path_join [cdiDir, cdiVendor @ ''-claim-'' @ short @ ''.json'']
                in case os_write_file os w1 specPath
                          (MarshalSpec (claim_spec hookBinaryPath deviceName resctrlGroup cacheID ways cbmHex)) of
                     (Some e, w2) \<Rightarrow>
                       (Some (Inl (Wrapf ''writing CDI spec %s: %w'' [ArgStr specPath] (OsError e))), w2)
                   | (None, w2) \<Rightarrow> (Some (Inr (cdiDeviceID, specPath)), w2))))"

definition removeClaimCDISpec :: "'w os \<Rightarrow> string \<Rightarrow> 'w \<Rightarrow> 'w" where
  "removeClaimCDISpec os specPath w =
     (if specPath = [] then w else snd (os_remove os w specPath))"

end
