(* ===== verification/FeatureGates.thy ===== *)
theory FeatureGates
  imports KubeModel
begin

text \<open>
  \<open>pkg/driver/featuregates.go\<close>: the two dry-run creations that find out which optional DRA
  features the API server keeps. A quantity is its integer value.
\<close>

record DRACapabilities =
  PartitionableDevices :: bool
  ConsumableCapacity :: bool

definition probe_slice :: "string \<Rightarrow> string \<Rightarrow> string \<Rightarrow> ResourceSlice" where
  "probe_slice name driverName nodeName =
     \<lparr>sl_name = name, sl_version = [], sl_owners = [], sl_driver = driverName, sl_node = nodeName,
      sl_counters = [], sl_pool = ''probe'', sl_pool_count = 1, sl_devices = []\<rparr>"

definition probePartitionableDevices :: "'w kube \<Rightarrow> string \<Rightarrow> string \<Rightarrow> 'w \<Rightarrow> bool \<times> 'w" where
  "probePartitionableDevices kube driverName nodeName w =
     (case kube_create_slice kube w True
             (probe_slice (''dra-probe-partitionable-'' @ nodeName) driverName nodeName
                \<lparr>sl_counters := [(''probe'', [''ways'' \<mapsto> 1])]\<rparr>) of
        (Inl _, w1) \<Rightarrow> (False, w1)
      | (Inr result, w1) \<Rightarrow> (0 < length (sl_counters result), w1))"

definition probeConsumableCapacity :: "'w kube \<Rightarrow> string \<Rightarrow> string \<Rightarrow> 'w \<Rightarrow> bool \<times> 'w" where
  "probeConsumableCapacity kube driverName nodeName w =
     (case kube_create_slice kube w True
             (probe_slice (''dra-probe-consumable-'' @ nodeName) driverName nodeName
                \<lparr>sl_devices := [\<lparr>dev_name = ''probe'', dev_attrs = Map.empty, dev_consumes = [],
                                 dev_multi = None,
                                 dev_capacity = [''ways'' \<mapsto> \<lparr>cap_value = 20, cap_policy = Some 1\<rparr>]\<rparr>]\<rparr>) of
        (Inl _, w1) \<Rightarrow> (False, w1)
      | (Inr result, w1) \<Rightarrow>
          (case sl_devices result of
             [] \<Rightarrow> (False, w1)
           | dev # _ \<Rightarrow>
               (case dev_capacity dev ''ways'' of
                  None \<Rightarrow> (False, w1)
                | Some c \<Rightarrow> (cap_policy c \<noteq> None, w1))))"

definition ProbeFeatureGates :: "'w kube \<Rightarrow> string \<Rightarrow> string \<Rightarrow> 'w \<Rightarrow> DRACapabilities \<times> 'w" where
  "ProbeFeatureGates kube driverName nodeName w =
     (let (p, w1) = probePartitionableDevices kube driverName nodeName w;
          (c, w2) = probeConsumableCapacity kube driverName nodeName w1
      in (\<lparr>PartitionableDevices = p, ConsumableCapacity = c\<rparr>, w2))"

end
