(* ===== verification/Metrics.thy ===== *)
theory Metrics
  imports GoStrconv
begin

text \<open>
  \<open>pkg/driver/metrics.go\<close>: what the driver reports to Prometheus, as a log of events. A rate
  is kept as the bytes counted and the nanoseconds between the two readings, before the
  floating-point division.
\<close>

datatype metric_event =
  Inc string "string list"
| GaugeSet string "string list" int
| GaugeRate string "string list" int int
| Observe string int

definition PartitionsTotal :: string where "PartitionsTotal = ''partitions_total''"
definition PartitionsAllocated :: string where "PartitionsAllocated = ''partitions_allocated''"
definition PrepareTotal :: string where "PrepareTotal = ''prepare_total''"
definition UnprepareTotal :: string where "UnprepareTotal = ''unprepare_total''"
definition PrepareDuration :: string where "PrepareDuration = ''prepare_duration_seconds''"
definition UnprepareDuration :: string where "UnprepareDuration = ''unprepare_duration_seconds''"
definition ResctrlGroupCreateTotal :: string where
  "ResctrlGroupCreateTotal = ''resctrl_group_create_total''"
definition ResctrlGroupDeleteTotal :: string where
  "ResctrlGroupDeleteTotal = ''resctrl_group_delete_total''"
definition ResctrlTaskAssignTotal :: string where
  "ResctrlTaskAssignTotal = ''resctrl_task_assign_total''"
definition CacheOccupancyBytes :: string where "CacheOccupancyBytes = ''cache_occupancy_bytes''"
definition MemBandwidthLocalBytesPerSec :: string where
  "MemBandwidthLocalBytesPerSec = ''memory_bandwidth_local_bytes_per_second''"
definition MemBandwidthTotalBytesPerSec :: string where
  "MemBandwidthTotalBytesPerSec = ''memory_bandwidth_total_bytes_per_second''"

subsection \<open>Registration\<close>

text \<open>
  The kinds of metrics that the driver declares, with the names of their labels. \<open>MustRegister\<close> panics
  when a name is taken, and \<open>WithLabelValues\<close> panics when the number of values differs from the number
  of labels; \<open>event_ok\<close> says that an update does not panic and is one that the kind has.
\<close>

datatype metric_kind = Gauge | Histogram | CounterVec "string list" | GaugeVec "string list"

definition declared_metrics :: "(string \<times> metric_kind) list" where
  "declared_metrics =
     [(PartitionsTotal, Gauge), (PartitionsAllocated, Gauge),
      (PrepareTotal, CounterVec [''result'']), (UnprepareTotal, CounterVec [''result'']),
      (PrepareDuration, Histogram), (UnprepareDuration, Histogram),
      (ResctrlGroupCreateTotal, CounterVec [''result'']), (ResctrlGroupDeleteTotal, CounterVec [''result'']),
      (ResctrlTaskAssignTotal, CounterVec [''result'']),
      (CacheOccupancyBytes, GaugeVec [''partition'', ''cache_group_id'']),
      (MemBandwidthLocalBytesPerSec, GaugeVec [''partition'', ''cache_group_id'']),
      (MemBandwidthTotalBytesPerSec, GaugeVec [''partition'', ''cache_group_id''])]"

type_synonym registry = "string \<rightharpoonup> metric_kind"

fun must_register :: "(string \<times> metric_kind) list \<Rightarrow> registry \<Rightarrow> registry option" where
  "must_register [] reg = Some reg"
| "must_register ((name, kind) # ms) reg =
     (if reg name \<noteq> None then None else must_register ms (reg(name \<mapsto> kind)))"

definition RegisterMetrics :: "registry \<Rightarrow> registry option" where
  "RegisterMetrics reg = must_register declared_metrics reg"

fun event_ok :: "registry \<Rightarrow> metric_event \<Rightarrow> bool" where
  "event_ok reg (Inc name values) =
     (case reg name of Some (CounterVec labels) \<Rightarrow> length values = length labels | _ \<Rightarrow> False)"
| "event_ok reg (GaugeSet name values v) =
     (case reg name of Some (GaugeVec labels) \<Rightarrow> length values = length labels | Some Gauge \<Rightarrow> values = [] | _ \<Rightarrow> False)"
| "event_ok reg (GaugeRate name values b t) =
     (case reg name of Some (GaugeVec labels) \<Rightarrow> length values = length labels \<and> 0 \<le> b \<and> 0 < t | _ \<Rightarrow> False)"
| "event_ok reg (Observe name t) = (reg name = Some Histogram)"

end
