(* ===== verification/Monitor.thy ===== *)
theory Monitor
  imports Resctrl Metrics
begin

text \<open>
  \<open>pkg/driver/monitor.go\<close>: one scrape of the monitoring counters. \<open>now\<close> is the clock reading
  of the scrape in nanoseconds. The loop of \<open>Run\<close> is a list of ticks, as many as there are before the
  context is cancelled, each with its clock reading, the world and the targets at that time.
\<close>

record MonitorTarget =
  PartitionName :: string
  TargetGroup :: string
  CacheGroupID :: int

record mbmSample =
  mbm_local :: "64 word"
  mbm_total :: "64 word"
  mbm_time :: int

type_synonym prev_mbm = "string \<rightharpoonup> mbmSample"

definition sample_key :: "MonitorTarget \<Rightarrow> string" where
  "sample_key t = TargetGroup t @ ''/'' @ show_int (CacheGroupID t)"

text \<open>The guard against a counter that went backwards: no rate is reported then.\<close>

definition rate_event :: "string \<Rightarrow> string list \<Rightarrow> 64 word \<Rightarrow> 64 word \<Rightarrow> int \<Rightarrow> metric_event list" where
  "rate_event name labels cur prev elapsed =
     (if prev \<le> cur then [GaugeRate name labels (uint (cur - prev)) elapsed] else [])"

definition scrape_target ::
  "'w os \<Rightarrow> string \<Rightarrow> 'w \<Rightarrow> int \<Rightarrow> MonitorTarget \<Rightarrow> prev_mbm \<Rightarrow> metric_event list \<times> prev_mbm" where
  "scrape_target os root w now t prevMBM =
     (case ReadMonData os root w (TargetGroup t) (CacheGroupID t) of
        Inl _ \<Rightarrow> ([], prevMBM)
      | Inr data \<Rightarrow>
          (let labels = [PartitionName t, show_int (CacheGroupID t)];
               occupancy = GaugeSet CacheOccupancyBytes labels (uint (LLCOccupancy data));
               prevMBM' = prevMBM(sample_key t \<mapsto>
                 \<lparr>mbm_local = MBMLocalBytes data, mbm_total = MBMTotalBytes data, mbm_time = now\<rparr>)
           in case prevMBM (sample_key t) of
                None \<Rightarrow> ([occupancy], prevMBM')
              | Some prev \<Rightarrow>
                  (let elapsed = now - mbm_time prev
                   in if elapsed \<le> 0 then ([occupancy], prevMBM')
                      else (occupancy
                            # rate_event MemBandwidthLocalBytesPerSec labels (MBMLocalBytes data) (mbm_local prev) elapsed
                            @ rate_event MemBandwidthTotalBytesPerSec labels (MBMTotalBytes data) (mbm_total prev) elapsed,
                            prevMBM'))))"

fun scrape ::
  "'w os \<Rightarrow> string \<Rightarrow> 'w \<Rightarrow> int \<Rightarrow> MonitorTarget list \<Rightarrow> prev_mbm \<Rightarrow> metric_event list \<times> prev_mbm" where
  "scrape os root w now [] prevMBM = ([], prevMBM)"
| "scrape os root w now (t # ts) prevMBM =
     (let (es, prevMBM') = scrape_target os root w now t prevMBM;
          (es', prevMBM'') = scrape os root w now ts prevMBM'
      in (es @ es', prevMBM''))"

record Monitor =
  monRoot :: string
  monInterval :: int
  prevMBM :: prev_mbm

definition NewMonitor :: "string \<Rightarrow> int \<Rightarrow> Monitor" where
  "NewMonitor root interval = \<lparr>monRoot = root, monInterval = interval, prevMBM = Map.empty\<rparr>"

text \<open>\<open>root\<close> is the root of the package \<open>resctrl\<close>, which the counters are read from.\<close>

fun monitor_run ::
  "'w os \<Rightarrow> string \<Rightarrow> (int \<times> 'w \<times> MonitorTarget list) list \<Rightarrow> Monitor \<Rightarrow> metric_event list \<times> Monitor" where
  "monitor_run os root [] m = ([], m)"
| "monitor_run os root ((now, w, ts) # ticks) m =
     (let (es, prev) = scrape os root w now ts (prevMBM m);
          (es', m') = monitor_run os root ticks (m\<lparr>prevMBM := prev\<rparr>)
      in (es @ es', m'))"

end
