(* ===== verification/Driver.thy ===== *)
theory Driver
  imports Recovery WayAlloc Cdi FeatureGates Monitor
begin

text \<open>
  \<open>pkg/driver/driver.go\<close>: the kubelet plugin. Basic mode hands out the partitions of the
  inventory, structured mode allocates ways and creates a resctrl group for each claim. The
  handlers take the operating system, the API client and the resctrl root as arguments and
  return the world and the driver after the call. A handler that panics returns \<open>None\<close> as its
  response. The response error is the error value that the source formats into a string.
\<close>

record structuredAlloc =
  saCacheID :: int
  saWays :: int
  saCbm :: "64 word"
  saGroup :: string
  saSpecPath :: string

record Driver =
  driverName :: string
  nodeName :: string
  drvState :: AllocationState
  drvCaps :: DRACapabilities
  wayAlloc :: WayAllocator
  catInfo :: "CATInfo option"
  hookBinPath :: string
  cdiDir :: string
  structuredAllocs :: "string \<rightharpoonup> structuredAlloc"
  metrics :: "metric_event list"

definition NewDriver ::
  "string \<Rightarrow> string \<Rightarrow> AllocationState \<Rightarrow> DRACapabilities \<Rightarrow> WayAllocator \<Rightarrow> CATInfo option
     \<Rightarrow> string \<Rightarrow> string \<Rightarrow> Driver" where
  "NewDriver name node state caps wa info hookBin cdi =
     \<lparr>driverName = name, nodeName = node, drvState = state, drvCaps = caps, wayAlloc = wa,
      catInfo = info, hookBinPath = hookBin, cdiDir = cdi, structuredAllocs = Map.empty,
      metrics = []\<rparr>"

definition report :: "metric_event \<Rightarrow> Driver \<Rightarrow> Driver" where
  "report e d = d\<lparr>metrics := metrics d @ [e]\<rparr>"

lemma fold_report [simp]:
  "fold report es d = d\<lparr>metrics := metrics d @ es\<rparr>"
  by (induction es arbitrary: d) (simp_all add: report_def)

subsection \<open>Names and schemata\<close>

text \<open>The device names of structured mode, \<open>cache<C>-<W>way\<close>.\<close>

definition parseCacheWayDeviceName :: "string \<Rightarrow> go_error + int \<times> int" where
  "parseCacheWayDeviceName name =
     (if \<not> has_prefix ''cache'' name \<or> \<not> has_suffix ''way'' name
      then Inl (Errorf ''not a cache-way device name: %q'' [ArgStr name])
      else
        let inner = trim_suffix ''way'' (trim_prefix ''cache'' name)
        in case str_split2 (CHR ''-'') inner of
             [p0, p1] \<Rightarrow>
               (case atoi p0 of
                  None \<Rightarrow> Inl (Wrapf ''bad cacheID in %q: %w'' [ArgStr name] (NumError p0))
                | Some cacheID \<Rightarrow>
                    (case atoi p1 of
                       None \<Rightarrow> Inl (Wrapf ''bad way count in %q: %w'' [ArgStr name] (NumError p1))
                     | Some ways \<Rightarrow> Inr (cacheID, ways)))
           | _ \<Rightarrow> Inl (Errorf ''malformed cache-way device name: %q'' [ArgStr name]))"

definition sanitizeUID :: "string \<Rightarrow> string" where
  "sanitizeUID uid = str_remove (CHR ''-'') uid"

definition buildStructuredSchemata :: "int \<Rightarrow> string \<Rightarrow> int \<Rightarrow> string" where
  "buildStructuredSchemata cacheID cbmHex mbaThrottle =
     str_join [newline]
       ([''L3:'' @ show_int cacheID @ ''='' @ cbmHex]
        @ (if 0 < mbaThrottle then [''MB:'' @ show_int cacheID @ ''='' @ show_int mbaThrottle] else []))"

definition claim_group :: "int \<Rightarrow> string \<Rightarrow> string" where
  "claim_group cacheID uid = ''dra-c'' @ show_int cacheID @ ''-'' @ sanitizeUID uid"

definition error_response :: "go_error \<Rightarrow> prepare_response" where
  "error_response e = \<lparr>pr_devices = [], pr_error = Some e\<rparr>"

subsection \<open>Basic mode\<close>

text \<open>The loop over the allocation results: results of other drivers or nodes are skipped, and so
  is a result whose partition cannot be allocated.\<close>

fun prepare_results ::
  "string \<Rightarrow> string \<Rightarrow> string \<Rightarrow> alloc_result list \<Rightarrow> AllocationState
     \<Rightarrow> prepared_device list \<times> AllocationState" where
  "prepare_results drv node uid [] state = ([], state)"
| "prepare_results drv node uid (result # results) state =
     (if res_driver result \<noteq> drv \<or> res_pool result \<noteq> node
      then prepare_results drv node uid results state
      else (case StAllocate (res_device result) uid state of
              (Some _, state') \<Rightarrow> prepare_results drv node uid results state'
            | (None, state') \<Rightarrow>
                (let (devices, state'') = prepare_results drv node uid results state'
                 in (\<lparr>pd_requests = [res_request result], pd_pool = res_pool result,
                      pd_device = res_device result,
                      pd_cdi_ids = [CDIDeviceID (res_device result)]\<rparr> # devices, state''))))"

definition prepareClaim ::
  "'w kube \<Rightarrow> 'w \<Rightarrow> string list \<Rightarrow> kubelet_claim \<Rightarrow> Driver \<Rightarrow> prepare_response \<times> Driver" where
  "prepareClaim kube w order claim d =
     (case kube_get_claim kube w (kc_namespace claim) (kc_name claim) of
        Inl e \<Rightarrow>
          (error_response (Wrapf ''fetching ResourceClaim %s/%s: %v''
             [ArgStr (kc_namespace claim), ArgStr (kc_name claim)] (OsError e)),
           report (Inc PrepareTotal [''error'']) d)
      | Inr rc \<Rightarrow>
      (case claim_allocation rc of
        None \<Rightarrow>
          (error_response (Errorf ''ResourceClaim %s/%s has no allocation''
             [ArgStr (kc_namespace claim), ArgStr (kc_name claim)]),
           report (Inc PrepareTotal [''error'']) d)
      | Some results \<Rightarrow>
          (let (devices, state') =
                 prepare_results (driverName d) (nodeName d) (kc_uid claim) results (drvState d);
               d' = d\<lparr>drvState := state'\<rparr>
           in if devices = [] then
                (error_response (Errorf ''no devices for driver %s in claim %s''
                   [ArgStr (driverName d), ArgStr (kc_uid claim)]),
                 report (Inc PrepareTotal [''error'']) d')
              else
                (\<lparr>pr_devices = devices, pr_error = None\<rparr>,
                 report (Inc PrepareTotal [''success''])
                   (report (GaugeSet PartitionsAllocated [] (AllocatedCount order state')) d')))))"

definition unprepareClaim :: "string list \<Rightarrow> kubelet_claim \<Rightarrow> Driver \<Rightarrow> Driver" where
  "unprepareClaim order claim d =
     (let (released, state') = ReleaseByClaimUID order (kc_uid claim) (drvState d)
      in report (Inc UnprepareTotal [''success''])
           (report (GaugeSet PartitionsAllocated [] (AllocatedCount order state'))
              (d\<lparr>drvState := state'\<rparr>)))"

subsection \<open>Structured mode\<close>

datatype step_outcome = Skip | Prepared prepared_device | Fail go_error | Panics

definition structured_step ::
  "'w os \<Rightarrow> string \<Rightarrow> string \<Rightarrow> alloc_result \<Rightarrow> 'w \<Rightarrow> Driver \<Rightarrow> step_outcome \<times> 'w \<times> Driver" where
  "structured_step os root uid result w d =
     (if res_driver result \<noteq> driverName d \<or> res_pool result \<noteq> nodeName d then (Skip, w, d)
      else (case parseCacheWayDeviceName (res_device result) of
        Inl _ \<Rightarrow> (Skip, w, d)
      | Inr (cacheID, ways) \<Rightarrow>
      (case WayAllocate cacheID ways (wayAlloc d) of
        (Inl e, a1) \<Rightarrow>
          (Fail (Wrapf ''allocating ways for %s: %v'' [ArgStr (res_device result)] e), w,
           report (Inc PrepareTotal [''error'']) (d\<lparr>wayAlloc := a1\<rparr>))
      | (Inr cbm, a1) \<Rightarrow>
          (let cbmHex = show_hex cbm;
               groupName = claim_group cacheID uid;
               schemata = buildStructuredSchemata cacheID cbmHex 0
           in case CreateGroup os root groupName schemata w of
                (Some e, w1) \<Rightarrow>
                  (Fail (Wrapf ''creating resctrl group %s: %v'' [ArgStr groupName] e), w1,
                   report (Inc PrepareTotal [''error'']) (d\<lparr>wayAlloc := WayRelease cacheID cbm a1\<rparr>))
              | (None, w1) \<Rightarrow>
                  (let d1 = report (Inc ResctrlGroupCreateTotal [''success'']) (d\<lparr>wayAlloc := a1\<rparr>)
                   in case writeClaimCDISpec os (cdiDir d) (hookBinPath d) uid groupName cacheID ways cbmHex w1 of
                        (None, w2) \<Rightarrow> (Panics, w2, d1)
                      | (Some (Inl e), w2) \<Rightarrow>
                          (Fail (Wrapf ''writing CDI spec for claim %s: %v'' [ArgStr uid] e),
                           snd (DeleteGroup os root groupName w2),
                           report (Inc PrepareTotal [''error'']) (d1\<lparr>wayAlloc := WayRelease cacheID cbm a1\<rparr>))
                      | (Some (Inr (cdiDeviceID, specPath)), w2) \<Rightarrow>
                          (Prepared \<lparr>pd_requests = [res_request result], pd_pool = res_pool result,
                                     pd_device = res_device result, pd_cdi_ids = [cdiDeviceID]\<rparr>,
                           w2,
                           d1\<lparr>structuredAllocs := (structuredAllocs d1)(uid \<mapsto>
                                 \<lparr>saCacheID = cacheID, saWays = ways, saCbm = cbm, saGroup = groupName,
                                  saSpecPath = specPath\<rparr>)\<rparr>))))))"

fun structured_loop ::
  "'w os \<Rightarrow> string \<Rightarrow> string \<Rightarrow> alloc_result list \<Rightarrow> prepared_device list \<Rightarrow> 'w \<Rightarrow> Driver
     \<Rightarrow> (go_error + prepared_device list) option \<times> 'w \<times> Driver" where
  "structured_loop os root uid [] devices w d = (Some (Inr devices), w, d)"
| "structured_loop os root uid (result # results) devices w d =
     (case structured_step os root uid result w d of
        (Skip, w1, d1) \<Rightarrow> structured_loop os root uid results devices w1 d1
      | (Prepared dev, w1, d1) \<Rightarrow> structured_loop os root uid results (devices @ [dev]) w1 d1
      | (Fail e, w1, d1) \<Rightarrow> (Some (Inl e), w1, d1)
      | (Panics, w1, d1) \<Rightarrow> (None, w1, d1))"

definition prepareClaimStructured ::
  "'w os \<Rightarrow> 'w kube \<Rightarrow> string \<Rightarrow> kubelet_claim \<Rightarrow> 'w \<Rightarrow> Driver
     \<Rightarrow> prepare_response option \<times> 'w \<times> Driver" where
  "prepareClaimStructured os kube root claim w d =
     (case kube_get_claim kube w (kc_namespace claim) (kc_name claim) of
        Inl e \<Rightarrow>
          (Some (error_response (Wrapf ''fetching ResourceClaim %s/%s: %v''
             [ArgStr (kc_namespace claim), ArgStr (kc_name claim)] (OsError e))),
           w, report (Inc PrepareTotal [''error'']) d)
      | Inr rc \<Rightarrow>
      (case claim_allocation rc of
        None \<Rightarrow>
          (Some (error_response (Errorf ''ResourceClaim %s/%s has no allocation''
             [ArgStr (kc_namespace claim), ArgStr (kc_name claim)])),
           w, report (Inc PrepareTotal [''error'']) d)
      | Some results \<Rightarrow>
          (case structured_loop os root (kc_uid claim) results [] w d of
             (None, w1, d1) \<Rightarrow> (None, w1, d1)
           | (Some (Inl e), w1, d1) \<Rightarrow> (Some (error_response e), w1, d1)
           | (Some (Inr devices), w1, d1) \<Rightarrow>
               if devices = [] then
                 (Some (error_response (Errorf ''no cache-way devices for driver %s in claim %s''
                    [ArgStr (driverName d), ArgStr (kc_uid claim)])),
                  w1, report (Inc PrepareTotal [''error'']) d1)
               else (Some \<lparr>pr_devices = devices, pr_error = None\<rparr>, w1,
                     report (Inc PrepareTotal [''success'']) d1))))"

definition unprepareClaimStructured ::
  "'w os \<Rightarrow> string \<Rightarrow> kubelet_claim \<Rightarrow> 'w \<Rightarrow> Driver \<Rightarrow> 'w \<times> Driver" where
  "unprepareClaimStructured os root claim w d =
     (case structuredAllocs d (kc_uid claim) of
        None \<Rightarrow> (w, report (Inc UnprepareTotal [''success'']) d)
      | Some alloc \<Rightarrow>
          (let d1 = d\<lparr>structuredAllocs := (structuredAllocs d)(kc_uid claim := None)\<rparr>;
               (err, w1) = DeleteGroup os root (saGroup alloc) w;
               d2 = report (Inc ResctrlGroupDeleteTotal
                              [if err \<noteq> None then ''error'' else ''success'']) d1;
               d3 = d2\<lparr>wayAlloc := WayRelease (saCacheID alloc) (saCbm alloc) (wayAlloc d2)\<rparr>;
               w2 = removeClaimCDISpec os (saSpecPath alloc) w1
           in (w2, report (Inc UnprepareTotal [''success'']) d3)))"

subsection \<open>Requests\<close>

text \<open>
  The claims of a request in order; a later claim with the same UID overwrites the response of an
  earlier one. \<open>t0\<close> and \<open>t1\<close> are the two clock readings: the arguments of the deferred
  \<open>Observe\<close> are evaluated when the defer statement runs, before the first claim.
\<close>

fun prepare_claims ::
  "'w os \<Rightarrow> 'w kube \<Rightarrow> string \<Rightarrow> string list \<Rightarrow> kubelet_claim list \<Rightarrow> (string \<rightharpoonup> prepare_response)
     \<Rightarrow> 'w \<Rightarrow> Driver \<Rightarrow> (string \<rightharpoonup> prepare_response) option \<times> 'w \<times> Driver" where
  "prepare_claims os kube root order [] resp w d = (Some resp, w, d)"
| "prepare_claims os kube root order (claim # claims) resp w d =
     (if PartitionableDevices (drvCaps d) then
        (case prepareClaimStructured os kube root claim w d of
           (None, w1, d1) \<Rightarrow> (None, w1, d1)
         | (Some r, w1, d1) \<Rightarrow>
             prepare_claims os kube root order claims (resp(kc_uid claim \<mapsto> r)) w1 d1)
      else
        (let (r, d1) = prepareClaim kube w order claim d
         in prepare_claims os kube root order claims (resp(kc_uid claim \<mapsto> r)) w d1))"

definition NodePrepareResources ::
  "'w os \<Rightarrow> 'w kube \<Rightarrow> string \<Rightarrow> string list \<Rightarrow> int \<Rightarrow> int \<Rightarrow> kubelet_claim list \<Rightarrow> 'w \<Rightarrow> Driver
     \<Rightarrow> (string \<rightharpoonup> prepare_response) option \<times> 'w \<times> Driver" where
  "NodePrepareResources os kube root order t0 t1 claims w d =
     (case prepare_claims os kube root order claims Map.empty w d of
        (r, w1, d1) \<Rightarrow> (r, w1, report (Observe PrepareDuration (t1 - t0)) d1))"

fun unprepare_claims ::
  "'w os \<Rightarrow> string \<Rightarrow> string list \<Rightarrow> kubelet_claim list \<Rightarrow> 'w \<Rightarrow> Driver \<Rightarrow> 'w \<times> Driver" where
  "unprepare_claims os root order [] w d = (w, d)"
| "unprepare_claims os root order (claim # claims) w d =
     (if PartitionableDevices (drvCaps d) then
        (case unprepareClaimStructured os root claim w d of
           (w1, d1) \<Rightarrow> unprepare_claims os root order claims w1 d1)
      else unprepare_claims os root order claims w (unprepareClaim order claim d))"

text \<open>Every claim of the request gets an empty response.\<close>

definition NodeUnprepareResources ::
  "'w os \<Rightarrow> string \<Rightarrow> string list \<Rightarrow> int \<Rightarrow> int \<Rightarrow> kubelet_claim list \<Rightarrow> 'w \<Rightarrow> Driver
     \<Rightarrow> string set \<times> 'w \<times> Driver" where
  "NodeUnprepareResources os root order t0 t1 claims w d =
     (case unprepare_claims os root order claims w d of
        (w1, d1) \<Rightarrow>
          (kc_uid ` set claims, w1, report (Observe UnprepareDuration (t1 - t0)) d1))"

subsection \<open>Monitoring targets and recovery of structured mode\<close>

text \<open>One target per allocation in the order of the map range; \<open>claimUID[:8]\<close> may panic.\<close>

fun targets_of :: "string list \<Rightarrow> (string \<rightharpoonup> structuredAlloc) \<Rightarrow> MonitorTarget list option" where
  "targets_of [] m = Some []"
| "targets_of (claimUID # uids) m =
     (case m claimUID of
        None \<Rightarrow> targets_of uids m
      | Some alloc \<Rightarrow>
          (case uid8 claimUID of
             None \<Rightarrow> None
           | Some short \<Rightarrow>
               (case targets_of uids m of
                  None \<Rightarrow> None
                | Some ts \<Rightarrow>
                    Some (\<lparr>PartitionName = ''claim-'' @ short, TargetGroup = saGroup alloc,
                           CacheGroupID = saCacheID alloc\<rparr> # ts))))"

definition StructuredTargets :: "string list \<Rightarrow> Driver \<Rightarrow> MonitorTarget list option" where
  "StructuredTargets order d = targets_of order (structuredAllocs d)"

definition RecoverStructuredAllocs :: "'w os \<Rightarrow> string \<Rightarrow> 'w \<Rightarrow> Driver \<Rightarrow> Driver" where
  "RecoverStructuredAllocs os resctrlRoot w d =
     (if \<not> PartitionableDevices (drvCaps d) then d
      else d\<lparr>wayAlloc := snd (RebuildFromResctrl os w resctrlRoot ''dra-c'' (wayAlloc d))\<rparr>)"

end
