(* ===== verification/Concurrent.thy ===== *)
theory Concurrent
  imports Driver
begin

text \<open>
  The handlers of structured mode as gRPC runs them: every request is served by its own thread, and
  threads interleave at the granularity of the locks. One step of a thread is a critical section
  of \<open>driver.go\<close> (\<open>structuredMu\<close> around the table of allocations) or \<open>wayallocator.go\<close> (its own lock
  around the masks), or one call to the operating system or the API server. The position of a thread
  says which part of the handler comes next and carries the values of its local variables.
\<close>

record job =
  job_claim :: kubelet_claim
  job_result :: alloc_result
  job_cache :: int
  job_ways :: int
  job_cbm :: "64 word"
  job_rest :: "alloc_result list"
  job_devices :: "prepared_device list"

datatype pc =
  Idle
| Fetch kubelet_claim
| Loop kubelet_claim "alloc_result list" "prepared_device list"
| MakeGroup job
| MakeSpec job
| RecordAlloc job string string
| UndoGroup job go_error
| UndoWays job go_error
| Take kubelet_claim
| DropGroup structuredAlloc
| FreeTaken structuredAlloc
| DropSpec structuredAlloc
| Crashed

datatype call = PrepareCall kubelet_claim | UnprepareCall kubelet_claim

record thread =
  th_pc :: pc
  th_calls :: "call list"
  th_resp :: "string \<rightharpoonup> prepare_response"

text \<open>A request is a thread at its start; \<open>resp\<close> is the map of the responses so far.\<close>

definition request :: "call list \<Rightarrow> thread" where
  "request calls = \<lparr>th_pc = Idle, th_calls = calls, th_resp = Map.empty\<rparr>"

definition job_group :: "job \<Rightarrow> string" where
  "job_group j = claim_group (job_cache j) (kc_uid (job_claim j))"

definition respond :: "kubelet_claim \<Rightarrow> prepare_response \<Rightarrow> thread \<Rightarrow> thread" where
  "respond claim r th = th\<lparr>th_pc := Idle, th_resp := (th_resp th)(kc_uid claim \<mapsto> r)\<rparr>"

subsection \<open>Prepare, step by step\<close>

text \<open>Fetching the claim: \<open>driver.go\<close> lines 141 to 153.\<close>

definition fetch_step ::
  "'w kube \<Rightarrow> kubelet_claim \<Rightarrow> thread \<Rightarrow> 'w \<Rightarrow> Driver \<Rightarrow> thread \<times> 'w \<times> Driver" where
  "fetch_step kube claim th w d =
     (case kube_get_claim kube w (kc_namespace claim) (kc_name claim) of
        Inl e \<Rightarrow>
          (respond claim (error_response (Wrapf ''fetching ResourceClaim %s/%s: %v''
             [ArgStr (kc_namespace claim), ArgStr (kc_name claim)] (OsError e))) th,
           w, report (Inc PrepareTotal [''error'']) d)
      | Inr rc \<Rightarrow>
          (case claim_allocation rc of
             None \<Rightarrow>
               (respond claim (error_response (Errorf ''ResourceClaim %s/%s has no allocation''
                  [ArgStr (kc_namespace claim), ArgStr (kc_name claim)])) th,
                w, report (Inc PrepareTotal [''error'']) d)
           | Some results \<Rightarrow> (th\<lparr>th_pc := Loop claim results []\<rparr>, w, d)))"

text \<open>The head of the loop up to and including \<open>wayAlloc.Allocate\<close>, and the answer after it.\<close>

definition loop_step ::
  "kubelet_claim \<Rightarrow> alloc_result list \<Rightarrow> prepared_device list \<Rightarrow> thread \<Rightarrow> 'w \<Rightarrow> Driver
     \<Rightarrow> thread \<times> 'w \<times> Driver" where
  "loop_step claim results devices th w d =
     (case results of
        [] \<Rightarrow>
          if devices = [] then
            (respond claim (error_response (Errorf ''no cache-way devices for driver %s in claim %s''
               [ArgStr (driverName d), ArgStr (kc_uid claim)])) th,
             w, report (Inc PrepareTotal [''error'']) d)
          else (respond claim \<lparr>pr_devices = devices, pr_error = None\<rparr> th,
                w, report (Inc PrepareTotal [''success'']) d)
      | result # rest \<Rightarrow>
          if res_driver result \<noteq> driverName d \<or> res_pool result \<noteq> nodeName d
          then (th\<lparr>th_pc := Loop claim rest devices\<rparr>, w, d)
          else (case parseCacheWayDeviceName (res_device result) of
             Inl _ \<Rightarrow> (th\<lparr>th_pc := Loop claim rest devices\<rparr>, w, d)
           | Inr (cacheID, ways) \<Rightarrow>
               (case WayAllocate cacheID ways (wayAlloc d) of
                  (Inl e, a1) \<Rightarrow>
                    (respond claim (error_response
                       (Wrapf ''allocating ways for %s: %v'' [ArgStr (res_device result)] e)) th,
                     w, report (Inc PrepareTotal [''error'']) (d\<lparr>wayAlloc := a1\<rparr>))
                | (Inr cbm, a1) \<Rightarrow>
                    (th\<lparr>th_pc := MakeGroup \<lparr>job_claim = claim, job_result = result,
                        job_cache = cacheID, job_ways = ways, job_cbm = cbm, job_rest = rest,
                        job_devices = devices\<rparr>\<rparr>,
                     w, d\<lparr>wayAlloc := a1\<rparr>))))"

definition group_step ::
  "'w os \<Rightarrow> string \<Rightarrow> job \<Rightarrow> thread \<Rightarrow> 'w \<Rightarrow> Driver \<Rightarrow> thread \<times> 'w \<times> Driver" where
  "group_step os root j th w d =
     (case CreateGroup os root (job_group j)
             (buildStructuredSchemata (job_cache j) (show_hex (job_cbm j)) 0) w of
        (Some e, w1) \<Rightarrow>
          (th\<lparr>th_pc := UndoWays j (Wrapf ''creating resctrl group %s: %v'' [ArgStr (job_group j)] e)\<rparr>, w1, d)
      | (None, w1) \<Rightarrow>
          (th\<lparr>th_pc := MakeSpec j\<rparr>, w1, report (Inc ResctrlGroupCreateTotal [''success'']) d))"

definition spec_step ::
  "'w os \<Rightarrow> job \<Rightarrow> thread \<Rightarrow> 'w \<Rightarrow> Driver \<Rightarrow> thread \<times> 'w \<times> Driver" where
  "spec_step os j th w d =
     (case writeClaimCDISpec os (cdiDir d) (hookBinPath d) (kc_uid (job_claim j)) (job_group j)
             (job_cache j) (job_ways j) (show_hex (job_cbm j)) w of
        (None, w1) \<Rightarrow> (th\<lparr>th_pc := Crashed\<rparr>, w1, d)
      | (Some (Inl e), w1) \<Rightarrow>
          (th\<lparr>th_pc := UndoGroup j (Wrapf ''writing CDI spec for claim %s: %v''
             [ArgStr (kc_uid (job_claim j))] e)\<rparr>, w1, d)
      | (Some (Inr (cdiDeviceID, specPath)), w1) \<Rightarrow>
          (th\<lparr>th_pc := RecordAlloc j cdiDeviceID specPath\<rparr>, w1, d))"

text \<open>The critical section of \<open>structuredMu\<close>, then the next iteration.\<close>

definition job_alloc :: "job \<Rightarrow> string \<Rightarrow> structuredAlloc" where
  "job_alloc j specPath =
     \<lparr>saCacheID = job_cache j, saWays = job_ways j, saCbm = job_cbm j, saGroup = job_group j,
      saSpecPath = specPath\<rparr>"

definition job_device :: "job \<Rightarrow> string \<Rightarrow> prepared_device" where
  "job_device j cdiDeviceID =
     \<lparr>pd_requests = [res_request (job_result j)], pd_pool = res_pool (job_result j),
      pd_device = res_device (job_result j), pd_cdi_ids = [cdiDeviceID]\<rparr>"

definition record_step :: "job \<Rightarrow> string \<Rightarrow> string \<Rightarrow> thread \<Rightarrow> 'w \<Rightarrow> Driver \<Rightarrow> thread \<times> 'w \<times> Driver" where
  "record_step j cdiDeviceID specPath th w d =
     (th\<lparr>th_pc := Loop (job_claim j) (job_rest j) (job_devices j @ [job_device j cdiDeviceID])\<rparr>, w,
      d\<lparr>structuredAllocs := (structuredAllocs d)(kc_uid (job_claim j) \<mapsto> job_alloc j specPath)\<rparr>)"

definition undo_step :: "job \<Rightarrow> go_error \<Rightarrow> thread \<Rightarrow> 'w \<Rightarrow> Driver \<Rightarrow> thread \<times> 'w \<times> Driver" where
  "undo_step j e th w d =
     (respond (job_claim j) (error_response e) th, w,
      report (Inc PrepareTotal [''error''])
        (d\<lparr>wayAlloc := WayRelease (job_cache j) (job_cbm j) (wayAlloc d)\<rparr>))"

subsection \<open>Unprepare, step by step\<close>

definition take_step :: "kubelet_claim \<Rightarrow> thread \<Rightarrow> 'w \<Rightarrow> Driver \<Rightarrow> thread \<times> 'w \<times> Driver" where
  "take_step claim th w d =
     (case structuredAllocs d (kc_uid claim) of
        None \<Rightarrow> (th\<lparr>th_pc := Idle\<rparr>, w, report (Inc UnprepareTotal [''success'']) d)
      | Some alloc \<Rightarrow>
          (th\<lparr>th_pc := DropGroup alloc\<rparr>, w,
           d\<lparr>structuredAllocs := (structuredAllocs d)(kc_uid claim := None)\<rparr>))"

definition drop_step ::
  "'w os \<Rightarrow> string \<Rightarrow> structuredAlloc \<Rightarrow> thread \<Rightarrow> 'w \<Rightarrow> Driver \<Rightarrow> thread \<times> 'w \<times> Driver" where
  "drop_step os root alloc th w d =
     (case DeleteGroup os root (saGroup alloc) w of
        (err, w1) \<Rightarrow>
          (th\<lparr>th_pc := FreeTaken alloc\<rparr>, w1,
           report (Inc ResctrlGroupDeleteTotal [if err \<noteq> None then ''error'' else ''success'']) d))"

subsection \<open>One step of a thread\<close>

text \<open>\<open>None\<close> when the thread has nothing left to do. A panic leaves the thread \<open>Crashed\<close>.\<close>

fun start_call :: "call \<Rightarrow> pc" where
  "start_call (PrepareCall claim) = Fetch claim"
| "start_call (UnprepareCall claim) = Take claim"

definition thread_step ::
  "'w os \<Rightarrow> 'w kube \<Rightarrow> string \<Rightarrow> thread \<Rightarrow> 'w \<Rightarrow> Driver \<Rightarrow> (thread \<times> 'w \<times> Driver) option" where
  "thread_step os kube root th w d =
     (case th_pc th of
        Idle \<Rightarrow>
          (case th_calls th of
             [] \<Rightarrow> None
           | c # cs \<Rightarrow> Some (th\<lparr>th_pc := start_call c, th_calls := cs\<rparr>, w, d))
      | Fetch claim \<Rightarrow> Some (fetch_step kube claim th w d)
      | Loop claim results devices \<Rightarrow> Some (loop_step claim results devices th w d)
      | MakeGroup j \<Rightarrow> Some (group_step os root j th w d)
      | MakeSpec j \<Rightarrow> Some (spec_step os j th w d)
      | RecordAlloc j cdiDeviceID specPath \<Rightarrow> Some (record_step j cdiDeviceID specPath th w d)
      | UndoGroup j e \<Rightarrow>
          Some (th\<lparr>th_pc := UndoWays j e\<rparr>, snd (DeleteGroup os root (job_group j) w), d)
      | UndoWays j e \<Rightarrow> Some (undo_step j e th w d)
      | Take claim \<Rightarrow> Some (take_step claim th w d)
      | DropGroup alloc \<Rightarrow> Some (drop_step os root alloc th w d)
      | FreeTaken alloc \<Rightarrow>
          Some (th\<lparr>th_pc := DropSpec alloc\<rparr>, w,
                d\<lparr>wayAlloc := WayRelease (saCacheID alloc) (saCbm alloc) (wayAlloc d)\<rparr>)
      | DropSpec alloc \<Rightarrow>
          Some (th\<lparr>th_pc := Idle\<rparr>, removeClaimCDISpec os (saSpecPath alloc) w,
                report (Inc UnprepareTotal [''success'']) d)
      | Crashed \<Rightarrow> None)"

subsection \<open>Threads that rely on each other\<close>

text \<open>
  The contract between threads that share a state: every step, whichever thread takes it, guarantees a
  change under which what the other threads rely on is stable. Then a step keeps the whole list of
  threads good if it keeps its own thread good.
\<close>

locale rely_guarantee =
  fixes guarantee :: "'s \<Rightarrow> 's \<Rightarrow> bool" and good :: "'s \<Rightarrow> 't \<Rightarrow> bool"
  assumes stable: "good s t \<Longrightarrow> guarantee s s' \<Longrightarrow> good s' t"
begin

lemma all_stable: "list_all (good s) ts \<Longrightarrow> guarantee s s' \<Longrightarrow> list_all (good s') ts"
  by (auto simp: list_all_iff intro: stable)

lemma step_keeps_good:
  assumes "list_all (good s) ts" "guarantee s s'" "i < length ts" "good s (ts ! i) \<Longrightarrow> good s' t"
  shows "list_all (good s') (ts[i := t])"
proof -
  have "good s' t" using assms by (simp add: list_all_length)
  with all_stable [OF assms(1,2)] show ?thesis
    using set_update_subset_insert [of ts i t] by (auto simp: list_all_iff)
qed

end

subsection \<open>The system\<close>

text \<open>
  A state is the world, the shared driver and the threads. A new request may arrive at any time, and
  the world may change on its own between two steps: other processes write files, and the API
  server is updated.
\<close>

record 'w system =
  sys_world :: 'w
  sys_driver :: Driver
  sys_threads :: "thread list"

inductive sys_step :: "'w os \<Rightarrow> 'w kube \<Rightarrow> string \<Rightarrow> 'w system \<Rightarrow> 'w system \<Rightarrow> bool"
  for os kube root where
  run: "i < length (sys_threads s) \<Longrightarrow>
    thread_step os kube root (sys_threads s ! i) (sys_world s) (sys_driver s) = Some (th, w, d) \<Longrightarrow>
    sys_step os kube root s
      (s\<lparr>sys_world := w, sys_driver := d, sys_threads := (sys_threads s)[i := th]\<rparr>)"

inductive sys_reach :: "'w os \<Rightarrow> 'w kube \<Rightarrow> string \<Rightarrow> 'w system \<Rightarrow> 'w system \<Rightarrow> bool"
  for os kube root s0 where
  start: "sys_reach os kube root s0 s0"
| step: "sys_reach os kube root s0 s \<Longrightarrow> sys_step os kube root s s' \<Longrightarrow> sys_reach os kube root s0 s'"
| arrive: "sys_reach os kube root s0 s \<Longrightarrow>
    sys_reach os kube root s0 (s\<lparr>sys_threads := sys_threads s @ [request calls]\<rparr>)"
| environment: "sys_reach os kube root s0 s \<Longrightarrow> sys_reach os kube root s0 (s\<lparr>sys_world := w\<rparr>)"

inductive_cases sys_stepE: "sys_step os kube root s s'"

end
