(* ===== verification/BasicThreads.thy ===== *)
theory BasicThreads
  imports Concurrent
begin

text \<open>
  The handlers of basic mode as gRPC runs them: \<open>driver.go\<close> over the lock of \<open>state.go\<close>. Each operation
  of the allocation state is one critical section and one step of a thread; the order in which it ranges
  over its map is chosen anew each time. Nothing here touches the file system.
\<close>

datatype bpc =
  BIdle
| BFetch kubelet_claim
| BLoop kubelet_claim "alloc_result list" "prepared_device list"
| BCount kubelet_claim "prepared_device list"
| BRelease kubelet_claim
| BSettle

record bthread =
  bt_pc :: bpc
  bt_calls :: "call list"
  bt_resp :: "string \<rightharpoonup> prepare_response"

definition b_request :: "call list \<Rightarrow> bthread" where
  "b_request calls = \<lparr>bt_pc = BIdle, bt_calls = calls, bt_resp = Map.empty\<rparr>"

definition b_respond :: "kubelet_claim \<Rightarrow> prepare_response \<Rightarrow> bthread \<Rightarrow> bthread" where
  "b_respond claim r th = th\<lparr>bt_pc := BIdle, bt_resp := (bt_resp th)(kc_uid claim \<mapsto> r)\<rparr>"

subsection \<open>Prepare, step by step\<close>

definition b_fetch :: "'w kube \<Rightarrow> kubelet_claim \<Rightarrow> bthread \<Rightarrow> 'w \<Rightarrow> Driver \<Rightarrow> bthread \<times> Driver" where
  "b_fetch kube claim th w d =
     (case kube_get_claim kube w (kc_namespace claim) (kc_name claim) of
        Inl e \<Rightarrow>
          (b_respond claim (error_response (Wrapf ''fetching ResourceClaim %s/%s: %v''
             [ArgStr (kc_namespace claim), ArgStr (kc_name claim)] (OsError e))) th,
           report (Inc PrepareTotal [''error'']) d)
      | Inr rc \<Rightarrow>
          (case claim_allocation rc of
             None \<Rightarrow>
               (b_respond claim (error_response (Errorf ''ResourceClaim %s/%s has no allocation''
                  [ArgStr (kc_namespace claim), ArgStr (kc_name claim)])) th,
                report (Inc PrepareTotal [''error'']) d)
           | Some results \<Rightarrow> (th\<lparr>bt_pc := BLoop claim results []\<rparr>, d)))"

definition b_device :: "alloc_result \<Rightarrow> prepared_device" where
  "b_device result =
     \<lparr>pd_requests = [res_request result], pd_pool = res_pool result, pd_device = res_device result,
      pd_cdi_ids = [CDIDeviceID (res_device result)]\<rparr>"

definition b_loop ::
  "kubelet_claim \<Rightarrow> alloc_result list \<Rightarrow> prepared_device list \<Rightarrow> bthread \<Rightarrow> Driver \<Rightarrow> bthread \<times> Driver" where
  "b_loop claim results devices th d =
     (case results of
        [] \<Rightarrow>
          if devices = [] then
            (b_respond claim (error_response (Errorf ''no devices for driver %s in claim %s''
               [ArgStr (driverName d), ArgStr (kc_uid claim)])) th,
             report (Inc PrepareTotal [''error'']) d)
          else (th\<lparr>bt_pc := BCount claim devices\<rparr>, d)
      | result # rest \<Rightarrow>
          if res_driver result \<noteq> driverName d \<or> res_pool result \<noteq> nodeName d
          then (th\<lparr>bt_pc := BLoop claim rest devices\<rparr>, d)
          else (case StAllocate (res_device result) (kc_uid claim) (drvState d) of
             (Some _, st) \<Rightarrow> (th\<lparr>bt_pc := BLoop claim rest devices\<rparr>, d\<lparr>drvState := st\<rparr>)
           | (None, st) \<Rightarrow> (th\<lparr>bt_pc := BLoop claim rest (devices @ [b_device result])\<rparr>, d\<lparr>drvState := st\<rparr>)))"

definition b_count :: "string list \<Rightarrow> kubelet_claim \<Rightarrow> prepared_device list \<Rightarrow> bthread \<Rightarrow> Driver \<Rightarrow> bthread \<times> Driver" where
  "b_count order claim devices th d =
     (b_respond claim \<lparr>pr_devices = devices, pr_error = None\<rparr> th,
      report (Inc PrepareTotal [''success''])
        (report (GaugeSet PartitionsAllocated [] (AllocatedCount order (drvState d))) d))"

subsection \<open>Unprepare, step by step\<close>

definition b_release :: "string list \<Rightarrow> kubelet_claim \<Rightarrow> bthread \<Rightarrow> Driver \<Rightarrow> bthread \<times> Driver" where
  "b_release order claim th d =
     (th\<lparr>bt_pc := BSettle\<rparr>, d\<lparr>drvState := snd (ReleaseByClaimUID order (kc_uid claim) (drvState d))\<rparr>)"

definition b_settle :: "string list \<Rightarrow> bthread \<Rightarrow> Driver \<Rightarrow> bthread \<times> Driver" where
  "b_settle order th d =
     (th\<lparr>bt_pc := BIdle\<rparr>,
      report (Inc UnprepareTotal [''success''])
        (report (GaugeSet PartitionsAllocated [] (AllocatedCount order (drvState d))) d))"

subsection \<open>One step of a thread\<close>

fun b_start :: "call \<Rightarrow> bpc" where
  "b_start (PrepareCall claim) = BFetch claim"
| "b_start (UnprepareCall claim) = BRelease claim"

definition b_step :: "'w kube \<Rightarrow> string list \<Rightarrow> bthread \<Rightarrow> 'w \<Rightarrow> Driver \<Rightarrow> (bthread \<times> Driver) option" where
  "b_step kube order th w d =
     (case bt_pc th of
        BIdle \<Rightarrow>
          (case bt_calls th of
             [] \<Rightarrow> None
           | c # cs \<Rightarrow> Some (th\<lparr>bt_pc := b_start c, bt_calls := cs\<rparr>, d))
      | BFetch claim \<Rightarrow> Some (b_fetch kube claim th w d)
      | BLoop claim results devices \<Rightarrow> Some (b_loop claim results devices th d)
      | BCount claim devices \<Rightarrow> Some (b_count order claim devices th d)
      | BRelease claim \<Rightarrow> Some (b_release order claim th d)
      | BSettle \<Rightarrow> Some (b_settle order th d))"

subsection \<open>The system\<close>

text \<open>\<open>bs_released\<close> is not part of the program: it remembers the claims that have been unprepared.\<close>

record 'w bsystem =
  bs_world :: 'w
  bs_driver :: Driver
  bs_threads :: "bthread list"
  bs_released :: "string set"

fun b_releases :: "bpc \<Rightarrow> string set" where
  "b_releases (BRelease claim) = {kc_uid claim}"
| "b_releases pc = {}"

inductive bs_step :: "'w kube \<Rightarrow> 'w bsystem \<Rightarrow> 'w bsystem \<Rightarrow> bool" for kube where
  run: "i < length (bs_threads s) \<Longrightarrow>
    range_order (drvState (bs_driver s)) order \<Longrightarrow>
    b_step kube order (bs_threads s ! i) (bs_world s) (bs_driver s) = Some (th, d) \<Longrightarrow>
    bs_step kube s
      (s\<lparr>bs_driver := d, bs_threads := (bs_threads s)[i := th],
         bs_released := bs_released s \<union> b_releases (bt_pc (bs_threads s ! i))\<rparr>)"

inductive bs_reach :: "'w kube \<Rightarrow> 'w bsystem \<Rightarrow> 'w bsystem \<Rightarrow> bool" for kube s0 where
  start: "bs_reach kube s0 s0"
| step: "bs_reach kube s0 s \<Longrightarrow> bs_step kube s s' \<Longrightarrow> bs_reach kube s0 s'"
| arrive: "bs_reach kube s0 s \<Longrightarrow> bs_reach kube s0 (s\<lparr>bs_threads := bs_threads s @ [b_request calls]\<rparr>)"
| environment: "bs_reach kube s0 s \<Longrightarrow> bs_reach kube s0 (s\<lparr>bs_world := w\<rparr>)"

inductive_cases bs_stepE: "bs_step kube s s'"

end
