(* ===== verification/PartitionProps.thy ===== *)
theory PartitionProps
  imports Partition
begin

text \<open>
  The correctness of partitioning: what \<open>PartitionCache\<close> accepts, that the masks it hands out
  are disjoint runs inside the cache, that an equal split wastes no way, that names are unique
  and sizes add up, and that the spec syntax round-trips.
\<close>

subsection \<open>Reading a partition off the layout\<close>

lemma PartitionCache_parts:
  assumes "PartitionCache info specs n z c = Inr perCache" "well_sized specs" "parts \<in> set perCache"
  obtains d where "d \<in> set (CacheIDs info)" "length parts = length (layout specs)"
    "\<And>k. k < length parts \<Longrightarrow>
       parts ! k = make_partition info n z c d (way_start specs k) (int k) (layout specs ! k)"
  using PartitionCache_layout(1) [OF assms(1,2)] assms(3) by auto

text \<open>Where partition \<open>k\<close> lies; every bound a proof about masks needs.\<close>

lemma way_start_fits:
  assumes "PartitionCache info specs n z c = Inr perCache" "well_sized specs"
    and "k < length (layout specs)"
  shows "0 \<le> way_start specs k" "0 \<le> layout specs ! k"
    and "way_start specs k + layout specs ! k \<le> NumWays info"
    and "way_start specs k + layout specs ! k \<le> 64"
    and "MinCBMBits info \<le> layout specs ! k"
proof -
  have nn: "nonneg_specs specs" using assms(2) by (simp add: well_sized_def)
  have fit: "specs_fit info specs" by (rule PartitionCache_layout(2) [OF assms(1,2)])
  show "0 \<le> way_start specs k" "0 \<le> layout specs ! k"
    using way_start_bounds(1) [OF nn] layout_nonneg [OF nn] assms(3) by simp_all
  show le: "way_start specs k + layout specs ! k \<le> NumWays info"
    using way_start_bounds(2) [OF nn, of "Suc k"] way_start_Suc [OF assms(3)] fit
    by (simp add: specs_fit_def)
  then show "way_start specs k + layout specs ! k \<le> 64"
    using NumWays_bounds [of info] by simp
  have "layout specs ! k \<in> set (layout specs)" using assms(3) by simp
  then show "MinCBMBits info \<le> layout specs ! k"
    using fit unfolding layout_def specs_fit_def by auto
qed

lemma partition_ways_nth:
  assumes "PartitionCache info specs n z c = Inr perCache" "well_sized specs"
    and "parts \<in> set perCache" "k < length parts"
  shows "partition_ways (parts ! k) = run_set (way_start specs k) (layout specs ! k)"
    and "Ways (parts ! k) = layout specs ! k"
proof -
  obtain d where d: "length parts = length (layout specs)"
    "parts ! k = make_partition info n z c d (way_start specs k) (int k) (layout specs ! k)"
    using PartitionCache_parts [OF assms(1-3)] assms(4) by metis
  with assms(4) way_start_fits [OF assms(1,2), of k]
  show "partition_ways (parts ! k) = run_set (way_start specs k) (layout specs ! k)"
    by (simp add: partition_ways_make)
  show "Ways (parts ! k) = layout specs ! k" using d by simp
qed

lemma partitions_disjoint:
  assumes "PartitionCache info specs cacheToNUMA cacheToSize cacheToCPU = Inr perCache"
    and "well_sized specs" "parts \<in> set perCache" "i < length parts" "j < length parts" "i \<noteq> j"
  shows "partition_ways (parts ! i) \<inter> partition_ways (parts ! j) = {}"
proof -
  have nn: "nonneg_specs specs" using assms(2) by (simp add: well_sized_def)
  have len: "length parts = length (layout specs)"
    using PartitionCache_parts [OF assms(1-3)] by metis
  have lt: "partition_ways (parts ! a) \<inter> partition_ways (parts ! b) = {}"
    if "a < b" "b < length parts" for a b
  proof -
    have "way_start specs a + layout specs ! a \<le> way_start specs b"
      using that len way_start_Suc [of a specs] way_start_mono [OF nn, of "Suc a" b] by simp
    then show ?thesis
      using partition_ways_nth(1) [OF assms(1-3)] that by (simp add: run_set_disjoint)
  qed
  show ?thesis
    using assms(4-6) lt [of i j] lt [of j i] by (cases "i < j") (auto simp: Int_commute)
qed

text \<open>
  C10: Isolation. The cache bit masks of two different partitions of one cache domain have no
  way in common, whatever list of spec sizes was accepted (with totals that fit in an \<open>int\<close>).
\<close>

theorem partition_isolation:
  assumes "PartitionCache info specs cacheToNUMA cacheToSize cacheToCPU = Inr perCache"
    and "well_sized specs" "parts \<in> set perCache" "i < length parts" "j < length parts" "i \<noteq> j"
  shows "partition_ways (parts ! i) \<inter> partition_ways (parts ! j) = {}"
  by (rule partitions_disjoint [OF assms])

definition example_info :: CATInfo where
  "example_info = \<lparr>NumCLOSIDs = 16, CBMMask = 0xFFFFF, MinCBMBits = 2, CacheIDs = [0, 1]\<rparr>"

definition example_specs :: "PartitionSpec list" where
  "example_specs = [\<lparr>SpecWays = 2, SpecCount = 2\<rparr>, \<lparr>SpecWays = 5, SpecCount = 1\<rparr>]"

lemma NumWays_example [simp]: "NumWays example_info = 20"
  by (simp add: NumWays_def example_info_def popcount_loop.simps)

lemma example_well_sized [simp]: "well_sized example_specs"
  by (simp add: example_specs_def well_sized_def)

lemma example_fits: "specs_fit example_info example_specs"
  using NumWays_example by (simp add: specs_fit_def example_specs_def example_info_def in_int_def)

lemma example_accepted:
  "\<exists>perCache. PartitionCache example_info example_specs n z c = Inr perCache \<and>
     length perCache = 2 \<and> (\<forall>parts \<in> set perCache. length parts = 3)"
proof -
  obtain perCache where *: "PartitionCache example_info example_specs n z c = Inr perCache"
    using PartitionCache_ok_iff [OF example_well_sized] example_fits by (metis is_ok_iff)
  have "length (layout example_specs) = 3" by (simp add: example_specs_def eval_nat_numeral)
  moreover have "length (CacheIDs example_info) = 2" by (simp add: example_info_def)
  ultimately show ?thesis
    using * PartitionCache_layout(1) [OF * example_well_sized] by auto
qed

theorem partition_isolation_witness:
  "\<exists>perCache. PartitionCache example_info example_specs None None None = Inr perCache \<and>
     partition_ways (perCache ! 1 ! 0) \<inter> partition_ways (perCache ! 1 ! 2) = {}"
proof -
  obtain perCache where p: "PartitionCache example_info example_specs None None None = Inr perCache"
    "length perCache = 2" "\<forall>parts \<in> set perCache. length parts = 3"
    using example_accepted by blast
  have "perCache ! 1 \<in> set perCache" using p(2) by simp
  with p show ?thesis
    using partition_isolation [OF p(1) example_well_sized, of "perCache ! 1" 0 2] by auto
qed

text \<open>
  C11: Every mask is a legal capacity bit mask: a run of exactly \<open>Ways\<close> consecutive ways, not
  shorter than the hardware minimum, inside the ways of the cache.
\<close>

theorem partition_mask_contiguous:
  assumes "PartitionCache info specs cacheToNUMA cacheToSize cacheToCPU = Inr perCache"
    and "well_sized specs" "parts \<in> set perCache" "p \<in> set parts"
  shows "\<exists>start. 0 \<le> start \<and> partition_ways p = run_set start (Ways p) \<and>
    start + Ways p \<le> NumWays info \<and> MinCBMBits info \<le> Ways p \<and>
    card (partition_ways p) = nat (Ways p)"
proof -
  obtain k where k: "k < length parts" "p = parts ! k"
    using assms(4) by (auto simp: in_set_conv_nth)
  moreover have "length parts = length (layout specs)"
    using PartitionCache_parts [OF assms(1-3)] by metis
  ultimately show ?thesis
    using partition_ways_nth [OF assms(1-3), of k] way_start_fits [OF assms(1,2), of k]
    by (auto simp: card_run_set)
qed

theorem partition_mask_contiguous_witness:
  "\<exists>p start. 0 \<le> start \<and> partition_ways p = run_set start (Ways p) \<and> start + Ways p \<le> 20 \<and>
     card (partition_ways p) = nat (Ways p) \<and> ResctrlGroup p = ''dra-cache0-part2''"
proof -
  obtain perCache where p: "PartitionCache example_info example_specs None None None = Inr perCache"
    "length perCache = 2" "\<forall>parts \<in> set perCache. length parts = 3"
    using example_accepted by blast
  have mem: "perCache ! 0 \<in> set perCache" "perCache ! 0 ! 2 \<in> set (perCache ! 0)"
    using p(2) p(3) by simp_all
  have "ResctrlGroup (perCache ! 0 ! 2) = ''dra-cache0-part2''"
    using PartitionCache_layout(1) [OF p(1) example_well_sized]
    by (simp add: example_info_def example_specs_def show_evals)
  with partition_mask_contiguous [OF p(1) example_well_sized mem] show ?thesis by auto
qed

subsection \<open>Acceptance\<close>



text \<open>
  C28: The running totals of the validation are machine integers and can wrap: the accepted
  flag value \<open>4:4611686018427387904,4:4611686018427387904\<close> asks for \<open>2 ^ 65\<close> ways in \<open>2 ^ 63\<close>
  partitions, and passes the validation of a cache with 20 ways and 16 classes of service.
\<close>

theorem validation_wraps:
  "\<exists>specs. ParsePartitionSizes ''4:4611686018427387904,4:4611686018427387904'' = Inr specs \<and>
     validate_specs example_info specs = Inr () \<and>
     NumWays example_info < spec_total specs \<and> NumCLOSIDs example_info < spec_count specs"
proof -
  let ?s = "\<lparr>SpecWays = 4, SpecCount = 4611686018427387904\<rparr>"
  have "ParsePartitionSizes ''4:4611686018427387904,4:4611686018427387904'' = Inr [?s, ?s]"
    by (simp add: ParsePartitionSizes_def parse_spec_def str_split2_def atoi_def parse_nat_def
        dec_val_def trim_space_graphic graphic_def)
  moreover have "validate_specs example_info [?s, ?s] = Inr ()"
    by (simp add: validate_specs_def wrap64_def) (simp add: example_info_def)
  ultimately show ?thesis by (intro exI [of _ "[?s, ?s]"]) (simp add: example_info_def NumWays_example [unfolded example_info_def])
qed

subsection \<open>Equal splits\<close>

lemma SpecsFromCount_nonneg:
  assumes "0 < count" "0 \<le> tw" "in_int count" "in_int tw"
  shows "SpecsFromCount count tw =
    (if 0 < tw mod count
     then [\<lparr>SpecWays = tw div count + 1, SpecCount = tw mod count\<rparr>] else [])
    @ [\<lparr>SpecWays = tw div count, SpecCount = count - tw mod count\<rparr>]"
proof -
  have d: "0 \<le> tw div count" "tw div count \<le> tw" "0 \<le> tw mod count" "tw mod count < count"
    using assms zdiv_mono2 [of tw 1 count] by (simp_all add: pos_imp_zdiv_nonneg_iff)
  then have "in_int (tw div count)" "in_int (count - tw mod count)"
    using assms(3,4) by (auto simp: in_int_def)
  moreover have "in_int (tw div count + 1)" if "0 < tw mod count"
  proof -
    have "1 < count" using that assms(1) by (cases "count = 1") auto
    then have "tw div count < tw \<or> tw = 0" using assms(2) by (auto intro: int_div_less_self)
    with d that assms show ?thesis by (auto simp: in_int_def)
  qed
  ultimately show ?thesis
    using assms by (simp add: SpecsFromCount_def Let_def sdiv_nonneg smod_nonneg)
qed

lemma SpecsFromCount_facts:
  assumes "0 < count" "0 \<le> tw" "in_int count" "in_int tw"
  shows "spec_total (SpecsFromCount count tw) = tw"
    and "spec_count (SpecsFromCount count tw) = count"
    and "well_sized (SpecsFromCount count tw)"
    and "layout (SpecsFromCount count tw) =
      replicate (nat (tw mod count)) (tw div count + 1)
      @ replicate (nat (count - tw mod count)) (tw div count)"
proof -
  have d: "0 \<le> tw div count" "0 \<le> tw mod count" "tw mod count < count"
    using assms by (simp_all add: pos_imp_zdiv_nonneg_iff)
  have e: "tw div count * count + tw mod count = tw" by (rule div_mult_mod_eq)
  show t: "spec_total (SpecsFromCount count tw) = tw"
    using d e by (auto simp: SpecsFromCount_nonneg [OF assms] algebra_simps)
  show c: "spec_count (SpecsFromCount count tw) = count"
    using d by (auto simp: SpecsFromCount_nonneg [OF assms])
  have "nonneg_specs (SpecsFromCount count tw)"
    using d by (simp add: SpecsFromCount_nonneg [OF assms])
  with t c assms show "well_sized (SpecsFromCount count tw)"
    by (simp add: well_sized_def in_int_def)
  show "layout (SpecsFromCount count tw) =
      replicate (nat (tw mod count)) (tw div count + 1)
      @ replicate (nat (count - tw mod count)) (tw div count)"
    using d by (auto simp: SpecsFromCount_nonneg [OF assms])
qed

lemma ways_union:
  assumes "nonneg_specs specs" "m \<le> length (layout specs)"
  shows "(\<Union>k < m. run_set (way_start specs k) (layout specs ! k)) = run_set 0 (way_start specs m)"
  using assms(2)
proof (induction m)
  case 0
  then show ?case by (simp add: way_start_def)
next
  case (Suc m)
  have "0 \<le> layout specs ! m" using layout_nonneg [OF assms(1)] Suc.prems by simp
  then have "run_set 0 (way_start specs m) \<union> run_set (way_start specs m) (layout specs ! m) =
      run_set 0 (way_start specs (Suc m))"
    using run_set_append [of "way_start specs m" "layout specs ! m" 0]
      way_start_bounds(1) [OF assms(1)] Suc.prems
    by (simp add: way_start_Suc)
  with Suc show ?case by (simp add: lessThan_Suc Un_commute)
qed

lemma partition_union:
  assumes "PartitionCache info specs n z c = Inr perCache" "well_sized specs" "parts \<in> set perCache"
  shows "(\<Union>p \<in> set parts. partition_ways p) = run_set 0 (spec_total specs)"
proof -
  have nn: "nonneg_specs specs" using assms(2) by (simp add: well_sized_def)
  have len: "length parts = length (layout specs)" using PartitionCache_parts [OF assms] by metis
  have "(\<Union>p \<in> set parts. partition_ways p) = (\<Union>k < length parts. partition_ways (parts ! k))"
    by (fastforce simp: in_set_conv_nth)
  also have "\<dots> = (\<Union>k < length (layout specs). run_set (way_start specs k) (layout specs ! k))"
    using partition_ways_nth(1) [OF assms] len by simp
  finally show ?thesis
    using ways_union [OF nn, of "length (layout specs)"]
    by (simp add: way_start_def sum_layout [OF nn])
qed

text \<open>
  An equal split by \<open>--partition-count\<close> gives every domain exactly that many partitions,
  whose sizes differ by at most one way and which together cover every way of the cache: none is
  left to the default group.
\<close>

lemma equal_split_covers:
  assumes "PartitionCache info (SpecsFromCount count (NumWays info)) cacheToNUMA cacheToSize cacheToCPU
      = Inr perCache"
    and "in_int count" "parts \<in> set perCache"
  shows "int (length parts) = count \<and>
    (\<Union>p \<in> set parts. partition_ways p) = {..<nat (NumWays info)} \<and>
    (\<forall>p \<in> set parts. \<forall>q \<in> set parts. Ways p \<le> Ways q + 1)"
proof -
  let ?specs = "SpecsFromCount count (NumWays info)"
  have "?specs \<noteq> []"
    using assms(1) by (auto simp: PartitionCache_def validate_specs_def)
  then have "0 < count" by (auto simp: SpecsFromCount_def split: if_splits)
  note f = SpecsFromCount_facts [OF this NumWays_bounds(1) assms(2) in_int_NumWays, of info]
  have nn: "nonneg_specs ?specs" using f(3) by (simp add: well_sized_def)
  have len: "length parts = length (layout ?specs)"
    using PartitionCache_parts [OF assms(1) f(3) assms(3)] by metis
  have "Ways p \<in> set (layout ?specs)" if "p \<in> set parts" for p
    using that partition_ways_nth(2) [OF assms(1) f(3) assms(3)] len
    by (auto simp: in_set_conv_nth)
  then have ways: "Ways p = NumWays info div count + 1 \<or> Ways p = NumWays info div count"
    if "p \<in> set parts" for p
    using that f(4) by fastforce
  have "Ways p \<le> Ways q + 1" if "p \<in> set parts" "q \<in> set parts" for p q
    using ways [OF that(1)] ways [OF that(2)] by linarith
  moreover have "(\<Union>p \<in> set parts. partition_ways p) = {..<nat (NumWays info)}"
    using partition_union [OF assms(1) f(3) assms(3)] f(1) NumWays_bounds(1) [of info]
    by (simp add: run_set_eq atLeast0LessThan)
  moreover have "int (length parts) = count"
    using len length_layout [OF nn] f(2) by simp
  ultimately show ?thesis by blast
qed

subsection \<open>Names\<close>

text \<open>The shape shared by partition, group and bandwidth device names.\<close>

definition part_name :: "string \<Rightarrow> int \<Rightarrow> int \<Rightarrow> string" where
  "part_name prefix c i = prefix @ show_int c @ ''-part'' @ show_int i"

lemma part_name_inj:
  assumes "0 \<le> c" "in_int c" "0 \<le> c'" "in_int c'" "in_int i" "in_int i'"
    and "part_name prefix c i = part_name prefix c' i'"
  shows "c = c'" "i = i'"
proof -
  have e: "show_int c @ CHR ''-'' # ''part'' @ show_int i = show_int c' @ CHR ''-'' # ''part'' @ show_int i'"
    using assms(7) by (simp add: part_name_def)
  show "c = c'" using nat_codec.enc_field_inj(1) [OF _ _ _ e] assms by simp
  have "''part'' @ show_int i = ''part'' @ show_int i'"
    using nat_codec.enc_field_inj(2) [OF _ _ _ e] assms by simp
  then show "i = i'" using int_codec.enc_inj assms by simp
qed

lemma distinct_map_filter_concat:
  "concat (map (\<lambda>d. map (h d) ks) ds) = map (\<lambda>(d, k). h d k) (List.product ds ks)"
  by (induction ds) (simp_all add: comp_def)

definition valid_cache_ids :: "int list \<Rightarrow> bool" where
  "valid_cache_ids ids \<longleftrightarrow> distinct ids \<and> (\<forall>d \<in> set ids. 0 \<le> d \<and> in_int d)"

text \<open>Every accepted partition is named by its domain and its index, which are in range.\<close>

lemma AllPartitions_eq:
  assumes "PartitionCache info specs n z c = Inr perCache" "well_sized specs"
  shows "AllPartitions perCache =
    map (\<lambda>(d, k). make_partition info n z c d (way_start specs k) (int k) (layout specs ! k))
      (List.product (CacheIDs info) [0..<length (layout specs)])"
  unfolding PartitionCache_layout(1) [OF assms] AllPartitions_def
  by (rule distinct_map_filter_concat)

lemma layout_index_in_int: "well_sized specs \<Longrightarrow> k < length (layout specs) \<Longrightarrow> in_int (int k)"
  using length_layout [of specs] by (simp add: well_sized_def in_int_def)

lemma distinct_names:
  assumes p: "PartitionCache info specs n z c = Inr perCache" "well_sized specs"
    and ids: "valid_cache_ids (CacheIDs info)"
    and f: "\<And>d s k w. f (make_partition info n z c d s (int k) w) = part_name prefix d (int k)"
  shows "distinct (map f (AllPartitions perCache))"
proof -
  let ?dk = "List.product (CacheIDs info) [0..<length (layout specs)]"
  have "map f (AllPartitions perCache) = map (\<lambda>(d, k). part_name prefix d (int k)) ?dk"
    by (simp add: AllPartitions_eq [OF p] f case_prod_unfold comp_def)
  moreover have "inj_on (\<lambda>(d, k). part_name prefix d (int k)) (set ?dk)"
  proof (rule inj_onI, clarsimp)
    fix d k d' k'
    assume "d \<in> set (CacheIDs info)" "d' \<in> set (CacheIDs info)"
      "k < length (layout specs)" "k' < length (layout specs)"
      and eq: "part_name prefix d (int k) = part_name prefix d' (int k')"
    then have v: "0 \<le> d" "in_int d" "0 \<le> d'" "in_int d'" "in_int (int k)" "in_int (int k')"
      using ids layout_index_in_int [OF p(2)] by (auto simp: valid_cache_ids_def)
    show "d = d' \<and> k = k'" using part_name_inj [OF v eq] by simp
  qed
  moreover have "distinct ?dk"
    using ids by (auto simp: valid_cache_ids_def intro: distinct_product)
  ultimately show ?thesis by (simp add: distinct_map)
qed

text \<open>
  Partition IDs and resctrl group names are unique on the node: over all cache domains no
  two partitions share an ID, and no two share a group, so that no two share a directory below
  the resctrl root.
\<close>

theorem partition_names_unique:
  assumes "PartitionCache info specs cacheToNUMA cacheToSize cacheToCPU = Inr perCache"
    and "well_sized specs" "valid_cache_ids (CacheIDs info)" "root \<noteq> []"
  shows "distinct (map ID (AllPartitions perCache)) \<and>
    distinct (map (\<lambda>p. path_join [root, ResctrlGroup p]) (AllPartitions perCache))"
proof -
  have grp: "distinct (map ResctrlGroup (AllPartitions perCache))"
    by (rule distinct_names [OF assms(1-3), where prefix = "''dra-cache''"]) (simp add: part_name_def)
  have plain: "plain_name (ResctrlGroup p)" if "p \<in> set (AllPartitions perCache)" for p
    using that unfolding AllPartitions_eq [OF assms(1,2)]
    by (auto simp: plain_name_def)
  have "inj_on (\<lambda>g. path_join [root, g]) (ResctrlGroup ` set (AllPartitions perCache))"
  proof (rule inj_onI)
    fix g h
    assume "g \<in> ResctrlGroup ` set (AllPartitions perCache)"
      "h \<in> ResctrlGroup ` set (AllPartitions perCache)" "path_join [root, g] = path_join [root, h]"
    then show "g = h"
      using plain path_join_inj [OF assms(4), of "[g]" "[h]"] by fastforce
  qed
  with grp have "distinct (map (\<lambda>g. path_join [root, g]) (map ResctrlGroup (AllPartitions perCache)))"
    by (subst distinct_map) simp
  then have "distinct (map (\<lambda>p. path_join [root, ResctrlGroup p]) (AllPartitions perCache))"
    by (simp add: comp_def)
  moreover have "distinct (map ID (AllPartitions perCache))"
    by (rule distinct_names [OF assms(1-3), where prefix = "''cache''"]) (simp add: part_name_def)
  ultimately show ?thesis by blast
qed

lemma example_cache_ids: "valid_cache_ids (CacheIDs example_info)"
  by (simp add: valid_cache_ids_def example_info_def)

theorem partition_names_unique_witness:
  "\<exists>perCache. PartitionCache example_info example_specs None None None = Inr perCache \<and>
     length (AllPartitions perCache) = 6 \<and> distinct (map ID (AllPartitions perCache))"
proof -
  obtain perCache where p: "PartitionCache example_info example_specs None None None = Inr perCache"
    using example_accepted by blast
  have "length (layout example_specs) = 3" by (simp add: example_specs_def eval_nat_numeral)
  then have "length (AllPartitions perCache) = 6"
    by (simp add: AllPartitions_eq [OF p example_well_sized] length_product) (simp add: example_info_def)
  with p partition_names_unique [OF p example_well_sized example_cache_ids, of "''/sys/fs/resctrl''"]
  show ?thesis by auto
qed

subsection \<open>Sizes\<close>

text \<open>
  Partition sizes are exact multiples of the way size, computed without overflow, and the
  partitions of a domain never claim more bytes than its cache has.
\<close>

theorem partition_sizes_fit:
  assumes "PartitionCache info specs cacheToNUMA (Some sizes) cacheToCPU = Inr perCache"
    and "well_sized specs" "d < length (CacheIDs info)"
    and "sizes (CacheIDs info ! d) = Some cacheBytes" "0 < cacheBytes" "in_int cacheBytes"
  shows "(\<forall>p \<in> set (perCache ! d). SizeBytes p = Ways p * (cacheBytes div NumWays info)) \<and>
    sum_list (map SizeBytes (perCache ! d)) \<le> cacheBytes"
proof -
  have nn: "nonneg_specs specs" using assms(2) by (simp add: well_sized_def)
  let ?W = "NumWays info" and ?n = "length (layout specs)"
  let ?ws = "if 0 < ?W then cacheBytes div ?W else 0"
  have le: "x * ?ws \<le> cacheBytes" "in_int (x * ?ws)" if "0 \<le> x" "x \<le> ?W" for x
  proof -
    have "0 \<le> ?ws" using assms(5) by (simp add: pos_imp_zdiv_nonneg_iff)
    moreover have "?W * ?ws \<le> cacheBytes"
      using mult_div_mod_eq [of ?W cacheBytes] assms(5) by (simp add: minus_mod_eq_mult_div [symmetric])
    moreover have "x * ?ws \<le> ?W * ?ws" using that calculation(1) by (intro mult_right_mono) auto
    moreover have "0 \<le> x * ?ws" using that calculation(1) by simp
    ultimately show "x * ?ws \<le> cacheBytes" "in_int (x * ?ws)" using assms(6) by (auto simp: in_int_def)
  qed
  have pc: "perCache ! d = map (\<lambda>k. make_partition info cacheToNUMA (Some sizes) cacheToCPU
      (CacheIDs info ! d) (way_start specs k) (int k) (layout specs ! k)) [0..<?n]"
    using PartitionCache_layout(1) [OF assms(1,2)] assms(3) by simp
  then have len: "length (perCache ! d) = ?n" by simp
  have way: "domain_way_size info (Some sizes) (CacheIDs info ! d) = ?ws"
    using assms(4-6) by (simp add: domain_way_size_def sdiv_nonneg)
  have size: "SizeBytes (perCache ! d ! k) = layout specs ! k * ?ws" if "k < ?n" for k
  proof -
    have b: "0 \<le> layout specs ! k" "layout specs ! k \<le> ?W"
      using way_start_fits [OF assms(1,2) that] by simp_all
    show ?thesis
      using that le [OF b] pos_imp_zdiv_nonneg_iff [of ?W cacheBytes] assms(5)
      by (auto simp: pc make_partition_def Let_def way not_less intro: antisym)
  qed
  have "SizeBytes p = Ways p * (cacheBytes div ?W)" if p: "p \<in> set (perCache ! d)" for p
  proof -
    obtain k where k: "k < ?n" "p = perCache ! d ! k" using p by (auto simp: pc in_set_conv_nth)
    then have "Ways p = layout specs ! k" by (simp add: pc)
    moreover have "?W = 0 \<Longrightarrow> layout specs ! k = 0"
      using way_start_fits [OF assms(1,2) k(1)] by simp
    ultimately show ?thesis using size [OF k(1)] k(2) NumWays_bounds(1) [of info] by auto
  qed
  moreover have "sum_list (map SizeBytes (perCache ! d)) = spec_total specs * ?ws"
  proof -
    have "map SizeBytes (perCache ! d) = map (\<lambda>w. w * ?ws) (layout specs)"
      using size by (intro nth_equalityI) (simp_all add: len)
    then show ?thesis by (simp add: sum_list_mult_const sum_layout [OF nn])
  qed
  moreover have "0 \<le> spec_total specs" "spec_total specs \<le> ?W"
    using spec_nonneg(1) [OF nn] PartitionCache_layout(2) [OF assms(1,2)] by (simp_all add: specs_fit_def)
  ultimately show ?thesis using le by simp
qed

theorem partition_sizes_fit_witness:
  "\<exists>perCache. PartitionCache example_info example_specs None (Some [0 \<mapsto> 31457280]) None = Inr perCache \<and>
     (\<forall>p \<in> set (perCache ! 0). SizeBytes p = Ways p * 1572864) \<and>
     sum_list (map SizeBytes (perCache ! 0)) \<le> 31457280"
proof -
  obtain perCache where p:
    "PartitionCache example_info example_specs None (Some [0 \<mapsto> 31457280]) None = Inr perCache"
    using example_accepted by blast
  have c: "0 < length (CacheIDs example_info)" "CacheIDs example_info ! 0 = 0"
    by (simp_all add: example_info_def)
  with p partition_sizes_fit [OF p example_well_sized, of 0 31457280] show ?thesis
    by (simp add: in_int_def)
qed

subsection \<open>The spec syntax\<close>

definition print_spec :: "PartitionSpec \<Rightarrow> string" where
  "print_spec s = show_int (SpecWays s) @ '':'' @ show_int (SpecCount s)"

definition print_specs :: "PartitionSpec list \<Rightarrow> string" where
  "print_specs specs = str_join '','' (map print_spec specs)"

lemma parse_print_spec:
  assumes "0 < SpecWays s" "in_int (SpecWays s)" "0 < SpecCount s" "in_int (SpecCount s)"
  shows "parse_spec (print_spec s) = Inr s"
  using assms by (simp add: parse_spec_def print_spec_def str_split2_sep atoi_show_int)

lemma print_spec_chars: "CHR '','' \<notin> set (print_spec s)" "graphic_str (print_spec s)" "print_spec s \<noteq> []"
  by (auto simp: print_spec_def graphic_def)

text \<open>
  C27: The \<open>--partition-sizes\<close> syntax round-trips: printing any non-empty list of positive specs
  and parsing it back yields the same list, in the same order.
\<close>

theorem ParsePartitionSizes_print:
  assumes "specs \<noteq> []"
    and "\<forall>s \<in> set specs. 0 < SpecWays s \<and> in_int (SpecWays s) \<and> 0 < SpecCount s \<and> in_int (SpecCount s)"
  shows "ParsePartitionSizes (print_specs specs) = Inr specs"
proof -
  have "str_split (CHR '','') (print_specs specs) = map print_spec specs"
    unfolding print_specs_def using assms(1) print_spec_chars(1) by (intro str_split_join) auto
  moreover have "parse_specs (map print_spec specs) = Inr specs"
    using assms(2)
    by (induction specs) (simp_all add: Let_def print_spec_chars parse_print_spec)
  ultimately show ?thesis using assms(1) by (simp add: ParsePartitionSizes_def)
qed

theorem ParsePartitionSizes_print_witness:
  "ParsePartitionSizes ''1:8,2:4'' =
     Inr [\<lparr>SpecWays = 1, SpecCount = 8\<rparr>, \<lparr>SpecWays = 2, SpecCount = 4\<rparr>]"
  using ParsePartitionSizes_print [of "[\<lparr>SpecWays = 1, SpecCount = 8\<rparr>, \<lparr>SpecWays = 2, SpecCount = 4\<rparr>]"]
  by (simp add: print_specs_def print_spec_def show_evals in_int_def)

text \<open>What the parser accepts is a non-empty list of positive machine integers.\<close>

lemma parse_spec_sound:
  "parse_spec t = Inr s \<Longrightarrow>
     0 < SpecWays s \<and> in_int (SpecWays s) \<and> 0 < SpecCount s \<and> in_int (SpecCount s)"
  by (auto simp: parse_spec_def split: list.splits option.splits if_splits dest: atoi_range)

lemma parse_specs_sound:
  "parse_specs ts = Inr ss \<Longrightarrow> \<forall>s \<in> set ss.
     0 < SpecWays s \<and> in_int (SpecWays s) \<and> 0 < SpecCount s \<and> in_int (SpecCount s)"
proof (induction ts arbitrary: ss)
  case Nil
  then show ?case by simp
next
  case (Cons t ts)
  then show ?case
    by (auto simp: Let_def dest: parse_spec_sound split: if_splits sum.splits)
qed

lemma ParsePartitionSizes_sound:
  "ParsePartitionSizes t = Inr specs \<Longrightarrow> specs \<noteq> [] \<and> nonneg_specs specs"
  using parse_specs_sound [of "str_split (CHR '','') t" specs]
  by (fastforce simp: ParsePartitionSizes_def nonneg_specs_def split: sum.splits if_splits)

end
