(* ===== verification/ClaimProps.thy ===== *)
theory ClaimProps
  imports Recovery PartitionProps
begin

text \<open>
  The claim bookkeeping of basic mode: exclusive ownership, release by claim, the invariant of
  the allocation state, and what crash recovery restores.
\<close>

subsection \<open>Allocation and release\<close>

text \<open>
  Exclusive ownership. \<open>Allocate\<close> refines the abstract ownership map: it succeeds exactly
  for a known partition that is free or already the claim's own, records the claim as its owner
  then, reports the two error cases as the code words them, changes no other partition's owner,
  and never adds, drops or alters a partition.
\<close>

theorem StAllocate_refines:
  "fst (StAllocate k uid a) =
     (if k \<notin> dom a then Some (Errorf ''partition %q not found'' [ArgStr k])
      else case owner a k of
        None \<Rightarrow> None
      | Some u \<Rightarrow> if u = uid then None
                  else Some (Errorf ''partition %q already allocated to claim %q'' [ArgStr k, ArgStr u])) \<and>
   owner (snd (StAllocate k uid a)) =
     (if k \<in> dom a \<and> owner a k \<in> {None, Some uid} then (owner a)(k \<mapsto> uid) else owner a) \<and>
   known (snd (StAllocate k uid a)) = known a"
proof -
  have "fst (StAllocate k uid a) =
     (if k \<notin> dom a then Some (Errorf ''partition %q not found'' [ArgStr k])
      else case owner a k of
        None \<Rightarrow> None
      | Some u \<Rightarrow> if u = uid then None
                  else Some (Errorf ''partition %q already allocated to claim %q'' [ArgStr k, ArgStr u]))"
    by (auto simp: StAllocate_def owner_def split: option.splits)
  then show ?thesis
    using StAllocate_owner [of k uid a] StAllocate_None_iff [of k uid a]
    by (simp add: StAllocate_known)
qed

text \<open>
  Releasing a claim frees exactly the partitions it owned, in whatever order the map is
  ranged over: the returned IDs are these partitions, each once, every other claim keeps its
  partitions, and afterwards nothing is listed for the claim.
\<close>

theorem ReleaseByClaimUID_exact:
  assumes "range_order a order" "ReleaseByClaimUID order uid a = (released, a')"
  shows "set released = {k. owner a k = Some uid} \<and> distinct released \<and>
    owner a' = (\<lambda>k. if owner a k = Some uid then None else owner a k) \<and>
    known a' = known a \<and> PartitionsByClaimUID order uid a' = []"
proof -
  have rel: "release_loop uid order a = (released, a')"
    using assms(2) by (simp add: ReleaseByClaimUID_def)
  have ord: "distinct order" "set order = dom a" using range_orderD [OF assms(1)] by auto
  have r: "released = filter (\<lambda>k. owner a k = Some uid) order"
    using release_loop_keys [OF ord(1), of uid a] rel by simp
  have own: "owner a' k = (if owner a k = Some uid then None else owner a k)" for k
    using release_loop_owner [of uid order a k] rel ord(2) dom_owner [of a] by auto
  have "p \<in> set (range_states order a') \<Longrightarrow> \<not> (Allocated p \<and> ClaimUID p = uid)" for p
  proof
    assume p: "p \<in> set (range_states order a')" "Allocated p \<and> ClaimUID p = uid"
    then obtain k where "a' k = Some p" by (auto simp: range_states_def set_map_filter)
    with p(2) have "owner a' k = Some uid" by (simp add: owner_def)
    with own [of k] show False by (simp split: if_splits)
  qed
  then have "PartitionsByClaimUID order uid a' = []"
    by (auto simp: PartitionsByClaimUID_def filter_empty_conv)
  moreover have "known a' = known a" using release_loop_known [of uid order a] rel by simp
  moreover have "set released = {k. owner a k = Some uid}" "distinct released"
    using r ord dom_owner [of a] by auto
  ultimately show ?thesis using own by auto
qed

definition ex_part :: "int \<Rightarrow> CachePartition" where
  "ex_part i = make_partition example_info None None None 0 (5 * i) i 5"

definition two_parts :: AllocationState where
  "two_parts = NewAllocationState [[ex_part 0, ex_part 1]]"

lemma ex_part_IDs: "ID (ex_part 0) = ''cache0-part0''" "ID (ex_part 1) = ''cache0-part1''"
  by (simp_all add: ex_part_def make_partition_def Let_def show_evals)

lemma two_parts_eq:
  "two_parts = [''cache0-part0'' \<mapsto> \<lparr>StPartition = ex_part 0, Allocated = False, ClaimUID = []\<rparr>,
                ''cache0-part1'' \<mapsto> \<lparr>StPartition = ex_part 1, Allocated = False, ClaimUID = []\<rparr>]"
  by (simp add: two_parts_def NewAllocationState_def ex_part_IDs)

lemma two_parts_dom: "dom two_parts = {''cache0-part0'', ''cache0-part1''}"
  by (auto simp: two_parts_eq)

definition two_order :: "string list" where
  "two_order = [''cache0-part1'', ''cache0-part0'']"

theorem ReleaseByClaimUID_exact_witness:
  "\<exists>r a'. ReleaseByClaimUID two_order ''u1'' (snd (StAllocate ''cache0-part0'' ''u1'' two_parts)) = (r, a') \<and>
     set r = {''cache0-part0''} \<and> owner a' ''cache0-part0'' = None"
proof -
  let ?a = "snd (StAllocate ''cache0-part0'' ''u1'' two_parts)"
  obtain r a' where r: "ReleaseByClaimUID two_order ''u1'' ?a = (r, a')" by fastforce
  have "range_order ?a two_order"
    by (simp add: range_order_def two_order_def StAllocate_def two_parts_eq insert_commute)
  note e = ReleaseByClaimUID_exact [OF this r]
  have "{k. owner ?a k = Some ''u1''} = {''cache0-part0''}"
    by (auto simp: StAllocate_def two_parts_eq owner_def split: if_splits)
  with e r show ?thesis by auto
qed

subsection \<open>Reachable states\<close>

text \<open>Any sequence of operations of the allocation state, with any map orders.\<close>

inductive st_reach :: "AllocationState \<Rightarrow> AllocationState \<Rightarrow> bool" for a0 where
  start: "st_reach a0 a0"
| allocate: "st_reach a0 a \<Longrightarrow> st_reach a0 (snd (StAllocate k uid a))"
| release: "st_reach a0 a \<Longrightarrow> st_reach a0 (snd (StRelease k a))"
| release_claim: "st_reach a0 a \<Longrightarrow> range_order a order \<Longrightarrow>
    st_reach a0 (snd (ReleaseByClaimUID order uid a))"

lemma st_reach_inv: "st_reach a0 a \<Longrightarrow> tidy a0 \<Longrightarrow> tidy a \<and> known a = known a0"
  by (induction rule: st_reach.induct)
    (simp_all add: StAllocate_tidy StAllocate_known StRelease_tidy StRelease_known
       ReleaseByClaimUID_def release_loop_tidy release_loop_known)

lemma range_states_count:
  assumes "range_order a order"
  shows "AllocatedCount order a = int (card (dom (owner a)))"
proof -
  have ord: "distinct order" "set order = dom a" using range_orderD [OF assms] by auto
  have "filter Allocated (range_states order a) = map (\<lambda>k. the (a k)) (filter (\<lambda>k. owner a k \<noteq> None) order)"
    unfolding range_states_def owner_def
    by (induction order) (auto simp: List.map_filter_simps split: option.splits)
  then have "length (filter Allocated (range_states order a)) = length (filter (\<lambda>k. owner a k \<noteq> None) order)"
    by simp
  also have "\<dots> = card (set (filter (\<lambda>k. owner a k \<noteq> None) order))"
    using ord(1) by (metis distinct_card distinct_filter)
  also have "set (filter (\<lambda>k. owner a k \<noteq> None) order) = dom (owner a)"
    using ord(2) dom_owner [of a] by auto
  finally show ?thesis by (simp add: AllocatedCount_def)
qed

text \<open>
  The allocation state never loses, adds or changes a partition, whatever operations run:
  every reachable state has exactly the partitions it was started with, each under its own ID, a
  free partition carries no claim, and the count of allocated partitions is the number of owned
  ones.
\<close>

theorem allocation_state_invariant:
  assumes "distinct (map ID (AllPartitions perCache))"
    and "st_reach (NewAllocationState perCache) a" "range_order a order"
  shows "(known a k = Some p \<longleftrightarrow> p \<in> set (AllPartitions perCache) \<and> ID p = k) \<and>
    tidy a \<and> AllocatedCount order a = int (card (dom (owner a)))"
proof -
  have "known (NewAllocationState perCache) k = Some p \<longleftrightarrow>
      p \<in> set (AllPartitions perCache) \<and> ID p = k"
    using NewAllocationState_lookup [OF assms(1)] by (auto simp: known_def)
  then show ?thesis
    using st_reach_inv [OF assms(2) NewAllocationState_tidy] range_states_count [OF assms(3)] by simp
qed

theorem allocation_state_invariant_witness:
  "AllocatedCount two_order (snd (StAllocate ''cache0-part0'' ''u1'' two_parts)) =
     int (card (dom (owner (snd (StAllocate ''cache0-part0'' ''u1'' two_parts)))))"
proof -
  have d: "distinct (map ID (AllPartitions [[ex_part 0, ex_part 1]]))"
    by (simp add: AllPartitions_def ex_part_IDs)
  have r: "st_reach (NewAllocationState [[ex_part 0, ex_part 1]])
      (snd (StAllocate ''cache0-part0'' ''u1'' two_parts))"
    unfolding two_parts_def by (intro st_reach.intros)
  have "range_order (snd (StAllocate ''cache0-part0'' ''u1'' two_parts)) two_order"
    by (simp add: range_order_def two_order_def StAllocate_def two_parts_eq insert_commute)
  from allocation_state_invariant [OF d r this] show ?thesis by blast
qed

subsection \<open>Crash recovery\<close>

text \<open>
  C30: Crash recovery of basic mode. On every finite chain of pages the listing loop ends without
  an error, keeps the partitions and their present owners, and gives every other partition of
  the node to the first claim, in listing order, that names it as this driver's device in this
  node's pool; a partition no claim names stays free.
\<close>

theorem RecoverAllocations_restores:
  assumes "page_chain kube w [] pages"
  shows "\<exists>n s'. RecoverAllocations kube w drv node s = Some (n, None, s') \<and> dom s' = dom s \<and>
    (\<forall>k. owner s' k =
       (if owner s k \<noteq> None then owner s k
        else if k \<in> dom s then first_claim drv node (concat (map page_items pages)) k else None))"
proof -
  let ?cs = "concat (map page_items pages)"
  have "RecoverAllocations kube w drv node s =
      Some (fst (recover_items drv node ?cs 0 s), None, snd (recover_items drv node ?cs 0 s))"
    by (simp add: RecoverAllocations_def recover_pages_chain [OF assms] Let_def)
  then show ?thesis
    using recover_items_owner [of drv node ?cs 0 s] recover_items_dom [of drv node ?cs 0 s] by auto
qed

definition ex_claim :: "string \<Rightarrow> string \<Rightarrow> ResourceClaim" where
  "ex_claim uid device =
     \<lparr>claim_uid = uid, claim_namespace = ''default'', claim_name = ''claim-'' @ uid,
      claim_allocation = Some [\<lparr>res_request = ''cache'', res_driver = ''drv'', res_pool = ''node1'',
                                res_device = device\<rparr>]\<rparr>"

lemma own_results_ex:
  "own_results ''drv'' ''node1'' (ex_claim uid device) =
     [\<lparr>res_request = ''cache'', res_driver = ''drv'', res_pool = ''node1'', res_device = device\<rparr>]"
  by (simp add: own_results_def ex_claim_def)

lemma own_devices_ex: "own_devices ''drv'' ''node1'' (ex_claim uid device) = {device}"
  by (simp add: own_devices_def own_results_ex)

definition ex_claims :: "ResourceClaim list" where
  "ex_claims = [ex_claim ''u1'' ''cache0-part1'', ex_claim ''u2'' ''cache0-part1'']"

theorem RecoverAllocations_restores_witness:
  "\<exists>n s'. RecoverAllocations (list_kube ex_claims) () ''drv'' ''node1'' two_parts = Some (n, None, s') \<and>
     owner s' ''cache0-part1'' = Some ''u1'' \<and> owner s' ''cache0-part0'' = None"
proof -
  have "page_chain (list_kube ex_claims) () [] [\<lparr>page_items = ex_claims, page_continue = []\<rparr>]"
    by (simp add: list_kube_def)
  from RecoverAllocations_restores [OF this, of "''drv''" "''node1''" two_parts]
  obtain n s' where r: "RecoverAllocations (list_kube ex_claims) () ''drv'' ''node1'' two_parts = Some (n, None, s')"
    and own: "owner s' k =
       (if owner two_parts k \<noteq> None then owner two_parts k
        else if k \<in> dom two_parts then first_claim ''drv'' ''node1'' ex_claims k else None)" for k
    by auto
  have "owner two_parts = Map.empty" by (simp add: two_parts_def NewAllocationState_owner)
  then have "owner s' ''cache0-part1'' = Some ''u1''" "owner s' ''cache0-part0'' = None"
    by (simp_all add: own two_parts_dom first_claim_def ex_claims_def own_devices_ex)
      (simp add: ex_claim_def)
  with r show ?thesis by blast
qed

end
