(* ===== verification/BasicProps.thy ===== *)
theory BasicProps
  imports Driver ClaimProps
begin

text \<open>
  The handlers of basic mode: which partitions a claim gets, retries, release, and that crash
  recovery restores what had been prepared.
\<close>

subsection \<open>Preparing a claim\<close>

definition basic_device :: "alloc_result \<Rightarrow> prepared_device" where
  "basic_device r =
     \<lparr>pd_requests = [res_request r], pd_pool = res_pool r, pd_device = res_device r,
      pd_cdi_ids = [CDIDeviceID (res_device r)]\<rparr>"

lemma prepare_results_loop:
  "prepare_results drv node uid rs s =
     (let l = claim_loop StAllocate res_device uid (filter (\<lambda>r. res_driver r = drv \<and> res_pool r = node) rs) s
      in (map basic_device (fst l), snd l))"
  by (induction drv node uid rs s rule: prepare_results.induct)
    (auto simp: Let_def basic_device_def split: option.splits prod.splits)

text \<open>The results of the claim that it gets: this driver's on this node, known and not taken.\<close>

definition granted :: "Driver \<Rightarrow> string \<Rightarrow> ResourceClaim \<Rightarrow> alloc_result list" where
  "granted d uid rc =
     filter (\<lambda>r. res_device r \<in> dom (drvState d) \<and> owner (drvState d) (res_device r) \<in> {None, Some uid})
       (own_results (driverName d) (nodeName d) rc)"

lemma drv_report [simp]:
  "drvState (report e d) = drvState d" "driverName (report e d) = driverName d"
  "nodeName (report e d) = nodeName d" "drvCaps (report e d) = drvCaps d"
  "wayAlloc (report e d) = wayAlloc d" "structuredAllocs (report e d) = structuredAllocs d"
  "cdiDir (report e d) = cdiDir d" "hookBinPath (report e d) = hookBinPath d"
  by (simp_all add: report_def)

lemma prepareClaim_claim:
  assumes "kube_get_claim kube w (kc_namespace claim) (kc_name claim) = Inr rc"
  shows "prepareClaim kube w order claim d = (r, d') \<Longrightarrow>
      pr_devices r = map basic_device (granted d (kc_uid claim) rc)"
    and "prepareClaim kube w order claim d = (r, d') \<Longrightarrow>
      pr_error r = None \<longleftrightarrow> granted d (kc_uid claim) rc \<noteq> []"
    and "prepareClaim kube w order claim d = (r, d') \<Longrightarrow>
      drvState d' = snd (claim_loop StAllocate res_device (kc_uid claim)
        (own_results (driverName d) (nodeName d) rc) (drvState d))"
    and "prepareClaim kube w order claim d = (r, d') \<Longrightarrow>
      driverName d' = driverName d \<and> nodeName d' = nodeName d \<and> drvCaps d' = drvCaps d"
  using assms claims.claim_loop_accepts [of res_device "kc_uid claim"
      "own_results (driverName d) (nodeName d) rc" "drvState d"]
  by (auto simp: prepareClaim_def own_results_def granted_def prepare_results_loop Let_def
      error_response_def claims.free_for_def split: option.splits if_splits)

lemma granted_owner:
  "owner (snd (claim_loop StAllocate res_device uid (own_results (driverName d) (nodeName d) rc) (drvState d))) k =
     (if k \<in> res_device ` set (granted d uid rc) then Some uid else owner (drvState d) k)"
  by (auto simp: claims.claim_loop_own claims.free_for_def granted_def)


definition ex_kclaim :: "string \<Rightarrow> kubelet_claim" where
  "ex_kclaim uid = \<lparr>kc_uid = uid, kc_namespace = ''default'', kc_name = ''claim-'' @ uid\<rparr>"

definition ex_driver :: "bool \<Rightarrow> WayAllocator \<Rightarrow> Driver" where
  "ex_driver structured wa =
     NewDriver ''drv'' ''node1'' two_parts
       \<lparr>PartitionableDevices = structured, ConsumableCapacity = False\<rparr> wa None ''/hook'' ''/cdi''"

definition no_ways :: WayAllocator where "no_ways = NewWayAllocator Map.empty"

lemma ex_driver_simps [simp]:
  "driverName (ex_driver b wa) = ''drv''" "nodeName (ex_driver b wa) = ''node1''"
  "drvState (ex_driver b wa) = two_parts" "wayAlloc (ex_driver b wa) = wa"
  "structuredAllocs (ex_driver b wa) = Map.empty" "cdiDir (ex_driver b wa) = ''/cdi''"
  "hookBinPath (ex_driver b wa) = ''/hook''"
  by (simp_all add: ex_driver_def NewDriver_def)

lemma two_parts_owner: "owner two_parts = Map.empty"
  by (simp add: two_parts_def NewAllocationState_owner)

lemma ex_get_claim:
  "kube_get_claim (list_kube ex_claims) w (kc_namespace (ex_kclaim ''u1'')) (kc_name (ex_kclaim ''u1'')) =
     Inr (ex_claim ''u1'' ''cache0-part1'')"
  by (simp add: list_kube_def ex_claims_def ex_kclaim_def ex_claim_def)

lemma ex_granted:
  "granted (ex_driver b wa) uid (ex_claim u ''cache0-part1'') =
     [\<lparr>res_request = ''cache'', res_driver = ''drv'', res_pool = ''node1'', res_device = ''cache0-part1''\<rparr>]"
  by (simp add: granted_def own_results_ex two_parts_dom two_parts_owner)


text \<open>
  Preparing is idempotent: when the kubelet retries a claim, it gets the same response again
  and no ownership changes.
\<close>

theorem prepareClaim_retry:
  assumes "kube_get_claim kube w (kc_namespace claim) (kc_name claim) = Inr rc"
    and "prepareClaim kube w order claim d = (r, d1)"
    and "prepareClaim kube w order claim d1 = (r', d2)"
  shows "pr_devices r' = pr_devices r \<and> (pr_error r' = None \<longleftrightarrow> pr_error r = None) \<and>
    owner (drvState d2) = owner (drvState d1)"
proof -
  note p1 = prepareClaim_claim [OF assms(1,2)] and p2 = prepareClaim_claim [OF assms(1,3)]
  have dom: "dom (drvState d1) = dom (drvState d)" using p1(3) by (simp add: claims.claim_loop_ids)
  have own: "owner (drvState d1) k =
      (if k \<in> res_device ` set (granted d (kc_uid claim) rc) then Some (kc_uid claim) else owner (drvState d) k)" for k
    using p1(3) granted_owner [of "kc_uid claim" d rc] by simp
  have same: "granted d1 (kc_uid claim) rc = granted d (kc_uid claim) rc"
    unfolding granted_def
  proof (rule filter_cong)
    show "own_results (driverName d1) (nodeName d1) rc = own_results (driverName d) (nodeName d) rc"
      using p1(4) by simp
    fix x
    assume "x \<in> set (own_results (driverName d) (nodeName d) rc)"
    then show "(res_device x \<in> dom (drvState d1) \<and> owner (drvState d1) (res_device x) \<in> {None, Some (kc_uid claim)}) =
        (res_device x \<in> dom (drvState d) \<and> owner (drvState d) (res_device x) \<in> {None, Some (kc_uid claim)})"
      unfolding dom own by (auto simp: granted_def)
  qed
  have "owner (drvState d2) k = owner (drvState d1) k" for k
    using p2(3) granted_owner [of "kc_uid claim" d1 rc k] own [of k] by (simp add: same)
  with p1 p2 same show ?thesis by auto
qed

theorem prepareClaim_retry_witness:
  "\<exists>r d1 r' d2. prepareClaim (list_kube ex_claims) () two_order (ex_kclaim ''u1'') (ex_driver False no_ways) = (r, d1) \<and>
     prepareClaim (list_kube ex_claims) () two_order (ex_kclaim ''u1'') d1 = (r', d2) \<and>
     pr_devices r' = pr_devices r"
proof -
  obtain r d1 where p: "prepareClaim (list_kube ex_claims) () two_order (ex_kclaim ''u1'')
      (ex_driver False no_ways) = (r, d1)"
    by fastforce
  obtain r' d2 where p': "prepareClaim (list_kube ex_claims) () two_order (ex_kclaim ''u1'') d1 = (r', d2)"
    by fastforce
  from prepareClaim_retry [OF ex_get_claim p p'] p p' show ?thesis by blast
qed

subsection \<open>Unpreparing a claim\<close>

lemma unprepareClaim_state:
  "drvState (unprepareClaim order claim d) = snd (ReleaseByClaimUID order (kc_uid claim) (drvState d))"
  "driverName (unprepareClaim order claim d) = driverName d"
  "nodeName (unprepareClaim order claim d) = nodeName d"
  by (simp_all add: unprepareClaim_def Let_def case_prod_unfold)

lemma unprepareClaim_owner:
  assumes "range_order (drvState d) order"
  shows "owner (drvState (unprepareClaim order claim d)) k =
    (if owner (drvState d) k = Some (kc_uid claim) then None else owner (drvState d) k)"
  using range_orderD(2) [OF assms] dom_owner [of "drvState d"]
  by (auto simp: unprepareClaim_state ReleaseByClaimUID_def release_loop_owner)

text \<open>
  Unpreparing undoes preparing: if the claim owned nothing before, then after it is prepared
  and unprepared every partition has the owner it had before, the partitions are the same, and
  the gauge is set to the number of partitions then owned.
\<close>

theorem unprepare_undoes_prepare:
  assumes "kube_get_claim kube w (kc_namespace claim) (kc_name claim) = Inr rc"
    and "prepareClaim kube w order claim d = (r, d1)"
    and "range_order (drvState d) order" "kc_uid claim \<notin> ran (owner (drvState d))"
  shows "owner (drvState (unprepareClaim order claim d1)) = owner (drvState d) \<and>
    dom (drvState (unprepareClaim order claim d1)) = dom (drvState d) \<and>
    GaugeSet PartitionsAllocated [] (int (card (dom (owner (drvState d))))) \<in>
      set (metrics (unprepareClaim order claim d1))"
proof -
  note p = prepareClaim_claim [OF assms(1,2)]
  have dom1: "dom (drvState d1) = dom (drvState d)" using p(3) by (simp add: claims.claim_loop_ids)
  have ord1: "range_order (drvState d1) order" by (rule range_order_dom [OF assms(3) dom1])
  have free: "owner (drvState d) k \<noteq> Some (kc_uid claim)" for k
    using assms(4) by (auto simp: ran_def)
  have own: "owner (drvState (unprepareClaim order claim d1)) k = owner (drvState d) k" for k
    using unprepareClaim_owner [OF ord1, of claim k] p(3) granted_owner [of "kc_uid claim" d rc k] free [of k]
    by (auto simp: granted_def)
  then have own_eq: "owner (drvState (unprepareClaim order claim d1)) = owner (drvState d)" by auto
  have dom2: "dom (drvState (unprepareClaim order claim d1)) = dom (drvState d1)"
    using release_loop_known [of "kc_uid claim" order "drvState d1"]
    by (metis ReleaseByClaimUID_def dom_known unprepareClaim_state(1))
  have "AllocatedCount order (drvState (unprepareClaim order claim d1)) =
      int (card (dom (owner (drvState d))))"
    using range_states_count [OF range_order_dom [OF ord1 dom2]] own_eq by simp
  moreover have "GaugeSet PartitionsAllocated [] (AllocatedCount order (drvState (unprepareClaim order claim d1))) \<in>
      set (metrics (unprepareClaim order claim d1))"
    by (simp add: unprepareClaim_def report_def Let_def case_prod_unfold)
  ultimately show ?thesis using own_eq dom1 dom2 by simp
qed

theorem unprepare_undoes_prepare_witness:
  "\<exists>r d1. prepareClaim (list_kube ex_claims) () two_order (ex_kclaim ''u1'') (ex_driver False no_ways) = (r, d1) \<and>
     owner (drvState (unprepareClaim two_order (ex_kclaim ''u1'') d1)) = Map.empty"
proof -
  obtain r d1 where p: "prepareClaim (list_kube ex_claims) () two_order (ex_kclaim ''u1'')
      (ex_driver False no_ways) = (r, d1)"
    by fastforce
  have ord: "range_order (drvState (ex_driver False no_ways)) two_order"
    by (simp add: range_order_def two_order_def two_parts_eq insert_commute)
  have "kc_uid (ex_kclaim ''u1'') \<notin> ran (owner (drvState (ex_driver False no_ways)))"
    by (simp add: two_parts_owner)
  from unprepare_undoes_prepare [OF ex_get_claim p ord this] p show ?thesis
    by (simp add: two_parts_owner)
qed

subsection \<open>Crash recovery\<close>

text \<open>
  Runs of a basic-mode driver between two restarts: it prepares claims of the cluster that the API
  server returns under the kubelet's UID, and unprepares claims, with any worlds and map orders.
\<close>

inductive basic_run :: "'w kube \<Rightarrow> ResourceClaim list \<Rightarrow> Driver \<Rightarrow> Driver \<Rightarrow> bool" for kube cs d0 where
  start: "basic_run kube cs d0 d0"
| prepare: "basic_run kube cs d0 d \<Longrightarrow>
    kube_get_claim kube w (kc_namespace claim) (kc_name claim) = Inr rc \<Longrightarrow>
    rc \<in> set cs \<Longrightarrow> claim_uid rc = kc_uid claim \<Longrightarrow>
    basic_run kube cs d0 (snd (prepareClaim kube w order claim d))"
| unprepare: "basic_run kube cs d0 d \<Longrightarrow> range_order (drvState d) order \<Longrightarrow>
    basic_run kube cs d0 (unprepareClaim order claim d)"

definition no_conflicts :: "string \<Rightarrow> string \<Rightarrow> ResourceClaim list \<Rightarrow> bool" where
  "no_conflicts drv node cs \<longleftrightarrow>
     (\<forall>c \<in> set cs. \<forall>c' \<in> set cs. own_devices drv node c \<inter> own_devices drv node c' \<noteq> {} \<longrightarrow>
        claim_uid c = claim_uid c')"

lemma basic_run_inv:
  assumes "basic_run kube cs d0 d" "owner (drvState d0) = Map.empty"
  shows "driverName d = driverName d0 \<and> nodeName d = nodeName d0 \<and> dom (drvState d) = dom (drvState d0) \<and>
    (\<forall>k u. owner (drvState d) k = Some u \<longrightarrow>
       (\<exists>c \<in> set cs. claim_uid c = u \<and> k \<in> own_devices (driverName d0) (nodeName d0) c))"
  using assms
proof (induction rule: basic_run.induct)
  case start
  then show ?case by simp
next
  case (prepare d w claim rc order)
  obtain r d' where p: "prepareClaim kube w order claim d = (r, d')" by fastforce
  note f = prepareClaim_claim [OF prepare.hyps(2) p]
  have own: "owner (drvState d') k = (if k \<in> res_device ` set (granted d (kc_uid claim) rc)
      then Some (kc_uid claim) else owner (drvState d) k)" for k
    using f(3) granted_owner [of "kc_uid claim" d rc] by simp
  have "k \<in> own_devices (driverName d0) (nodeName d0) rc"
    if "k \<in> res_device ` set (granted d (kc_uid claim) rc)" for k
    using that prepare.IH prepare.prems by (auto simp: granted_def own_devices_def)
  moreover have "dom (drvState d') = dom (drvState d)" using f(3) by (simp add: claims.claim_loop_ids)
  ultimately show ?case
    using prepare.IH [OF prepare.prems] prepare.hyps(3,4) f(4) own p by (auto split: if_splits)
next
  case (unprepare d order claim)
  have "dom (drvState (unprepareClaim order claim d)) = dom (drvState d)"
    using release_loop_known [of "kc_uid claim" order "drvState d"]
    by (metis ReleaseByClaimUID_def dom_known unprepareClaim_state(1))
  with unprepare.IH [OF unprepare.prems] unprepareClaim_owner [OF unprepare.hyps(2), of claim]
  show ?case by (auto simp: unprepareClaim_state(2,3) split: if_splits)
qed

lemma first_claim_unique:
  assumes "no_conflicts drv node cs" "c \<in> set cs" "k \<in> own_devices drv node c"
  shows "first_claim drv node cs k = Some (claim_uid c)"
proof -
  obtain c' where c': "find (\<lambda>c. k \<in> own_devices drv node c) cs = Some c'"
    using assms(2,3) by (metis find_None_iff option.exhaust)
  with find_SomeD [OF this] assms show ?thesis
    by (auto simp: first_claim_def no_conflicts_def)
qed

text \<open>
  C17: A restart loses no prepared claim. Whatever a basic-mode driver prepared and unprepared
  since its start, recovery into the fresh allocation state of the same partitions returns
  without an error and gives every partition that was owned back to the same claim, provided
  the listing contains the cluster's claims and the scheduler allocated no device to two claims.
\<close>

theorem recovery_keeps_prepared:
  assumes "basic_run kube cs d0 d" "drvState d0 = NewAllocationState perCache"
    and "page_chain kube w [] pages" "set (concat (map page_items pages)) = set cs"
    and "no_conflicts (driverName d0) (nodeName d0) cs"
  shows "\<exists>n s'. RecoverAllocations kube w (driverName d0) (nodeName d0) (NewAllocationState perCache) =
      Some (n, None, s') \<and> owner (drvState d) \<subseteq>\<^sub>m owner s'"
proof -
  let ?cs = "concat (map page_items pages)" and ?s0 = "NewAllocationState perCache"
  obtain n s' where r: "RecoverAllocations kube w (driverName d0) (nodeName d0) ?s0 = Some (n, None, s')"
    and s': "s' = snd (recover_items (driverName d0) (nodeName d0) ?cs 0 ?s0)"
    by (simp add: RecoverAllocations_def recover_pages_chain [OF assms(3)] Let_def)
  have e: "owner (drvState d0) = Map.empty" using assms(2) NewAllocationState_owner by simp
  note inv = basic_run_inv [OF assms(1) e]
  have nc: "no_conflicts (driverName d0) (nodeName d0) ?cs"
    using assms(4,5) unfolding no_conflicts_def by simp
  have "owner s' k = Some u" if "owner (drvState d) k = Some u" for k u
  proof -
    from that inv assms(4) obtain c where c: "c \<in> set ?cs" "claim_uid c = u"
      "k \<in> own_devices (driverName d0) (nodeName d0) c"
      by blast
    have "k \<in> dom (drvState d)" using that dom_owner [of "drvState d"] by blast
    with inv assms(2) have "k \<in> dom ?s0" by simp
    with c first_claim_unique [OF nc c(1,3)] show ?thesis
      by (simp add: s' recover_items_owner NewAllocationState_owner)
  qed
  with r show ?thesis by (auto simp: map_le_def dom_def)
qed

definition ex_kube :: "unit kube" where
  "ex_kube = list_kube [ex_claim ''u1'' ''cache0-part1'']"

lemma ex_kube_get:
  "kube_get_claim ex_kube () (kc_namespace (ex_kclaim ''u1'')) (kc_name (ex_kclaim ''u1'')) =
     Inr (ex_claim ''u1'' ''cache0-part1'')"
  by (simp add: ex_kube_def list_kube_def ex_kclaim_def ex_claim_def)

lemma ex_kube_pages:
  "page_chain ex_kube () [] [\<lparr>page_items = [ex_claim ''u1'' ''cache0-part1''], page_continue = []\<rparr>]"
  by (simp add: ex_kube_def list_kube_def)

theorem recovery_keeps_prepared_witness:
  "\<exists>r d n s'. prepareClaim ex_kube () two_order (ex_kclaim ''u1'') (ex_driver False no_ways) = (r, d) \<and>
    RecoverAllocations ex_kube () ''drv'' ''node1'' two_parts = Some (n, None, s') \<and>
    owner (drvState d) \<subseteq>\<^sub>m owner s'"
proof -
  let ?cs = "[ex_claim ''u1'' ''cache0-part1'']" and ?d0 = "ex_driver False no_ways"
  obtain r d where p: "prepareClaim ex_kube () two_order (ex_kclaim ''u1'') ?d0 = (r, d)"
    by fastforce
  have "basic_run ex_kube ?cs ?d0 (snd (prepareClaim ex_kube () two_order (ex_kclaim ''u1'') ?d0))"
    by (rule basic_run.prepare [OF basic_run.start ex_kube_get]) (simp_all add: ex_claim_def ex_kclaim_def)
  with p have run: "basic_run ex_kube ?cs ?d0 d" by simp
  have st: "drvState ?d0 = NewAllocationState [[ex_part 0, ex_part 1]]" by (simp add: two_parts_def)
  have nc: "no_conflicts (driverName ?d0) (nodeName ?d0) ?cs" by (simp add: no_conflicts_def)
  from recovery_keeps_prepared [OF run st ex_kube_pages _ nc] p show ?thesis
    by (auto simp: two_parts_def)
qed

subsection \<open>Bandwidth devices\<close>

text \<open>
  C31: A claim whose devices on this node are all bandwidth devices is never prepared: the driver
  advertises these devices, but the allocation state knows the cache partitions only, so the
  response is an error in every state that the driver can reach.
\<close>

theorem bandwidth_claims_fail:
  assumes "PartitionCache info specs n z c = Inr perCache" "well_sized specs"
    and "st_reach (NewAllocationState perCache) (drvState d)"
    and "kube_get_claim kube w (kc_namespace claim) (kc_name claim) = Inr rc"
    and "own_devices (driverName d) (nodeName d) rc \<subseteq> range MBADeviceID \<union> range SMBADeviceID"
    and "prepareClaim kube w order claim d = (r, d')"
  shows "pr_error r \<noteq> None \<and> pr_devices r = []"
proof -
  have "dom (drvState d) = dom (NewAllocationState perCache)"
    using st_reach_inv [OF assms(3) NewAllocationState_tidy] by (metis dom_known)
  also have "\<dots> \<subseteq> ID ` set (AllPartitions perCache)"
    using find_SomeD by (fastforce simp: NewAllocationState_eq fold_states split: option.splits)
  finally have dom: "dom (drvState d) \<subseteq> ID ` set (AllPartitions perCache)" .
  have "hd (ID p) = CHR ''c''" if "p \<in> set (AllPartitions perCache)" for p
    using that unfolding AllPartitions_eq [OF assms(1,2)] by auto
  with dom have c: "\<forall>x \<in> dom (drvState d). hd x = CHR ''c''" by blast
  have "hd x \<noteq> CHR ''c''" if "x \<in> range MBADeviceID \<union> range SMBADeviceID" for x
    using that by (auto simp: MBADeviceID_def SMBADeviceID_def)
  with c have "x \<notin> dom (drvState d)" if "x \<in> range MBADeviceID \<union> range SMBADeviceID" for x
    using that by blast
  with assms(5) have "\<forall>x \<in> set (own_results (driverName d) (nodeName d) rc). res_device x \<notin> dom (drvState d)"
    unfolding own_devices_def by blast
  then have "granted d (kc_uid claim) rc = []" unfolding granted_def filter_empty_conv by blast
  then show ?thesis using prepareClaim_claim(1,2) [OF assms(4,6)] by simp
qed

lemma ex_part_mba: "MBADeviceID (ex_part 0) = ''mba0-part0''"
  by (simp add: MBADeviceID_def ex_part_def make_partition_def Let_def show_evals)

theorem bandwidth_claims_fail_witness:
  "\<exists>perCache r d'. PartitionCache example_info example_specs None None None = Inr perCache \<and>
     prepareClaim (list_kube [ex_claim ''u1'' ''mba0-part0'']) () two_order (ex_kclaim ''u1'')
       (ex_driver False no_ways\<lparr>drvState := NewAllocationState perCache\<rparr>) = (r, d') \<and> pr_error r \<noteq> None"
proof -
  obtain perCache where pc: "PartitionCache example_info example_specs None None None = Inr perCache"
    using example_accepted by blast
  let ?k = "list_kube [ex_claim ''u1'' ''mba0-part0''] :: unit kube"
  let ?d = "ex_driver False no_ways\<lparr>drvState := NewAllocationState perCache\<rparr>"
  obtain r d' where p: "prepareClaim ?k () two_order (ex_kclaim ''u1'') ?d = (r, d')" by fastforce
  have reach: "st_reach (NewAllocationState perCache) (drvState ?d)" by (simp add: st_reach.start)
  have get: "kube_get_claim ?k () (kc_namespace (ex_kclaim ''u1'')) (kc_name (ex_kclaim ''u1'')) =
      Inr (ex_claim ''u1'' ''mba0-part0'')"
    by (simp add: list_kube_def ex_kclaim_def ex_claim_def)
  have "own_devices (driverName ?d) (nodeName ?d) (ex_claim ''u1'' ''mba0-part0'') \<subseteq>
      range MBADeviceID \<union> range SMBADeviceID"
    using ex_part_mba by (auto simp: own_devices_ex intro: range_eqI [where x = "ex_part 0"])
  from bandwidth_claims_fail [OF pc example_well_sized reach get this p] pc p show ?thesis by blast
qed

end
