(* ===== verification/WayAllocProps.thy ===== *)
theory WayAllocProps
  imports WayAlloc
begin

text \<open>
  The contract of the way allocator: first fit, failure exactly when there is no free run, exact
  accounting of free ways, release as the inverse of allocation, and crash recovery from the
  schemata files.
\<close>

subsection \<open>Allocation\<close>

text \<open>
  C20: A successful allocation returns the lowest run of the requested number of consecutive ways
  that is free in the domain, marks exactly these ways as used and leaves other domains alone.
\<close>

theorem WayAllocate_first_fit:
  assumes "way_inv a" "WayAllocate c n a = (Inr m, a')"
  shows "\<exists>tw start. totalWays a c = Some tw \<and> 0 \<le> start \<and> start + n \<le> tw \<and>
    way_set m = run_set start n \<and> used_ways a c \<inter> way_set m = {} \<and>
    (\<forall>t. 0 \<le> t \<and> t < start \<longrightarrow> used_ways a c \<inter> run_set t n \<noteq> {}) \<and>
    used_ways a' c = used_ways a c \<union> way_set m \<and> (\<forall>d. d \<noteq> c \<longrightarrow> used_ways a' d = used_ways a d)"
proof -
  have u: "used_ways a' d = (if d = c then used_ways a c \<union> way_set m else used_ways a d)" for d
    by (rule ways.alloc_used [OF assms])
  obtain tw start where "totalWays a c = Some tw" "0 \<le> start" "start + n \<le> tw"
    "way_set m = run_set start n" "used_ways a c \<inter> way_set m = {}"
    "\<forall>t. 0 \<le> t \<and> t < start \<longrightarrow> used_ways a c \<inter> run_set t n \<noteq> {}"
    by (rule WayAllocate_Inr [OF assms]) blast
  with u show ?thesis by (intro exI [of _ tw] exI [of _ start]) simp
qed

definition pool20 :: WayAllocator where
  "pool20 = NewWayAllocator [0 \<mapsto> 20, 1 \<mapsto> 20]"

lemma pool20_inv [simp]: "way_inv pool20"
  by (auto simp: pool20_def intro!: way_inv_new split: if_splits)

lemmas way_evals = WayAllocate_def first_fit.simps buildWayMask_def mask_loop.simps shl1_def
  wrap64_def NewWayAllocator_def Let_def

lemma pool20_allocate: "fst (WayAllocate 0 5 pool20) = Inr 0x1f"
  by (simp add: pool20_def way_evals)

theorem WayAllocate_first_fit_witness:
  "\<exists>a'. WayAllocate 0 5 pool20 = (Inr 0x1f, a') \<and>
     used_ways a' 0 = way_set 0x1f \<and> used_ways a' 1 = {}"
proof -
  obtain a' where a': "WayAllocate 0 5 pool20 = (Inr 0x1f, a')"
    using pool20_allocate by (metis prod.collapse)
  with WayAllocate_first_fit [OF pool20_inv a'] show ?thesis
    by (auto simp: pool20_def)
qed

text \<open>
  An allocation fails exactly when the domain is unknown, the count is not positive, or no
  run of that many consecutive ways is free; a failed allocation changes nothing.
\<close>

lemma WayAllocate_ok_iff:
  assumes "way_inv a"
  shows "(is_ok (fst (WayAllocate c n a)) \<longleftrightarrow>
      (\<exists>tw start. totalWays a c = Some tw \<and> 0 < n \<and> 0 \<le> start \<and> start + n \<le> tw \<and>
         used_ways a c \<inter> run_set start n = {})) \<and>
    (is_ok (fst (WayAllocate c n a)) \<or> snd (WayAllocate c n a) = a)"
proof (cases "WayAllocate c n a")
  case (Pair r a')
  show ?thesis
  proof (cases r)
    case (Inr m)
    with Pair have w: "WayAllocate c n a = (Inr m, a')" by simp
    have "\<exists>tw start. totalWays a c = Some tw \<and> 0 < n \<and> 0 \<le> start \<and> start + n \<le> tw \<and>
        used_ways a c \<inter> run_set start n = {}"
      by (rule WayAllocate_Inr [OF assms w]) auto
    with w show ?thesis by simp
  next
    case (Inl e)
    with Pair have w: "WayAllocate c n a = (Inl e, a')" by simp
    have "used_ways a c \<inter> run_set start n \<noteq> {}"
      if s: "totalWays a c = Some tw" "0 < n" "0 \<le> start" "start + n \<le> tw" for tw start
    proof -
      have "first_fit (map_get 0 (allocated a) c) n tw 0 = None"
        using w s by (auto simp: WayAllocate_def Let_def split: option.splits if_splits)
      moreover have "tw \<le> 64" using assms s(1) by (auto simp: way_inv_def)
      ultimately show ?thesis using first_fit_None s by (simp add: used_ways_def)
    qed
    with w WayAllocate_Inl [OF w] show ?thesis by auto
  qed
qed

subsection \<open>Accounting\<close>

lemma FreeWays_card:
  "FreeWays c a = int (card ({..<nat (map_get 0 (totalWays a) c)} - used_ways a c))"
proof -
  let ?w = "map_get 0 (allocated a) c" and ?n = "nat (map_get 0 (totalWays a) c)"
  have "drop_bit i w AND 1 = 0 \<longleftrightarrow> i \<notin> way_set w" for i and w :: "64 word"
    by (simp add: way_set_def and_one_eq bit_iff_odd_drop_bit even_iff_mod_2_eq_zero)
  then have "set (filter (\<lambda>i. drop_bit i ?w AND 1 = 0) [0..<?n]) = {..<?n} - used_ways a c"
    by (auto simp: used_ways_def)
  then have "length (filter (\<lambda>i. drop_bit i ?w AND 1 = 0) [0..<?n]) = card ({..<?n} - used_ways a c)"
    by (metis distinct_card distinct_filter distinct_upt)
  then show ?thesis by (simp add: FreeWays_def Let_def)
qed

text \<open>
  Ways are accounted for exactly: an allocation of \<open>n\<close> ways lowers the domain's count of free
  ways by \<open>n\<close>, and its release raises the count again and restores the ways in use in every domain.
\<close>

theorem FreeWays_accounting:
  assumes "way_inv a" "WayAllocate c n a = (Inr m, a')"
  shows "FreeWays c a' = FreeWays c a - n \<and> FreeWays c (WayRelease c m a') = FreeWays c a \<and>
    (\<forall>d. used_ways (WayRelease c m a') d = used_ways a d)"
proof -
  obtain tw start where w: "totalWays a c = Some tw" "0 < n" "0 \<le> start" "start + n \<le> tw"
    "way_set m = run_set start n" "used_ways a c \<inter> way_set m = {}"
    and a': "a' = a\<lparr>allocated := (allocated a)(c \<mapsto> map_get 0 (allocated a) c OR m)\<rparr>"
    by (rule WayAllocate_Inr [OF assms]) blast
  let ?F = "{..<nat tw} - used_ways a c"
  have sub: "way_set m \<subseteq> ?F" using w by (auto simp: run_set_eq)
  have "{..<nat tw} - used_ways a' c = ?F - way_set m"
    using ways.alloc_used [OF assms, of c] by auto
  moreover have "card (way_set m) = nat n" unfolding w(5) using w(2,3) by (intro card_run_set) simp_all
  then have "card (?F - way_set m) = card ?F - nat n"
    using card_Diff_subset [OF finite_subset [OF sub] sub] by simp
  moreover have "nat n \<le> card ?F"
    using card_mono [OF _ sub] w by (simp add: card_run_set)
  moreover have "map_get 0 (totalWays a') c = tw" "map_get 0 (totalWays a) c = tw"
    "map_get 0 (totalWays (WayRelease c m a')) c = tw"
    using w(1) by (simp_all add: a' WayRelease_def)
  ultimately show ?thesis
    using w(2) ways.alloc_release [OF assms] by (simp add: FreeWays_card)
qed

theorem FreeWays_accounting_witness:
  "FreeWays 0 (snd (WayAllocate 0 5 pool20)) = FreeWays 0 pool20 - 5 \<and>
   FreeWays 0 (WayRelease 0 0x1f (snd (WayAllocate 0 5 pool20))) = FreeWays 0 pool20"
proof -
  have "WayAllocate 0 5 pool20 = (Inr 0x1f, snd (WayAllocate 0 5 pool20))"
    using pool20_allocate by (metis prod.collapse)
  from FreeWays_accounting [OF pool20_inv this] show ?thesis by simp
qed

text \<open>
  Counting ways does not decide allocation. After four one-way claims on a four-way cache and
  the release of the first and the third, two ways are free, and a claim for two ways is refused:
  the shared counter that the scheduler tracks admits claims that the node cannot satisfy.
\<close>

theorem fragmented_pool_refuses:
  "\<exists>a. a = WayRelease 0 4 (WayRelease 0 1 (snd (WayAllocate 0 1 (snd (WayAllocate 0 1
          (snd (WayAllocate 0 1 (snd (WayAllocate 0 1 (NewWayAllocator [0 \<mapsto> 4])))))))))) \<and>
     FreeWays 0 a = 2 \<and> \<not> is_ok (fst (WayAllocate 0 2 a))"
  by (simp add: way_evals WayRelease_def FreeWays_def upt_conv_Cons)

subsection \<open>Crash recovery\<close>

definition mask_line :: "(int \<times> 64 word) list \<Rightarrow> string" where
  "mask_line cms = domain_line ''L3'' (map (\<lambda>(c, m). (c, show_hex m)) cms)"

definition mark :: "(int \<times> 64 word) \<Rightarrow> (int \<rightharpoonup> 64 word) \<Rightarrow> (int \<rightharpoonup> 64 word)" where
  "mark cm al = al(fst cm \<mapsto> map_get 0 al (fst cm) OR snd cm)"

lemma rebuild_segment_mark:
  "in_int c \<Longrightarrow> rebuild_segment (show_int c @ CHR ''='' # show_hex m) al = mark (c, m) al"
  by (simp add: rebuild_segment_def str_index_append atoi_show_int parse_show_hex mark_def)

lemma fold_rebuild_segments:
  assumes "\<forall>(c, m) \<in> set cms. in_int c"
  shows "fold rebuild_segment (map (\<lambda>(c, m). show_int c @ CHR ''='' # show_hex m) cms) al = fold mark cms al"
  using assms by (induction cms arbitrary: al) (auto simp: rebuild_segment_mark)

lemma graphic_join:
  "graphic_str sep \<Longrightarrow> \<forall>p \<in> set ps. graphic_str p \<Longrightarrow> graphic_str (str_join sep ps)"
  by (induction sep ps rule: str_join.induct) auto

lemma graphic_mask_line: "graphic_str (mask_line cms)"
  by (auto simp: mask_line_def domain_line_def graphic_def intro!: graphic_join)

lemma mask_line_no_newline: "newline \<notin> set (mask_line cms)"
  using graphic_mask_line [of cms] by (auto simp: graphic_str_def graphic_def)

lemma rebuild_line_marks:
  assumes "cms \<noteq> []" "\<forall>(c, m) \<in> set cms. in_int c"
  shows "rebuild_line (mask_line cms) al = fold mark cms al"
proof -
  have v: "line_values (map (\<lambda>(c, m). (c, show_hex m)) cms)"
    using assms by (auto simp: line_values_def)
  have "str_split (CHR '';'') (trim_prefix ''L3:'' (mask_line cms)) =
      map (\<lambda>(c, m). show_int c @ CHR ''='' # show_hex m) cms"
    using segments_of_line [OF v, of "''L3''"] by (simp add: mask_line_def comp_def case_prod_unfold)
  moreover have "has_prefix ''L3:'' (mask_line cms)"
    using has_prefix_domain_line [of "''L3''"] by (simp add: mask_line_def)
  ultimately show ?thesis
    using fold_rebuild_segments [OF assms(2)] by (simp add: rebuild_line_def graphic_mask_line)
qed

lemma rebuild_data_marks:
  assumes "cms \<noteq> []" "\<forall>(c, m) \<in> set cms. in_int c"
  shows "rebuild_data (mask_line cms @ [newline]) al = fold mark cms al"
proof -
  have "mask_line cms \<noteq> []" by (simp add: mask_line_def domain_line_def)
  then have "graphic (hd (mask_line cms)) \<and> graphic (last (mask_line cms))"
    using graphic_mask_line [of cms] by (auto simp: graphic_str_def)
  then have "trim_space (mask_line cms @ [newline]) = mask_line cms"
    by (intro trim_space_newline) simp
  then show ?thesis
    by (simp add: rebuild_data_def str_split_none mask_line_no_newline rebuild_line_marks [OF assms])
qed

lemma way_set_marks:
  "way_set (map_get 0 (fold mark cms al) c) = way_set (map_get 0 al c) \<union> (\<Union>(d, m) \<in> set cms. if d = c then way_set m else {})"
  by (induction cms arbitrary: al) (auto simp: mark_def split: if_splits)

text \<open>The masks that the schemata files of the recovered groups hold for domain \<open>c\<close>.\<close>

definition group_masks :: "dir_entry list \<Rightarrow> string \<Rightarrow> (string \<Rightarrow> (int \<times> 64 word) list) \<Rightarrow> int \<Rightarrow> nat set" where
  "group_masks entries pre masks c =
     (\<Union>e \<in> {e \<in> set entries. de_dir e \<and> has_prefix pre (de_name e)}.
        \<Union>(d, m) \<in> set (masks (de_name e)). if d = c then way_set m else {})"

lemma fold_rebuild_entries:
  assumes "\<forall>e \<in> set entries. de_dir e \<longrightarrow> has_prefix pre (de_name e) \<longrightarrow>
      masks (de_name e) \<noteq> [] \<and> (\<forall>(c, m) \<in> set (masks (de_name e)). in_int c) \<and>
      os_read_file os w (path_join [root, de_name e, ''schemata'']) =
        Inr (mask_line (masks (de_name e)) @ [newline])"
  shows "way_set (map_get 0 (fold (rebuild_entry os w root pre) entries al) c) =
    way_set (map_get 0 al c) \<union> group_masks entries pre masks c"
  using assms
proof (induction entries arbitrary: al)
  case Nil
  then show ?case by (simp add: group_masks_def)
next
  case (Cons e es)
  show ?case
  proof (cases "de_dir e \<and> has_prefix pre (de_name e)")
    case True
    with Cons.prems have "rebuild_entry os w root pre e al = fold mark (masks (de_name e)) al"
      by (simp add: rebuild_entry_def rebuild_data_marks)
    moreover have "group_masks (e # es) pre masks c = group_masks es pre masks c \<union>
        (\<Union>(d, m) \<in> set (masks (de_name e)). if d = c then way_set m else {})"
      using True by (auto simp: group_masks_def)
    ultimately show ?thesis using Cons by (auto simp: way_set_marks)
  next
    case False
    then have "rebuild_entry os w root pre e al = al" by (auto simp: rebuild_entry_def)
    moreover have "group_masks (e # es) pre masks c = group_masks es pre masks c"
      using False unfolding group_masks_def by auto
    ultimately show ?thesis using Cons by simp
  qed
qed

text \<open>
  C21: Crash recovery of the allocator. If every group directory with the driver's prefix holds a
  schemata file with an \<open>L3\<close> line, the rebuilt allocator has in use exactly the ways it had
  before plus the ways of every mask on these lines, in each domain the line names.
\<close>

theorem RebuildFromResctrl_recovers:
  assumes "os_read_dir os w root = Inr entries"
    and "\<forall>e \<in> set entries. de_dir e \<longrightarrow> has_prefix pre (de_name e) \<longrightarrow>
      masks (de_name e) \<noteq> [] \<and> (\<forall>(c, m) \<in> set (masks (de_name e)). in_int c) \<and>
      os_read_file os w (path_join [root, de_name e, ''schemata'']) =
        Inr (mask_line (masks (de_name e)) @ [newline])"
  shows "\<exists>a'. RebuildFromResctrl os w root pre a = (None, a') \<and> totalWays a' = totalWays a \<and>
    (\<forall>c. used_ways a' c = used_ways a c \<union> group_masks entries pre masks c)"
  using assms(1) fold_rebuild_entries [OF assms(2)]
  by (simp add: RebuildFromResctrl_def used_ways_def)

definition recovered_fs :: memfs where
  "recovered_fs =
     \<lparr>mem_dirs = [''/r'', ''/r/dra-c0-ab'', ''/r/other''],
      mem_files = [(''/r/dra-c0-ab/schemata'', ''L3:0=1f;1=fffff'' @ [newline]),
                   (''/r/other/schemata'', ''L3:0=20'' @ [newline])]\<rparr>"

lemma recovered_read_dir:
  "os_read_dir mem_os recovered_fs ''/r'' =
     Inr [\<lparr>de_name = ''dra-c0-ab'', de_dir = True\<rparr>, \<lparr>de_name = ''other'', de_dir = True\<rparr>]"
  by (simp add: go_eval recovered_fs_def Let_def)

lemma recovered_mask_line: "mask_line [(0, 0x1f), (1, 0xfffff)] = ''L3:0=1f;1=fffff''"
  by (simp add: mask_line_def domain_line_def show_evals)

lemma recovered_schemata:
  "os_read_file mem_os recovered_fs (path_join [''/r'', ''dra-c0-ab'', ''schemata'']) =
     Inr (''L3:0=1f;1=fffff'' @ [newline])"
  by (simp add: go_eval recovered_fs_def path_join_def path_clean_def render_path_def Let_def)

theorem RebuildFromResctrl_recovers_witness:
  "\<exists>a'. RebuildFromResctrl mem_os recovered_fs ''/r'' ''dra-c'' pool20 = (None, a') \<and>
     used_ways a' 0 = way_set 0x1f \<and> used_ways a' 1 = way_set 0xfffff"
proof -
  let ?es = "[\<lparr>de_name = ''dra-c0-ab'', de_dir = True\<rparr>, \<lparr>de_name = ''other'', de_dir = True\<rparr>]"
  let ?ms = "\<lambda>n :: string. [(0, 0x1f), (1, 0xfffff)] :: (int \<times> 64 word) list"
  have "\<forall>e \<in> set ?es. de_dir e \<longrightarrow> has_prefix ''dra-c'' (de_name e) \<longrightarrow>
      ?ms (de_name e) \<noteq> [] \<and> (\<forall>(c, m) \<in> set (?ms (de_name e)). in_int c) \<and>
      os_read_file mem_os recovered_fs (path_join [''/r'', de_name e, ''schemata'']) =
        Inr (mask_line (?ms (de_name e)) @ [newline])"
    using recovered_schemata recovered_mask_line by simp
  note r = RebuildFromResctrl_recovers [OF recovered_read_dir this, of pool20]
  have dirs: "{e \<in> set ?es. de_dir e \<and> has_prefix ''dra-c'' (de_name e)} =
      {\<lparr>de_name = ''dra-c0-ab'', de_dir = True\<rparr>}"
    by auto
  have masks: "group_masks ?es ''dra-c'' ?ms 0 = way_set 0x1f"
    "group_masks ?es ''dra-c'' ?ms 1 = way_set 0xfffff"
    unfolding group_masks_def dirs by simp_all
  have "used_ways pool20 c = {}" for c by (simp add: pool20_def)
  note u = this
  obtain a' where a': "RebuildFromResctrl mem_os recovered_fs ''/r'' ''dra-c'' pool20 = (None, a')"
    and used: "\<forall>c. used_ways a' c = used_ways pool20 c \<union> group_masks ?es ''dra-c'' ?ms c"
    using r by (elim exE conjE)
  have "used_ways a' 0 = way_set 0x1f" "used_ways a' 1 = way_set 0xfffff"
    by (simp_all only: used masks u Un_empty_left)
  with a' show ?thesis by (intro exI [of _ a'] conjI)
qed

end
