(* ===== verification/StructuredProps.thy ===== *)
theory StructuredProps
  imports BasicProps WayAllocProps
begin

text \<open>
  The handlers of structured mode. \<open>held\<close> is the table of the masks that the recorded
  allocations hold; the interface \<open>way_pool\<close> of the allocator carries the proofs.
\<close>

subsection \<open>Names\<close>

lemma device_name_parse:
  assumes "in_int c" "0 \<le> c" "in_int n"
  shows "parseCacheWayDeviceName (''cache'' @ show_int c @ ''-'' @ show_int n @ ''way'') = Inr (c, n)"
proof -
  let ?inner = "show_int c @ CHR ''-'' # show_int n"
  have name: "''cache'' @ show_int c @ ''-'' @ show_int n @ ''way'' = ''cache'' @ ?inner @ ''way''"
    "''cache'' @ ?inner @ ''way'' = (''cache'' @ ?inner) @ ''way''"
    by simp_all
  have "has_prefix ''cache'' (''cache'' @ ?inner @ ''way'')" by (rule has_prefix_append)
  moreover have "has_suffix ''way'' (''cache'' @ ?inner @ ''way'')"
    unfolding name(2) by (rule has_suffix_append)
  moreover have "trim_suffix ''way'' (trim_prefix ''cache'' (''cache'' @ ?inner @ ''way'')) = ?inner"
    by (simp only: trim_prefix_append trim_suffix_append)
  moreover have "CHR ''-'' \<notin> set (show_int c)"
    using show_int_nonneg_chars [OF assms(2), of "CHR ''-''"] by auto
  then have "str_split2 (CHR ''-'') ?inner = [show_int c, show_int n]" by (rule str_split2_sep)
  ultimately show ?thesis
    unfolding name(1) parseCacheWayDeviceName_def Let_def using assms by (simp add: atoi_show_int)
qed

subsection \<open>One allocation result\<close>

definition held :: "Driver \<Rightarrow> string \<rightharpoonup> int \<times> 64 word" where
  "held d uid = map_option (\<lambda>a. (saCacheID a, saCbm a)) (structuredAllocs d uid)"

lemma held_upd [simp]:
  "held (d\<lparr>structuredAllocs := m\<rparr>) uid = map_option (\<lambda>a. (saCacheID a, saCbm a)) (m uid)"
  "held (report e d) = held d" "held (d\<lparr>wayAlloc := a\<rparr>) = held d"
  by (auto simp: held_def)

text \<open>What a step does to the allocator and the table, by outcome.\<close>

lemma structured_step_cases:
  assumes "structured_step os root uid result w d = (out, w', d')"
  obtains (skip) "out = Skip" "w' = w" "d' = d"
      "res_driver result = driverName d \<and> res_pool result = nodeName d \<Longrightarrow>
         \<not> is_ok (parseCacheWayDeviceName (res_device result))"
  | (refused) e e' c n where "out = Fail e" "w' = w" "WayAllocate c n (wayAlloc d) = (Inl e', wayAlloc d')"
      "structuredAllocs d' = structuredAllocs d"
      "parseCacheWayDeviceName (res_device result) = Inr (c, n)"
  | (undone) e c n cbm a where "out = Fail e" "WayAllocate c n (wayAlloc d) = (Inr cbm, a)"
      "wayAlloc d' = WayRelease c cbm a" "structuredAllocs d' = structuredAllocs d"
      "parseCacheWayDeviceName (res_device result) = Inr (c, n)"
  | (panics) c n cbm where "out = Panics" "length uid < 8"
      "WayAllocate c n (wayAlloc d) = (Inr cbm, wayAlloc d')" "structuredAllocs d' = structuredAllocs d"
      "parseCacheWayDeviceName (res_device result) = Inr (c, n)"
  | (prepared) dev c n cbm path where "out = Prepared dev" "8 \<le> length uid"
      "WayAllocate c n (wayAlloc d) = (Inr cbm, wayAlloc d')"
      "structuredAllocs d' = (structuredAllocs d)(uid \<mapsto>
         \<lparr>saCacheID = c, saWays = n, saCbm = cbm, saGroup = claim_group c uid, saSpecPath = path\<rparr>)"
      "parseCacheWayDeviceName (res_device result) = Inr (c, n)"
      "res_driver result = driverName d \<and> res_pool result = nodeName d" "pd_device dev = res_device result"
proof -
  consider (no) "res_driver result \<noteq> driverName d \<or> res_pool result \<noteq> nodeName d \<or>
      \<not> is_ok (parseCacheWayDeviceName (res_device result))"
    | (own) c n where "res_driver result = driverName d \<and> res_pool result = nodeName d"
        "parseCacheWayDeviceName (res_device result) = Inr (c, n)"
    by (metis is_ok_iff surj_pair)
  then show thesis
  proof cases
    case no
    then have "structured_step os root uid result w d = (Skip, w, d)"
      by (auto simp: structured_step_def is_ok_def split: sum.splits)
    with assms no show thesis by (intro skip) auto
  next
    case own
    show thesis
    proof (cases "WayAllocate c n (wayAlloc d)")
      case (Pair r a)
      show thesis
      proof (cases r)
        case (Inl e)
        with assms own Pair show thesis
          by (intro refused [of _ c n e]) (auto simp: structured_step_def)
      next
        case (Inr cbm)
        show thesis
        proof (cases "CreateGroup os root (claim_group c uid) (buildStructuredSchemata c (show_hex cbm) 0) w")
          case create: (Pair err w1)
          show thesis
          proof (cases err)
            case (Some e)
            with assms own Pair Inr create show thesis
              by (intro undone [of _ c n cbm a]) (auto simp: structured_step_def Let_def)
          next
            case None
            note ok = own Pair Inr create this
            show thesis
            proof (cases "writeClaimCDISpec os (cdiDir d) (hookBinPath d) uid (claim_group c uid) c n (show_hex cbm) w1")
              case wr: (Pair res w2)
              show thesis
              proof (cases res)
                case panic: None
                then have "length uid < 8"
                  using wr by (auto simp: writeClaimCDISpec_def uid8_def Let_def
                      split: option.splits prod.splits if_splits)
                with assms ok wr panic show thesis
                  by (intro panics [of c n cbm]) (auto simp: structured_step_def Let_def)
              next
                case some: (Some r')
                show thesis
                proof (cases r')
                  case (Inl e)
                  with assms ok wr some show thesis
                    by (intro undone [of _ c n cbm a]) (auto simp: structured_step_def Let_def)
                next
                  case spec: (Inr ids)
                  have "8 \<le> length uid"
                    using wr some spec by (auto simp: writeClaimCDISpec_def uid8_def Let_def
                        split: option.splits prod.splits if_splits)
                  with assms ok wr some spec show thesis
                    by (cases ids) (intro prepared [of _ c n cbm "snd ids"], auto simp: structured_step_def Let_def)
                qed
              qed
            qed
          qed
        qed
      qed
    qed
  qed
qed

subsection \<open>The invariant of structured mode\<close>

definition good_entry :: "(int \<rightharpoonup> int) \<Rightarrow> string \<Rightarrow> structuredAlloc \<Rightarrow> bool" where
  "good_entry tws uid a \<longleftrightarrow> 8 \<le> length uid \<and> saGroup a = claim_group (saCacheID a) uid \<and>
     (\<exists>tw start. tws (saCacheID a) = Some tw \<and> 0 < saWays a \<and> 0 \<le> start \<and> start + saWays a \<le> tw \<and>
        way_set (saCbm a) = run_set start (saWays a))"

definition structured_inv :: "Driver \<Rightarrow> bool" where
  "structured_inv d \<longleftrightarrow> way_inv (wayAlloc d) \<and> holds used_ways (held d) (wayAlloc d) \<and>
     (\<forall>uid a. structuredAllocs d uid = Some a \<longrightarrow> good_entry (totalWays (wayAlloc d)) uid a)"

lemma WayAllocate_total: "WayAllocate c n a = (r, a') \<Longrightarrow> totalWays a' = totalWays a"
  by (auto simp: WayAllocate_def Let_def split: option.splits if_splits)

lemma WayRelease_total [simp]: "totalWays (WayRelease c m a) = totalWays a"
  by (simp add: WayRelease_def)

lemma WayAllocate_inv: "way_inv a \<Longrightarrow> WayAllocate c n a = (r, a') \<Longrightarrow> way_inv a'"
  using ways.alloc_inv [of a c n] by simp

lemma held_same: "structuredAllocs d' = structuredAllocs d \<Longrightarrow> held d' = held d"
  by (simp add: held_def fun_eq_iff)

lemma structured_inv_change:
  assumes "structured_inv d" "structuredAllocs d' = structuredAllocs d"
    and "way_inv (wayAlloc d')" "totalWays (wayAlloc d') = totalWays (wayAlloc d)"
    and "holds used_ways (held d) (wayAlloc d')"
  shows "structured_inv d'"
  using assms held_same [OF assms(2)] by (simp add: structured_inv_def)

lemma structured_step_inv:
  assumes "structured_inv d" "structured_step os root uid result w d = (out, w', d')"
  shows "structured_inv d'"
proof -
  have inv: "way_inv (wayAlloc d)" "holds used_ways (held d) (wayAlloc d)"
    and entries: "\<And>u a. structuredAllocs d u = Some a \<Longrightarrow> good_entry (totalWays (wayAlloc d)) u a"
    using assms(1) by (auto simp: structured_inv_def)
  from assms(2) show ?thesis
  proof (cases rule: structured_step_cases)
    case skip
    with assms(1) show ?thesis by simp
  next
    case (refused e e' c n)
    have "wayAlloc d' = wayAlloc d" by (rule WayAllocate_Inl [OF refused(3)])
    with inv show ?thesis by (intro structured_inv_change [OF assms(1) refused(4)]) simp_all
  next
    case (undone e c n cbm a)
    have "holds used_ways (held d) (WayRelease c cbm a)"
      using ways.holds_rollback [OF inv undone(2)] .
    then show ?thesis
      using WayAllocate_inv [OF inv(1) undone(2)] WayAllocate_total [OF undone(2)]
      by (intro structured_inv_change [OF assms(1) undone(4)]) (simp_all add: undone(3))
  next
    case (panics c n cbm)
    show ?thesis
      using ways.holds_mono_alloc [OF inv panics(3)] WayAllocate_inv [OF inv(1) panics(3)]
        WayAllocate_total [OF panics(3)]
      by (intro structured_inv_change [OF assms(1) panics(4)])
  next
    case (prepared dev c n cbm path)
    have tot: "totalWays (wayAlloc d') = totalWays (wayAlloc d)" by (rule WayAllocate_total [OF prepared(3)])
    have "held d' = (held d)(uid \<mapsto> (c, cbm))" using prepared(4) by (auto simp: held_def)
    then have "holds used_ways (held d') (wayAlloc d')"
      using ways.holds_alloc [OF inv prepared(3), of uid] by simp
    moreover have "good_entry (totalWays (wayAlloc d)) uid
        \<lparr>saCacheID = c, saWays = n, saCbm = cbm, saGroup = claim_group c uid, saSpecPath = path\<rparr>"
      by (rule WayAllocate_Inr [OF inv(1) prepared(3)]) (use prepared(2) in \<open>auto simp: good_entry_def\<close>)
    ultimately show ?thesis
      using prepared entries WayAllocate_inv [OF inv(1) prepared(3)] tot
      by (simp add: structured_inv_def)
  qed
qed

lemma structured_loop_inv:
  "structured_inv d \<Longrightarrow> structured_loop os root uid results devices w d = (r, w', d') \<Longrightarrow> structured_inv d'"
proof (induction results arbitrary: devices w d)
  case (Cons result results)
  obtain out w1 d1 where st: "structured_step os root uid result w d = (out, w1, d1)"
    using prod_cases3 by blast
  have "structured_inv d1" by (rule structured_step_inv [OF Cons.prems(1) st])
  with Cons st show ?case by (cases out) auto
qed simp

lemma structured_inv_report [simp]: "structured_inv (report e d) = structured_inv d"
  by (simp add: structured_inv_def)

lemma prepareClaimStructured_inv:
  assumes "structured_inv d" "prepareClaimStructured os kube root claim w d = (r, w', d')"
  shows "structured_inv d'"
proof (cases "kube_get_claim kube w (kc_namespace claim) (kc_name claim)")
  case (Inl e)
  with assms show ?thesis by (auto simp: prepareClaimStructured_def)
next
  case (Inr rc)
  show ?thesis
  proof (cases "claim_allocation rc")
    case None
    with Inr assms show ?thesis by (auto simp: prepareClaimStructured_def)
  next
    case (Some results)
    obtain r1 w1 d1 where l: "structured_loop os root (kc_uid claim) results [] w d = (r1, w1, d1)"
      using prod_cases3 by blast
    with Inr Some assms structured_loop_inv [OF assms(1) l] show ?thesis
      by (auto simp: prepareClaimStructured_def split: option.splits sum.splits if_splits)
  qed
qed

lemma unprepareClaimStructured_Some:
  assumes "structuredAllocs d (kc_uid claim) = Some a"
  shows "wayAlloc (snd (unprepareClaimStructured os root claim w d)) =
      WayRelease (saCacheID a) (saCbm a) (wayAlloc d)"
    and "structuredAllocs (snd (unprepareClaimStructured os root claim w d)) =
      (structuredAllocs d)(kc_uid claim := None)"
  using assms by (simp_all add: unprepareClaimStructured_def case_prod_unfold Let_def)

lemma unprepareClaimStructured_None:
  assumes "structuredAllocs d (kc_uid claim) = None"
  shows "unprepareClaimStructured os root claim w d = (w, report (Inc UnprepareTotal [''success'']) d)"
  using assms by (simp add: unprepareClaimStructured_def)

lemma unprepareClaimStructured_inv:
  assumes "structured_inv d"
  shows "structured_inv (snd (unprepareClaimStructured os root claim w d))"
proof (cases "structuredAllocs d (kc_uid claim)")
  case None
  then show ?thesis using assms by (simp add: unprepareClaimStructured_None)
next
  case (Some a)
  note u = unprepareClaimStructured_Some [OF Some, of os root w]
  let ?d' = "snd (unprepareClaimStructured os root claim w d)"
  have h: "held d (kc_uid claim) = Some (saCacheID a, saCbm a)" using Some by (simp add: held_def)
  have "held ?d' = (held d)(kc_uid claim := None)" by (auto simp: held_def u(2))
  moreover have "holds used_ways (held d) (wayAlloc d)" using assms by (simp add: structured_inv_def)
  ultimately have "holds used_ways (held ?d') (wayAlloc ?d')"
    using ways.holds_release [where h = "held d" and k = "kc_uid claim", OF _ h] by (simp add: u(1))
  moreover have "good_entry (totalWays (wayAlloc ?d')) uid b" if "structuredAllocs ?d' uid = Some b" for uid b
    using that assms unfolding u structured_inv_def by (auto split: if_splits)
  ultimately show ?thesis using assms u by (simp add: structured_inv_def)
qed

text \<open>
  Everything a structured-mode driver can go through: recovery of the allocator, prepare and
  unprepare calls for any claims, in any order, with the file system and the API server in any
  state at each call. A prepare call that panics ends the process.
\<close>

inductive structured_run :: "'w os \<Rightarrow> Driver \<Rightarrow> Driver \<Rightarrow> bool" for os d0 where
  start: "structured_run os d0 d0"
| recover: "structured_run os d0 d \<Longrightarrow> structured_run os d0 (RecoverStructuredAllocs os root w d)"
| prepare: "structured_run os d0 d \<Longrightarrow> prepareClaimStructured os kube root claim w d = (Some r, w', d') \<Longrightarrow>
    structured_run os d0 d'"
| unprepare: "structured_run os d0 d \<Longrightarrow>
    structured_run os d0 (snd (unprepareClaimStructured os root claim w d))"

subsection \<open>Runs on the in-memory file system\<close>

definition writable :: "memfs \<Rightarrow> bool" where
  "writable w \<longleftrightarrow> (\<forall>f \<in> set (mem_files w). snd f \<noteq> ''readonly'')"

lemma mem_mkdir_ok:
  "writable w \<Longrightarrow> \<exists>w'. os_mkdir_all mem_os w p = (None, w') \<and> writable w'"
  by (simp add: mem_os_def mem_mkdir_all_def writable_def)

lemma mem_write_ok:
  assumes "writable w" "data \<noteq> ''readonly''"
  shows "\<exists>w'. os_write_file mem_os w p data = (None, w') \<and> writable w'"
proof -
  have "map_of (mem_files w) p \<noteq> Some ''readonly''"
    using assms(1) map_of_SomeD [of "mem_files w" p "''readonly''"] unfolding writable_def by fastforce
  with assms show ?thesis by (simp add: mem_os_def mem_write_file_def writable_def)
qed

lemma mem_create_ok:
  assumes "writable w"
  shows "\<exists>w'. CreateGroup mem_os root g s w = (None, w') \<and> writable w'"
proof -
  obtain w1 where w1: "os_mkdir_all mem_os w (path_join [root, g]) = (None, w1)" "writable w1"
    using mem_mkdir_ok [OF assms] by blast
  have "last (s @ [newline]) \<noteq> last ''readonly''" by simp
  then have "s @ [newline] \<noteq> ''readonly''" by metis
  then obtain w2 where "os_write_file mem_os w1 (path_join [path_join [root, g], ''schemata'']) (s @ [newline]) = (None, w2)"
    "writable w2"
    using mem_write_ok [OF w1(2)] by blast
  with w1 show ?thesis by (simp add: CreateGroup_def Let_def)
qed

lemma mem_claim_spec_ok:
  assumes "writable w" "8 \<le> length uid"
  shows "\<exists>ids w'. writeClaimCDISpec mem_os cdi hook uid g c n hex w = (Some (Inr ids), w') \<and> writable w'"
proof -
  obtain w1 where w1: "os_mkdir_all mem_os w cdi = (None, w1)" "writable w1"
    using mem_mkdir_ok [OF assms(1)] by blast
  have "MarshalSpec sp \<noteq> ''readonly''" for sp
    by (simp add: MarshalSpec_def spec_json_def)
  then have "\<exists>w2. os_write_file mem_os w1 q (MarshalSpec sp) = (None, w2) \<and> writable w2" for q sp
    using mem_write_ok [OF w1(2)] by blast
  then obtain f where f: "os_write_file mem_os w1 q (MarshalSpec sp) = (None, f q sp)" "writable (f q sp)" for q sp
    by metis
  have "uid8 uid = Some (take 8 uid)" using assms(2) by (simp add: uid8_def)
  then show ?thesis by (simp add: writeClaimCDISpec_def Let_def w1 f)
qed

text \<open>A claim with one device, whose ways are free, is prepared.\<close>

lemma mem_prepare_gen:
  assumes "writable w" "8 \<le> length (kc_uid claim)" "res_driver r0 = driverName d" "res_pool r0 = nodeName d"
    and "parseCacheWayDeviceName (res_device r0) = Inr (c, n)" "WayAllocate c n (wayAlloc d) = (Inr cbm, a)"
    and "kube_get_claim kube w (kc_namespace claim) (kc_name claim) = Inr rc" "claim_allocation rc = Some [r0]"
  obtains r w' d' path where
    "prepareClaimStructured mem_os kube root claim w d = (Some r, w', d')"
    "pr_error r = None" "writable w'" "wayAlloc d' = a" "driverName d' = driverName d" "nodeName d' = nodeName d"
    "structuredAllocs d' = (structuredAllocs d)(kc_uid claim \<mapsto>
       \<lparr>saCacheID = c, saWays = n, saCbm = cbm, saGroup = claim_group c (kc_uid claim), saSpecPath = path\<rparr>)"
proof -
  let ?uid = "kc_uid claim"
  obtain w1 where w1: "CreateGroup mem_os root (claim_group c ?uid) (buildStructuredSchemata c (show_hex cbm) 0) w = (None, w1)"
    "writable w1"
    using mem_create_ok [OF assms(1)] by blast
  obtain ids w2 where w2: "writeClaimCDISpec mem_os (cdiDir d) (hookBinPath d) ?uid (claim_group c ?uid) c n (show_hex cbm) w1 =
      (Some (Inr ids), w2)" "writable w2"
    using mem_claim_spec_ok [OF w1(2) assms(2)] by blast
  obtain i path where ids: "ids = (i, path)" by fastforce
  let ?d1 = "report (Inc ResctrlGroupCreateTotal [''success'']) (d\<lparr>wayAlloc := a\<rparr>)"
  let ?d2 = "?d1\<lparr>structuredAllocs := (structuredAllocs ?d1)(?uid \<mapsto>
       \<lparr>saCacheID = c, saWays = n, saCbm = cbm, saGroup = claim_group c ?uid, saSpecPath = path\<rparr>)\<rparr>"
  let ?dev = "\<lparr>pd_requests = [res_request r0], pd_pool = res_pool r0, pd_device = res_device r0, pd_cdi_ids = [i]\<rparr>"
  have "structured_step mem_os root ?uid r0 w d = (Prepared ?dev, w2, ?d2)"
    by (simp add: structured_step_def Let_def assms(3-6) w1(1) w2(1) [unfolded ids])
  then have "prepareClaimStructured mem_os kube root claim w d =
      (Some \<lparr>pr_devices = [?dev], pr_error = None\<rparr>, w2, report (Inc PrepareTotal [''success'']) ?d2)"
    by (simp add: prepareClaimStructured_def assms(7,8))
  then show thesis by (rule that) (simp_all add: w2(2))
qed

lemma mem_prepare:
  assumes "writable w" "8 \<le> length uid" "driverName d = ''drv''" "nodeName d = ''node1''"
    and "parseCacheWayDeviceName dev = Inr (c, n)" "WayAllocate c n (wayAlloc d) = (Inr cbm, a)"
  obtains r w' d' path where
    "prepareClaimStructured mem_os (list_kube [ex_claim uid dev]) root (ex_kclaim uid) w d = (Some r, w', d')"
    "pr_error r = None" "writable w'" "wayAlloc d' = a" "driverName d' = ''drv''" "nodeName d' = ''node1''"
    "structuredAllocs d' = (structuredAllocs d)(uid \<mapsto>
       \<lparr>saCacheID = c, saWays = n, saCbm = cbm, saGroup = claim_group c uid, saSpecPath = path\<rparr>)"
proof -
  let ?r = "\<lparr>res_request = ''cache'', res_driver = ''drv'', res_pool = ''node1'', res_device = dev\<rparr>"
  have kc: "kc_uid (ex_kclaim uid) = uid" by (simp add: ex_kclaim_def)
  have get: "kube_get_claim (list_kube [ex_claim uid dev]) w (kc_namespace (ex_kclaim uid)) (kc_name (ex_kclaim uid)) =
      Inr (ex_claim uid dev)"
    by (simp add: list_kube_def ex_kclaim_def ex_claim_def)
  have al: "claim_allocation (ex_claim uid dev) = Some [?r]" by (simp add: ex_claim_def)
  show thesis
    by (rule mem_prepare_gen [OF assms(1) _ _ _ _ assms(6) get al, of root])
      (auto simp: kc assms(2-5) intro: that)
qed

subsection \<open>Recovery of the allocator\<close>

text \<open>Reading masks back only adds ways and domains.\<close>

definition grows :: "(int \<rightharpoonup> 64 word) \<Rightarrow> (int \<rightharpoonup> 64 word) \<Rightarrow> bool" where
  "grows al al' \<longleftrightarrow> dom al \<subseteq> dom al' \<and> (\<forall>c. way_set (map_get 0 al c) \<subseteq> way_set (map_get 0 al' c))"

lemma grows_refl: "grows al al"
  by (simp add: grows_def)

lemma grows_trans: "grows a b \<Longrightarrow> grows b c \<Longrightarrow> grows a c"
  unfolding grows_def by blast

lemma grows_fold: "(\<And>x al. grows al (f x al)) \<Longrightarrow> grows al (fold f xs al)"
proof (induction xs arbitrary: al)
  case (Cons x xs)
  have "grows al (f x al)" by (rule Cons.prems)
  moreover have "grows (f x al) (fold f xs (f x al))" by (rule Cons.IH [OF Cons.prems])
  ultimately show ?case by (auto intro: grows_trans)
qed (simp add: grows_refl)

lemma grows_segment: "grows al (rebuild_segment seg al)"
  by (auto simp: rebuild_segment_def grows_def split: option.splits)

lemma grows_line: "grows al (rebuild_line l al)"
  by (simp add: rebuild_line_def Let_def grows_refl grows_fold grows_segment)

lemma grows_entry: "grows al (rebuild_entry os w root pre e al)"
  by (auto simp: rebuild_entry_def rebuild_data_def grows_refl grows_fold grows_line split: sum.splits)

lemma RebuildFromResctrl_grows:
  "totalWays (snd (RebuildFromResctrl os w root pre a)) = totalWays a"
  "grows (allocated a) (allocated (snd (RebuildFromResctrl os w root pre a)))"
  by (auto simp: RebuildFromResctrl_def grows_refl grows_fold grows_entry split: sum.splits)

lemma RecoverStructuredAllocs_facts:
  "structuredAllocs (RecoverStructuredAllocs os root w d) = structuredAllocs d"
  "totalWays (wayAlloc (RecoverStructuredAllocs os root w d)) = totalWays (wayAlloc d)"
  "grows (allocated (wayAlloc d)) (allocated (wayAlloc (RecoverStructuredAllocs os root w d)))"
  by (simp_all add: RecoverStructuredAllocs_def RebuildFromResctrl_grows grows_refl)

lemma RecoverStructuredAllocs_inv:
  assumes "structured_inv d"
  shows "structured_inv (RecoverStructuredAllocs os root w d)"
proof -
  let ?d = "RecoverStructuredAllocs os root w d"
  have g: "dom (allocated (wayAlloc d)) \<subseteq> dom (allocated (wayAlloc ?d))"
    "used_ways (wayAlloc d) c \<subseteq> used_ways (wayAlloc ?d) c" for c
    using RecoverStructuredAllocs_facts(3) [of d os root w] by (auto simp: grows_def used_ways_def)
  have inv: "way_inv (wayAlloc d)" "holds used_ways (held d) (wayAlloc d)"
    using assms by (simp_all add: structured_inv_def)
  have "way_inv (wayAlloc ?d)"
    using inv(1) g(1) unfolding way_inv_def RecoverStructuredAllocs_facts(2) by blast
  moreover have "holds used_ways (held d) (wayAlloc ?d)"
    using inv(2) g(2) unfolding holds_def by blast
  ultimately show ?thesis
    by (intro structured_inv_change [OF assms]) (simp_all add: RecoverStructuredAllocs_facts)
qed

lemma structured_run_inv: "structured_run os d0 d \<Longrightarrow> structured_inv d0 \<Longrightarrow> structured_inv d"
  by (induction rule: structured_run.induct)
    (auto simp: RecoverStructuredAllocs_inv prepareClaimStructured_inv unprepareClaimStructured_inv)

lemma structured_inv_fresh:
  "way_inv (wayAlloc d) \<Longrightarrow> structuredAllocs d = Map.empty \<Longrightarrow> structured_inv d"
  using ways.holds_empty [of "wayAlloc d"]
  by (auto simp: structured_inv_def held_def holds_def)

definition ex_fs :: memfs where "ex_fs = \<lparr>mem_dirs = [''/r''], mem_files = []\<rparr>"

lemma ex_fs_writable: "writable ex_fs"
  by (simp add: writable_def ex_fs_def)

lemma pool20_second: "fst (WayAllocate 0 3 (snd (WayAllocate 0 5 pool20))) = Inr 0xe0"
  by (simp add: pool20_def way_evals)

lemma ex_names:
  "parseCacheWayDeviceName ''cache0-5way'' = Inr (0, 5)" "parseCacheWayDeviceName ''cache0-3way'' = Inr (0, 3)"
  using device_name_parse [of 0 5] device_name_parse [of 0 3] by (simp_all add: show_evals in_int_small)

text \<open>A driver that has prepared one claim for five ways.\<close>

lemma one_prepared:
  obtains r w' d path where
    "prepareClaimStructured mem_os (list_kube [ex_claim ''uid-0001'' ''cache0-5way'']) ''/r''
       (ex_kclaim ''uid-0001'') ex_fs (ex_driver True pool20) = (Some r, w', d)"
    "pr_error r = None" "writable w'" "wayAlloc d = snd (WayAllocate 0 5 pool20)"
    "driverName d = ''drv''" "nodeName d = ''node1''"
    "structuredAllocs d = [''uid-0001'' \<mapsto>
       \<lparr>saCacheID = 0, saWays = 5, saCbm = 0x1f, saGroup = claim_group 0 ''uid-0001'', saSpecPath = path\<rparr>]"
proof -
  have al: "WayAllocate 0 5 (wayAlloc (ex_driver True pool20)) = (Inr 0x1f, snd (WayAllocate 0 5 pool20))"
    using pool20_allocate by (simp add: prod_eq_iff)
  show thesis
    by (rule mem_prepare [OF ex_fs_writable _ _ _ ex_names(1) al, of "''uid-0001''" "''/r''"])
      (auto intro: that)
qed

lemma two_prepared:
  obtains d a b where "structured_run mem_os (ex_driver True pool20) d"
    "structuredAllocs d ''uid-0001'' = Some a" "structuredAllocs d ''uid-0002'' = Some b"
    "saCacheID a = 0" "saCacheID b = 0"
proof -
  obtain r w1 d1 path where p1: "prepareClaimStructured mem_os (list_kube [ex_claim ''uid-0001'' ''cache0-5way'']) ''/r''
       (ex_kclaim ''uid-0001'') ex_fs (ex_driver True pool20) = (Some r, w1, d1)"
    and d1: "writable w1" "wayAlloc d1 = snd (WayAllocate 0 5 pool20)" "driverName d1 = ''drv''" "nodeName d1 = ''node1''"
    "structuredAllocs d1 = [''uid-0001'' \<mapsto>
       \<lparr>saCacheID = 0, saWays = 5, saCbm = 0x1f, saGroup = claim_group 0 ''uid-0001'', saSpecPath = path\<rparr>]"
    by (rule one_prepared)
  have al: "WayAllocate 0 3 (wayAlloc d1) = (Inr 0xe0, snd (WayAllocate 0 3 (wayAlloc d1)))"
    using pool20_second by (simp add: d1(2) prod_eq_iff)
  obtain r' w2 d2 path' where p2: "prepareClaimStructured mem_os (list_kube [ex_claim ''uid-0002'' ''cache0-3way'']) ''/r''
       (ex_kclaim ''uid-0002'') w1 d1 = (Some r', w2, d2)"
    and d2: "structuredAllocs d2 = (structuredAllocs d1)(''uid-0002'' \<mapsto>
       \<lparr>saCacheID = 0, saWays = 3, saCbm = 0xe0, saGroup = claim_group 0 ''uid-0002'', saSpecPath = path'\<rparr>)"
    by (rule mem_prepare [OF d1(1) _ d1(3,4) ex_names(2) al, of "''uid-0002''" "''/r''"]) auto
  have "structured_run mem_os (ex_driver True pool20) d2"
    by (rule structured_run.prepare [OF structured_run.prepare [OF structured_run.start p1] p2])
  with d1(5) d2 show thesis by (intro that [of d2]) auto
qed

text \<open>
  Isolation in structured mode. Whatever sequence of recoveries, prepare and unprepare calls
  a driver goes through, with the file system and the API server in any state, the recorded
  allocations of two different claims in one cache domain never share a way; every recorded mask
  is a run of the claimed number of ways inside the domain, and its ways are marked as used.
\<close>

theorem structured_isolation:
  assumes "structured_run os d0 d" "way_inv (wayAlloc d0)" "structuredAllocs d0 = Map.empty"
    and "structuredAllocs d u = Some a" "structuredAllocs d v = Some b"
    and "u \<noteq> v" "saCacheID a = saCacheID b"
  shows "way_set (saCbm a) \<inter> way_set (saCbm b) = {} \<and>
    way_set (saCbm a) \<subseteq> used_ways (wayAlloc d) (saCacheID a) \<and>
    (\<exists>tw start. totalWays (wayAlloc d) (saCacheID a) = Some tw \<and> 0 \<le> start \<and>
       start + saWays a \<le> tw \<and> way_set (saCbm a) = run_set start (saWays a))"
proof -
  have inv: "structured_inv d"
    using structured_run_inv [OF assms(1)] structured_inv_fresh [OF assms(2,3)] by blast
  have "held d u = Some (saCacheID a, saCbm a)" "held d v = Some (saCacheID a, saCbm b)"
    using assms(4,5,7) by (simp_all add: held_def)
  with inv assms(6) have "way_set (saCbm a) \<inter> way_set (saCbm b) = {}"
    "way_set (saCbm a) \<subseteq> used_ways (wayAlloc d) (saCacheID a)"
    unfolding structured_inv_def holds_def by blast+
  moreover have "good_entry (totalWays (wayAlloc d)) u a"
    using inv assms(4) by (auto simp: structured_inv_def)
  ultimately show ?thesis by (auto simp: good_entry_def)
qed

theorem structured_isolation_witness:
  "\<exists>d a b. structured_run mem_os (ex_driver True pool20) d \<and>
     structuredAllocs d ''uid-0001'' = Some a \<and> structuredAllocs d ''uid-0002'' = Some b \<and>
     way_set (saCbm a) \<inter> way_set (saCbm b) = {}"
proof -
  obtain d a b where d: "structured_run mem_os (ex_driver True pool20) d"
    "structuredAllocs d ''uid-0001'' = Some a" "structuredAllocs d ''uid-0002'' = Some b"
    "saCacheID a = 0" "saCacheID b = 0"
    by (rule two_prepared)
  have "way_inv (wayAlloc (ex_driver True pool20))" "structuredAllocs (ex_driver True pool20) = Map.empty"
    by simp_all
  from structured_isolation [OF d(1) this d(2,3)] d show ?thesis by auto
qed

text \<open>
  A step that fails gives its ways back: after a refused allocation, a failed group creation
  or a failed CDI write, every domain has the same ways in use and the table of allocations is
  unchanged.
\<close>

theorem failed_step_rolls_back:
  assumes "way_inv (wayAlloc d)"
    and "structured_step os root uid result w d = (Fail e, w', d')"
  shows "used_ways (wayAlloc d') = used_ways (wayAlloc d) \<and> structuredAllocs d' = structuredAllocs d"
  using assms(2)
proof (cases rule: structured_step_cases)
  case (refused e e' c n)
  then show ?thesis using WayAllocate_Inl [OF refused(3)] by simp
next
  case (undone e c n cbm a)
  then show ?thesis using ways.alloc_release [OF assms(1) undone(2)] by (auto simp: fun_eq_iff)
qed simp_all

definition ro_fs :: memfs where
  "ro_fs = \<lparr>mem_dirs = [''/r''], mem_files = [(''/r/dra-c0-uid0001/schemata'', ''readonly'')]\<rparr>"

definition ex_result :: alloc_result where
  "ex_result = \<lparr>res_request = ''cache'', res_driver = ''drv'', res_pool = ''node1'', res_device = ''cache0-5way''\<rparr>"

lemma ro_create:
  "\<exists>e w'. CreateGroup mem_os ''/r'' (claim_group 0 ''uid-0001'') s ro_fs = (Some e, w')  \<or> s = []"
  by (simp add: CreateGroup_def claim_group_def sanitizeUID_def str_remove_def show_evals Let_def go_eval
      path_join_def path_clean_def render_path_def ro_fs_def)

theorem failed_step_rolls_back_witness:
  "\<exists>e w' d'. structured_step mem_os ''/r'' ''uid-0001'' ex_result ro_fs (ex_driver True pool20) = (Fail e, w', d') \<and>
     used_ways (wayAlloc d') = used_ways pool20 \<and> structuredAllocs d' = Map.empty"
proof -
  obtain a1 where al: "WayAllocate 0 5 pool20 = (Inr 0x1f, a1)"
    using pool20_allocate by (metis prod.collapse)
  have "buildStructuredSchemata 0 (show_hex 0x1f) 0 \<noteq> []" by (simp add: buildStructuredSchemata_def)
  then obtain e w' where "CreateGroup mem_os ''/r'' (claim_group 0 ''uid-0001'')
      (buildStructuredSchemata 0 (show_hex 0x1f) 0) ro_fs = (Some e, w')"
    using ro_create by blast
  then obtain e' d' where st: "structured_step mem_os ''/r'' ''uid-0001'' ex_result ro_fs (ex_driver True pool20) =
      (Fail e', w', d')"
    by (simp add: structured_step_def ex_result_def ex_names al Let_def)
  have "way_inv (wayAlloc (ex_driver True pool20))" by simp
  from failed_step_rolls_back [OF this st] st show ?thesis by simp
qed

subsection \<open>Panics\<close>

lemma targets_of_ok:
  "(\<And>uid a. m uid = Some a \<Longrightarrow> 8 \<le> length uid) \<Longrightarrow> \<exists>ts. targets_of order m = Some ts"
proof (induction order)
  case (Cons uid order)
  then obtain ts where "targets_of order m = Some ts" by blast
  moreover have "uid8 uid \<noteq> None" if "m uid = Some a" for a
    using Cons.prems [OF that] by (simp add: uid8_def)
  ultimately show ?case by (cases "m uid") (auto split: option.splits)
qed simp

lemma structured_loop_panics:
  "structured_loop os root uid results devices w d = (None, w', d') \<Longrightarrow> length uid < 8"
proof (induction results arbitrary: devices w d)
  case (Cons result results)
  obtain out w1 d1 where st: "structured_step os root uid result w d = (out, w1, d1)"
    using prod_cases3 by blast
  show ?case
  proof (cases out)
    case Panics
    from st show ?thesis by (cases rule: structured_step_cases) (use Panics in simp_all)
  qed (use Cons st in auto)
qed simp

text \<open>
  The monitor's view never panics: in every state that a structured-mode driver can reach,
  \<open>StructuredTargets\<close> returns, in whatever order the table is ranged over, although it slices
  the claim UIDs; and a prepare call panics only for a claim whose UID is shorter than eight bytes.
\<close>

theorem structured_never_panics:
  assumes "structured_run os d0 d" "way_inv (wayAlloc d0)" "structuredAllocs d0 = Map.empty"
  shows "StructuredTargets order d \<noteq> None \<and>
    (fst (prepareClaimStructured os kube root claim w d) = None \<longrightarrow> length (kc_uid claim) < 8)"
proof -
  have inv: "structured_inv d"
    using structured_run_inv [OF assms(1)] structured_inv_fresh [OF assms(2,3)] by blast
  have "StructuredTargets order d \<noteq> None"
    using targets_of_ok [of "structuredAllocs d" order] inv
    by (force simp: StructuredTargets_def structured_inv_def good_entry_def)
  moreover have "length (kc_uid claim) < 8" if "fst (prepareClaimStructured os kube root claim w d) = None"
    using that structured_loop_panics [of os root "kc_uid claim" _ "[]" w d]
    by (auto simp: prepareClaimStructured_def split: option.splits sum.splits if_splits prod.splits)
  ultimately show ?thesis by blast
qed

theorem structured_never_panics_witness:
  "\<exists>d a. structured_run mem_os (ex_driver True pool20) d \<and> structuredAllocs d ''uid-0001'' = Some a \<and>
     StructuredTargets [''uid-0002'', ''uid-0001''] d \<noteq> None"
proof -
  obtain d a b where d: "structured_run mem_os (ex_driver True pool20) d"
    "structuredAllocs d ''uid-0001'' = Some a"
    by (rule two_prepared)
  have "way_inv (wayAlloc (ex_driver True pool20))" "structuredAllocs (ex_driver True pool20) = Map.empty"
    by simp_all
  from structured_never_panics [OF d(1) this] d(2) d(1) show ?thesis by blast
qed

subsection \<open>Claims with one cache device\<close>

definition way_results :: "Driver \<Rightarrow> ResourceClaim \<Rightarrow> alloc_result list" where
  "way_results d rc =
     filter (\<lambda>r. is_ok (parseCacheWayDeviceName (res_device r))) (own_results (driverName d) (nodeName d) rc)"

lemma structured_step_names:
  "structured_step os root uid result w d = (out, w', d') \<Longrightarrow> driverName d' = driverName d \<and> nodeName d' = nodeName d"
  by (auto simp: structured_step_def Let_def
      split: if_splits sum.splits prod.splits option.splits)

lemma structured_loop_filter:
  "driverName d = drv \<Longrightarrow> nodeName d = node \<Longrightarrow>
   structured_loop os root uid results devices w d =
     structured_loop os root uid
       (filter (\<lambda>r. is_ok (parseCacheWayDeviceName (res_device r)))
         (filter (\<lambda>r. res_driver r = drv \<and> res_pool r = node) results)) devices w d"
proof (induction results arbitrary: devices w d)
  case (Cons result results)
  show ?case
  proof (cases "res_driver result = drv \<and> res_pool result = node \<and> is_ok (parseCacheWayDeviceName (res_device result))")
    case True
    obtain out w1 d1 where st: "structured_step os root uid result w d = (out, w1, d1)"
      using prod_cases3 by blast
    with structured_step_names [OF st] Cons True show ?thesis by (cases out) auto
  next
    case False
    then have "structured_step os root uid result w d = (Skip, w, d)"
      using Cons.prems by (auto simp: structured_step_def is_ok_def split: sum.splits)
    with Cons False show ?thesis by auto
  qed
qed simp

lemma single_prepare:
  assumes "kube_get_claim kube w (kc_namespace claim) (kc_name claim) = Inr rc" "way_results d rc = [r0]"
    and "prepareClaimStructured os kube root claim w d = (Some r, w', d')" "pr_error r = None"
  obtains c n cbm path where "parseCacheWayDeviceName (res_device r0) = Inr (c, n)"
    "WayAllocate c n (wayAlloc d) = (Inr cbm, wayAlloc d')"
    "structuredAllocs d' = (structuredAllocs d)(kc_uid claim \<mapsto>
       \<lparr>saCacheID = c, saWays = n, saCbm = cbm, saGroup = claim_group c (kc_uid claim), saSpecPath = path\<rparr>)"
    "driverName d' = driverName d" "nodeName d' = nodeName d"
proof -
  obtain results where res: "claim_allocation rc = Some results"
    using assms(2) by (auto simp: way_results_def own_results_def split: option.splits)
  have loop: "structured_loop os root (kc_uid claim) results [] w d =
      structured_loop os root (kc_uid claim) [r0] [] w d"
    using structured_loop_filter [OF refl refl, of os root "kc_uid claim" results "[]" w d] assms(2) res
    by (simp add: way_results_def own_results_def)
  obtain out w1 d1 where st: "structured_step os root (kc_uid claim) r0 w d = (out, w1, d1)"
    using prod_cases3 by blast
  have eq: "prepareClaimStructured os kube root claim w d =
      (case structured_loop os root (kc_uid claim) [r0] [] w d of
             (None, w1, d1) \<Rightarrow> (None, w1, d1)
           | (Some (Inl e), w1, d1) \<Rightarrow> (Some (error_response e), w1, d1)
           | (Some (Inr devices), w1, d1) \<Rightarrow>
               if devices = [] then
                 (Some (error_response (Errorf ''no cache-way devices for driver %s in claim %s''
                    [ArgStr (driverName d), ArgStr (kc_uid claim)])),
                  w1, report (Inc PrepareTotal [''error'']) d1)
               else (Some \<lparr>pr_devices = devices, pr_error = None\<rparr>, w1,
                     report (Inc PrepareTotal [''success'']) d1))"
    by (simp only: prepareClaimStructured_def assms(1) res loop sum.case option.case)
  obtain dev where out: "out = Prepared dev" "d' = report (Inc PrepareTotal [''success'']) d1"
    using assms(3,4) st unfolding eq by (cases out) (auto simp: error_response_def)
  from st show thesis
  proof (cases rule: structured_step_cases)
    case (prepared dev' c n cbm path)
    with out structured_step_names [OF st] show thesis by (intro that [of c n cbm path]) simp_all
  qed (use out in simp_all)
qed

text \<open>
  Structured prepare and unprepare are inverse: a claim with one cache device that had no
  allocation is prepared and then unprepared, in whatever state the file system is by then, and
  every cache domain has the ways in use and the table the entries that they had before.
\<close>

theorem structured_roundtrip:
  assumes "way_inv (wayAlloc d)"
    and "kube_get_claim kube w (kc_namespace claim) (kc_name claim) = Inr rc" "way_results d rc = [r0]"
    and "prepareClaimStructured os kube root claim w d = (Some r, w1, d1)" "pr_error r = None"
    and "structuredAllocs d (kc_uid claim) = None"
  shows "used_ways (wayAlloc (snd (unprepareClaimStructured os root claim w2 d1))) = used_ways (wayAlloc d) \<and>
    structuredAllocs (snd (unprepareClaimStructured os root claim w2 d1)) = structuredAllocs d"
proof -
  obtain c n cbm path where al: "WayAllocate c n (wayAlloc d) = (Inr cbm, wayAlloc d1)"
    and t: "structuredAllocs d1 = (structuredAllocs d)(kc_uid claim \<mapsto>
       \<lparr>saCacheID = c, saWays = n, saCbm = cbm, saGroup = claim_group c (kc_uid claim), saSpecPath = path\<rparr>)"
    by (rule single_prepare [OF assms(2-5)])
  from t have "structuredAllocs d1 (kc_uid claim) =
      Some \<lparr>saCacheID = c, saWays = n, saCbm = cbm, saGroup = claim_group c (kc_uid claim), saSpecPath = path\<rparr>"
    by simp
  note u = unprepareClaimStructured_Some [OF this, of os root w2]
  have "used_ways (WayRelease c cbm (wayAlloc d1)) = used_ways (wayAlloc d)"
    using ways.alloc_release [OF assms(1) al] by (simp add: fun_eq_iff)
  moreover have "(structuredAllocs d1)(kc_uid claim := None) = structuredAllocs d"
    using t assms(6) by auto
  ultimately show ?thesis using u by simp
qed

lemma ex_way_results:
  "driverName d = ''drv'' \<Longrightarrow> nodeName d = ''node1'' \<Longrightarrow>
     way_results d (ex_claim ''uid-0001'' ''cache0-5way'') = [ex_result]"
  by (simp add: way_results_def own_results_ex ex_result_def ex_names)

lemma ex_get_structured:
  "kube_get_claim (list_kube [ex_claim uid dev]) w (kc_namespace (ex_kclaim uid)) (kc_name (ex_kclaim uid)) =
     Inr (ex_claim uid dev)"
  by (simp add: list_kube_def ex_kclaim_def ex_claim_def)

theorem structured_roundtrip_witness:
  "\<exists>r w1 d1. prepareClaimStructured mem_os (list_kube [ex_claim ''uid-0001'' ''cache0-5way'']) ''/r''
       (ex_kclaim ''uid-0001'') ex_fs (ex_driver True pool20) = (Some r, w1, d1) \<and>
     structuredAllocs d1 ''uid-0001'' \<noteq> None \<and>
     used_ways (wayAlloc (snd (unprepareClaimStructured mem_os ''/r'' (ex_kclaim ''uid-0001'') w1 d1))) = used_ways pool20"
proof -
  obtain r w1 d1 path where p: "prepareClaimStructured mem_os (list_kube [ex_claim ''uid-0001'' ''cache0-5way'']) ''/r''
       (ex_kclaim ''uid-0001'') ex_fs (ex_driver True pool20) = (Some r, w1, d1)" "pr_error r = None"
    and d1: "structuredAllocs d1 = [''uid-0001'' \<mapsto>
       \<lparr>saCacheID = 0, saWays = 5, saCbm = 0x1f, saGroup = claim_group 0 ''uid-0001'', saSpecPath = path\<rparr>]"
    by (rule one_prepared)
  have inv: "way_inv (wayAlloc (ex_driver True pool20))"
    and fresh: "structuredAllocs (ex_driver True pool20) (kc_uid (ex_kclaim ''uid-0001'')) = None"
    by simp_all
  have "way_results (ex_driver True pool20) (ex_claim ''uid-0001'' ''cache0-5way'') = [ex_result]"
    by (rule ex_way_results) simp_all
  from structured_roundtrip [OF inv ex_get_structured this p fresh] p d1 show ?thesis by simp
qed

text \<open>
  C29: A retried claim leaks ways. When the kubelet prepares a claim with one cache device twice,
  both calls allocate ways and the second entry replaces the first in the table; after the claim
  is unprepared the ways of the first call are still in use, and no entry is left to free them.
\<close>

theorem retry_leaks_ways:
  assumes "way_inv (wayAlloc d)" "structuredAllocs d (kc_uid claim) = None" "way_results d rc = [r0]"
    and "kube_get_claim kube w (kc_namespace claim) (kc_name claim) = Inr rc"
    and "prepareClaimStructured os kube root claim w d = (Some r, w1, d1)" "pr_error r = None"
    and "kube_get_claim kube w1 (kc_namespace claim) (kc_name claim) = Inr rc"
    and "prepareClaimStructured os kube root claim w1 d1 = (Some r', w2, d2)" "pr_error r' = None"
  shows "\<exists>c m. m \<noteq> 0 \<and> way_set m \<inter> used_ways (wayAlloc d) c = {} \<and>
    used_ways (wayAlloc (snd (unprepareClaimStructured os root claim w3 d2))) c = used_ways (wayAlloc d) c \<union> way_set m \<and>
    structuredAllocs (snd (unprepareClaimStructured os root claim w3 d2)) = structuredAllocs d"
proof -
  obtain c n m path where p: "parseCacheWayDeviceName (res_device r0) = Inr (c, n)"
    and al: "WayAllocate c n (wayAlloc d) = (Inr m, wayAlloc d1)"
    and t: "structuredAllocs d1 = (structuredAllocs d)(kc_uid claim \<mapsto>
       \<lparr>saCacheID = c, saWays = n, saCbm = m, saGroup = claim_group c (kc_uid claim), saSpecPath = path\<rparr>)"
    and names: "driverName d1 = driverName d" "nodeName d1 = nodeName d"
    by (rule single_prepare [OF assms(4,3,5,6)])
  have "way_results d1 rc = [r0]" using assms(3) by (simp add: way_results_def names)
  from single_prepare [OF assms(7) this assms(8,9)] obtain c' n' m' path' where
    p': "parseCacheWayDeviceName (res_device r0) = Inr (c', n')"
    and al': "WayAllocate c' n' (wayAlloc d1) = (Inr m', wayAlloc d2)"
    and t': "structuredAllocs d2 = (structuredAllocs d1)(kc_uid claim \<mapsto>
       \<lparr>saCacheID = c', saWays = n', saCbm = m', saGroup = claim_group c' (kc_uid claim), saSpecPath = path'\<rparr>)"
    by metis
  have inv1: "way_inv (wayAlloc d1)" by (rule WayAllocate_inv [OF assms(1) al])
  from t' have "structuredAllocs d2 (kc_uid claim) =
      Some \<lparr>saCacheID = c', saWays = n', saCbm = m', saGroup = claim_group c' (kc_uid claim), saSpecPath = path'\<rparr>"
    by simp
  note u = unprepareClaimStructured_Some [OF this, of os root w3]
  have "used_ways (WayRelease c' m' (wayAlloc d2)) c = used_ways (wayAlloc d1) c"
    by (rule ways.alloc_release [OF inv1 al'])
  also have "\<dots> = used_ways (wayAlloc d) c \<union> way_set m"
    using ways.alloc_used [OF assms(1) al, of c] by simp
  finally have used: "used_ways (wayAlloc (snd (unprepareClaimStructured os root claim w3 d2))) c =
      used_ways (wayAlloc d) c \<union> way_set m"
    using u(1) by simp
  have "way_set m \<noteq> {}"
    by (rule WayAllocate_Inr [OF assms(1) al]) (simp add: run_set_eq)
  then have "m \<noteq> 0" by auto
  moreover have "way_set m \<inter> used_ways (wayAlloc d) c = {}"
    using ways.alloc_free [OF assms(1) al] by blast
  moreover have "structuredAllocs (snd (unprepareClaimStructured os root claim w3 d2)) = structuredAllocs d"
    using u(2) t t' assms(2) by auto
  ultimately show ?thesis using used by blast
qed

theorem retry_leaks_ways_witness:
  "\<exists>d2 c m. m \<noteq> 0 \<and>
     structuredAllocs (snd (unprepareClaimStructured mem_os ''/r'' (ex_kclaim ''uid-0001'') ex_fs d2)) = Map.empty \<and>
     used_ways (wayAlloc (snd (unprepareClaimStructured mem_os ''/r'' (ex_kclaim ''uid-0001'') ex_fs d2))) c = way_set m"
proof -
  let ?k = "list_kube [ex_claim ''uid-0001'' ''cache0-5way''] :: memfs kube"
  obtain r w1 d1 path where p: "prepareClaimStructured mem_os ?k ''/r''
       (ex_kclaim ''uid-0001'') ex_fs (ex_driver True pool20) = (Some r, w1, d1)" "pr_error r = None"
    and d1: "writable w1" "wayAlloc d1 = snd (WayAllocate 0 5 pool20)" "driverName d1 = ''drv''" "nodeName d1 = ''node1''"
    by (rule one_prepared)
  have "fst (WayAllocate 0 5 (snd (WayAllocate 0 5 pool20))) = Inr 0x3e0"
    by (simp add: pool20_def way_evals)
  then have al: "WayAllocate 0 5 (wayAlloc d1) = (Inr 0x3e0, snd (WayAllocate 0 5 (wayAlloc d1)))"
    by (simp add: d1(2) prod_eq_iff)
  obtain r' w2 d2 where p': "prepareClaimStructured mem_os ?k ''/r'' (ex_kclaim ''uid-0001'') w1 d1 = (Some r', w2, d2)"
    "pr_error r' = None"
    by (rule mem_prepare [OF d1(1) _ d1(3,4) ex_names(1) al, of "''uid-0001''" "''/r''"]) auto
  have inv: "way_inv (wayAlloc (ex_driver True pool20))"
    and fresh: "structuredAllocs (ex_driver True pool20) (kc_uid (ex_kclaim ''uid-0001'')) = None"
    by simp_all
  have "way_results (ex_driver True pool20) (ex_claim ''uid-0001'' ''cache0-5way'') = [ex_result]"
    by (rule ex_way_results) simp_all
  note l = retry_leaks_ways [OF inv fresh this ex_get_structured p ex_get_structured p']
  have "used_ways (wayAlloc (ex_driver True pool20)) c = {}" for c by (simp add: pool20_def)
  moreover have "structuredAllocs (ex_driver True pool20) = Map.empty" by simp
  ultimately show ?thesis using l [of ex_fs] by (metis Un_empty_left)
qed

subsection \<open>Orderly histories\<close>

text \<open>
  The histories that the kubelet produces when no call is retried: a claim is prepared when it has
  no allocation, with at most one cache device, and calls may fail.
\<close>

inductive orderly_run :: "'w os \<Rightarrow> Driver \<Rightarrow> Driver \<Rightarrow> bool" for os d0 where
  start: "orderly_run os d0 d0"
| prepare: "orderly_run os d0 d \<Longrightarrow> structuredAllocs d (kc_uid claim) = None \<Longrightarrow>
    (\<And>rc. kube_get_claim kube w (kc_namespace claim) (kc_name claim) = Inr rc \<Longrightarrow>
       length (way_results d rc) \<le> 1) \<Longrightarrow>
    prepareClaimStructured os kube root claim w d = (Some r, w', d') \<Longrightarrow> orderly_run os d0 d'"
| unprepare: "orderly_run os d0 d \<Longrightarrow>
    orderly_run os d0 (snd (unprepareClaimStructured os root claim w d))"

lemma structured_step_total:
  assumes "structured_step os root uid result w d = (out, w', d')"
  shows "totalWays (wayAlloc d') = totalWays (wayAlloc d)"
  using assms by (cases rule: structured_step_cases) (simp_all add: WayAllocate_total)

lemma structured_loop_total:
  "structured_loop os root uid results devices w d = (r, w', d') \<Longrightarrow>
     totalWays (wayAlloc d') = totalWays (wayAlloc d)"
proof (induction results arbitrary: devices w d)
  case (Cons result results)
  obtain out w1 d1 where st: "structured_step os root uid result w d = (out, w1, d1)"
    using prod_cases3 by blast
  with structured_step_total [OF st] Cons show ?case by (cases out) auto
qed simp

lemma prepareClaimStructured_total:
  assumes "prepareClaimStructured os kube root claim w d = (r, w', d')"
  shows "totalWays (wayAlloc d') = totalWays (wayAlloc d)"
proof -
  have "structured_loop os root (kc_uid claim) results [] w d = (r1, w1, d1) \<Longrightarrow>
      totalWays (wayAlloc d1) = totalWays (wayAlloc d)" for results r1 w1 d1
    by (rule structured_loop_total)
  with assms show ?thesis
    by (auto simp: prepareClaimStructured_def split: sum.splits option.splits prod.splits if_splits)
qed

lemma structured_run_total: "structured_run os d0 d \<Longrightarrow> totalWays (wayAlloc d) = totalWays (wayAlloc d0)"
proof (induction rule: structured_run.induct)
  case (unprepare d root claim w)
  then show ?case
    by (cases "structuredAllocs d (kc_uid claim)")
      (simp_all add: unprepareClaimStructured_None unprepareClaimStructured_Some)
qed (simp_all add: RecoverStructuredAllocs_facts prepareClaimStructured_total)

lemma orderly_structured: "orderly_run os d0 d \<Longrightarrow> structured_run os d0 d"
  by (induction rule: orderly_run.induct) (auto intro: structured_run.intros)

lemma no_leak_step:
  assumes "way_inv (wayAlloc d)" "no_leak used_ways (held d) (wayAlloc d)"
    and "structuredAllocs d uid = None" "structured_step os root uid result w d = (out, w', d')" "out \<noteq> Panics"
  shows "no_leak used_ways (held d') (wayAlloc d')"
  using assms(4)
proof (cases rule: structured_step_cases)
  case skip
  then show ?thesis using assms(2) by simp
next
  case (refused e e' c n)
  have "wayAlloc d' = wayAlloc d" by (rule WayAllocate_Inl [OF refused(3)])
  then show ?thesis using assms(2) held_same [OF refused(4)] by simp
next
  case (undone e c n cbm a)
  have "used_ways (wayAlloc d') = used_ways (wayAlloc d)"
    using ways.alloc_release [OF assms(1) undone(2)] undone(3) by (simp add: fun_eq_iff)
  then show ?thesis using assms(2) held_same [OF undone(4)] by (simp add: no_leak_def)
next
  case (panics c n cbm)
  then show ?thesis using assms(5) by simp
next
  case (prepared dev c n cbm path)
  have "held d' = (held d)(uid \<mapsto> (c, cbm))" using prepared(4) by (auto simp: held_def)
  moreover have "held d uid = None" using assms(3) by (simp add: held_def)
  ultimately show ?thesis using ways.no_leak_alloc [OF assms(1,2) prepared(3)] by simp
qed

lemma no_leak_prepare:
  assumes "way_inv (wayAlloc d)" "no_leak used_ways (held d) (wayAlloc d)"
    and "structuredAllocs d (kc_uid claim) = None"
    and "\<And>rc. kube_get_claim kube w (kc_namespace claim) (kc_name claim) = Inr rc \<Longrightarrow> length (way_results d rc) \<le> 1"
    and "prepareClaimStructured os kube root claim w d = (Some r, w', d')"
  shows "no_leak used_ways (held d') (wayAlloc d')"
proof (cases "kube_get_claim kube w (kc_namespace claim) (kc_name claim)")
  case (Inl e)
  with assms show ?thesis by (auto simp: prepareClaimStructured_def)
next
  case (Inr rc)
  show ?thesis
  proof (cases "claim_allocation rc")
    case None
    with Inr assms show ?thesis by (auto simp: prepareClaimStructured_def)
  next
    case (Some results)
    have loop: "structured_loop os root (kc_uid claim) results [] w d =
        structured_loop os root (kc_uid claim) (way_results d rc) [] w d"
      using structured_loop_filter [OF refl refl, of os root "kc_uid claim" results "[]" w d] Some
      by (simp add: way_results_def own_results_def)
    obtain res w1 d1 where l: "structured_loop os root (kc_uid claim) (way_results d rc) [] w d = (res, w1, d1)"
      using prod_cases3 by blast
    have same: "wayAlloc d' = wayAlloc d1" "held d' = held d1" "res \<noteq> None"
      using assms(5) Inr Some l loop
      by (auto simp: prepareClaimStructured_def split: option.splits sum.splits if_splits)
    consider "way_results d rc = []" | r0 where "way_results d rc = [r0]"
      using assms(4) [OF Inr] by (cases "way_results d rc") auto
    then have "no_leak used_ways (held d1) (wayAlloc d1)"
    proof cases
      case 1
      with l assms(2) show ?thesis by simp
    next
      case (2 r0)
      obtain out w2 d2 where st: "structured_step os root (kc_uid claim) r0 w d = (out, w2, d2)"
        using prod_cases3 by blast
      with 2 l same(3) have "d1 = d2" "out \<noteq> Panics" by (cases out; auto)+
      with no_leak_step [OF assms(1-3) st] show ?thesis by simp
    qed
    with same show ?thesis by simp
  qed
qed

lemma no_leak_unprepare:
  assumes "no_leak used_ways (held d) (wayAlloc d)"
  shows "no_leak used_ways (held (snd (unprepareClaimStructured os root claim w d)))
    (wayAlloc (snd (unprepareClaimStructured os root claim w d)))"
proof (cases "structuredAllocs d (kc_uid claim)")
  case None
  then show ?thesis using assms by (simp add: unprepareClaimStructured_None)
next
  case (Some a)
  note u = unprepareClaimStructured_Some [OF Some, of os root w]
  have "held d (kc_uid claim) = Some (saCacheID a, saCbm a)" using Some by (simp add: held_def)
  moreover have "held (snd (unprepareClaimStructured os root claim w d)) = (held d)(kc_uid claim := None)"
    by (auto simp: held_def u(2))
  ultimately show ?thesis using ways.no_leak_release [OF assms] by (simp add: u(1))
qed

lemma orderly_no_leak:
  assumes "orderly_run os d0 d" "structured_inv d0" "no_leak used_ways (held d0) (wayAlloc d0)"
  shows "no_leak used_ways (held d) (wayAlloc d)"
  using assms
proof (induction rule: orderly_run.induct)
  case (prepare d claim kube w root r w' d')
  have "structured_inv d" by (rule structured_run_inv [OF orderly_structured [OF prepare.hyps(1)] prepare.prems(1)])
  then have inv: "way_inv (wayAlloc d)" by (simp add: structured_inv_def)
  show ?case
    by (rule no_leak_prepare [OF inv prepare.IH [OF prepare.prems] prepare.hyps(2,3,4)])
qed (simp_all add: no_leak_unprepare)

text \<open>
  On orderly histories no way is lost: starting without allocations and without used ways,
  after any such sequence of prepare and unprepare calls the ways in use in a cache domain are
  exactly the ways of the recorded allocations in that domain.
\<close>

theorem orderly_histories_leak_nothing:
  assumes "orderly_run os d0 d" "way_inv (wayAlloc d0)" "structuredAllocs d0 = Map.empty"
    and "\<forall>c. used_ways (wayAlloc d0) c = {}"
  shows "used_ways (wayAlloc d) c =
    \<Union> {way_set (saCbm a) | a uid. structuredAllocs d uid = Some a \<and> saCacheID a = c}"
proof -
  have inv0: "structured_inv d0" by (rule structured_inv_fresh [OF assms(2,3)])
  have "no_leak used_ways (held d0) (wayAlloc d0)" using assms(4) by (simp add: no_leak_def)
  note nl = orderly_no_leak [OF assms(1) inv0 this]
  have h: "holds used_ways (held d) (wayAlloc d)"
    using structured_run_inv [OF orderly_structured [OF assms(1)] inv0] by (simp add: structured_inv_def)
  show ?thesis
  proof (intro equalityI subsetI)
    fix i
    assume "i \<in> used_ways (wayAlloc d) c"
    then obtain uid m where "held d uid = Some (c, m)" "i \<in> way_set m"
      using nl unfolding no_leak_def by blast
    then show "i \<in> \<Union> {way_set (saCbm a) | a uid. structuredAllocs d uid = Some a \<and> saCacheID a = c}"
      by (auto simp: held_def)
  next
    fix i
    assume "i \<in> \<Union> {way_set (saCbm a) | a uid. structuredAllocs d uid = Some a \<and> saCacheID a = c}"
    then obtain a uid where "structuredAllocs d uid = Some a" "saCacheID a = c" "i \<in> way_set (saCbm a)"
      by blast
    then have "held d uid = Some (c, saCbm a)" "i \<in> way_set (saCbm a)" by (simp_all add: held_def)
    with h show "i \<in> used_ways (wayAlloc d) c" unfolding holds_def by blast
  qed
qed

theorem orderly_histories_leak_nothing_witness:
  "\<exists>d. orderly_run mem_os (ex_driver True pool20) d \<and> used_ways (wayAlloc d) 0 = way_set 0x1f"
proof -
  let ?k = "list_kube [ex_claim ''uid-0001'' ''cache0-5way''] :: memfs kube"
  obtain r w1 d1 path where p: "prepareClaimStructured mem_os ?k ''/r''
       (ex_kclaim ''uid-0001'') ex_fs (ex_driver True pool20) = (Some r, w1, d1)"
    and d1: "structuredAllocs d1 = [''uid-0001'' \<mapsto>
       \<lparr>saCacheID = 0, saWays = 5, saCbm = 0x1f, saGroup = claim_group 0 ''uid-0001'', saSpecPath = path\<rparr>]"
    by (rule one_prepared)
  have "length (way_results (ex_driver True pool20) rc) \<le> 1"
    if "kube_get_claim ?k ex_fs (kc_namespace (ex_kclaim ''uid-0001'')) (kc_name (ex_kclaim ''uid-0001'')) = Inr rc" for rc
  proof -
    have "rc = ex_claim ''uid-0001'' ''cache0-5way''" using that ex_get_structured by (metis sum.inject(2))
    then show ?thesis by (simp add: ex_way_results)
  qed
  then have run: "orderly_run mem_os (ex_driver True pool20) d1"
    by (intro orderly_run.prepare [OF orderly_run.start _ _ p]) simp_all
  have inv: "way_inv (wayAlloc (ex_driver True pool20))"
    and fresh: "structuredAllocs (ex_driver True pool20) = Map.empty"
    by simp_all
  have none: "\<forall>c. used_ways (wayAlloc (ex_driver True pool20)) c = {}" by (simp add: pool20_def)
  have "{way_set (saCbm a) | a uid. structuredAllocs d1 uid = Some a \<and> saCacheID a = 0} = {way_set 0x1f}"
    unfolding d1 by (auto split: if_splits)
  with orderly_histories_leak_nothing [OF run inv fresh none, of 0] run show ?thesis
    by (intro exI [of _ d1]) simp
qed

subsection \<open>Recovery after a crash\<close>

lemma structured_schemata_line: "buildStructuredSchemata c (show_hex m) 0 = mask_line [(c, m)]"
  by (simp add: buildStructuredSchemata_def mask_line_def domain_line_def)

text \<open>
  Recovered ways are never freed. Recovery marks the masks of the groups that survived a
  crash, but restores no entry of the table of allocations; so the later unprepare call for such
  a claim touches neither the file system nor the allocator, and the ways stay in use.
\<close>

theorem recovered_ways_stay_used:
  assumes "PartitionableDevices (drvCaps d)" "structuredAllocs d = Map.empty"
    and "os_read_dir os w root = Inr entries" "\<lparr>de_name = g, de_dir = True\<rparr> \<in> set entries"
    and "g = claim_group c (kc_uid claim)"
    and "os_read_file os w (path_join [root, g, ''schemata'']) =
      Inr (buildStructuredSchemata c (show_hex m) 0 @ [newline])" "in_int c"
  shows "fst (unprepareClaimStructured os root claim w' (RecoverStructuredAllocs os root w d)) = w' \<and>
    way_set m \<subseteq> used_ways (wayAlloc (snd (unprepareClaimStructured os root claim w'
      (RecoverStructuredAllocs os root w d)))) c"
proof -
  let ?e = "\<lparr>de_name = g, de_dir = True\<rparr>"
  have pre: "has_prefix ''dra-c'' g" using assms(5) by (auto simp: claim_group_def has_prefix_iff)
  have "way_set m \<subseteq> way_set (map_get 0 (rebuild_entry os w root ''dra-c'' ?e al) c)" for al
  proof -
    have "rebuild_data (mask_line [(c, m)] @ [newline]) al = fold mark [(c, m)] al"
      by (rule rebuild_data_marks) (simp_all add: assms(7))
    then show ?thesis
      by (simp add: rebuild_entry_def pre assms(6) structured_schemata_line mark_def)
  qed
  moreover obtain es es' where es: "entries = es @ ?e # es'" using split_list [OF assms(4)] by blast
  moreover have "grows al (fold (rebuild_entry os w root ''dra-c'') es' al)" for al
    by (rule grows_fold) (rule grows_entry)
  ultimately have "way_set m \<subseteq> way_set (map_get 0 (fold (rebuild_entry os w root ''dra-c'') entries al) c)" for al
    unfolding grows_def by (simp add: es) blast
  then have "way_set m \<subseteq> used_ways (wayAlloc (RecoverStructuredAllocs os root w d)) c"
    by (simp add: RecoverStructuredAllocs_def assms(1,3) RebuildFromResctrl_def used_ways_def)
  moreover have "structuredAllocs (RecoverStructuredAllocs os root w d) (kc_uid claim) = None"
    using assms(2) by (simp add: RecoverStructuredAllocs_facts)
  ultimately show ?thesis by (simp add: unprepareClaimStructured_None)
qed

definition crash_fs :: memfs where
  "crash_fs = \<lparr>mem_dirs = [''/r'', ''/r/dra-c0-uid0001''],
                mem_files = [(''/r/dra-c0-uid0001/schemata'', ''L3:0=1f'' @ [newline])]\<rparr>"

theorem recovered_ways_stay_used_witness:
  "way_set 0x1f \<subseteq> used_ways (wayAlloc (snd (unprepareClaimStructured mem_os ''/r'' (ex_kclaim ''uid-0001'') crash_fs
      (RecoverStructuredAllocs mem_os ''/r'' crash_fs (ex_driver True pool20))))) 0"
proof -
  let ?d = "ex_driver True pool20"
  have caps: "PartitionableDevices (drvCaps ?d)" by (simp add: ex_driver_def NewDriver_def)
  have dir: "os_read_dir mem_os crash_fs ''/r'' = Inr [\<lparr>de_name = ''dra-c0-uid0001'', de_dir = True\<rparr>]"
    by (simp add: go_eval crash_fs_def Let_def)
  have mem: "\<lparr>de_name = ''dra-c0-uid0001'', de_dir = True\<rparr> \<in> set [\<lparr>de_name = ''dra-c0-uid0001'', de_dir = True\<rparr>]"
    by simp
  have grp: "''dra-c0-uid0001'' = claim_group 0 (kc_uid (ex_kclaim ''uid-0001''))"
    by (simp add: claim_group_def sanitizeUID_def str_remove_def ex_kclaim_def show_evals)
  have schem: "os_read_file mem_os crash_fs (path_join [''/r'', ''dra-c0-uid0001'', ''schemata'']) =
      Inr (buildStructuredSchemata 0 (show_hex 0x1f) 0 @ [newline])"
    by (simp add: go_eval crash_fs_def path_join_def path_clean_def render_path_def Let_def
        buildStructuredSchemata_def show_evals)
  have empty: "structuredAllocs ?d = Map.empty" by simp
  show ?thesis
    using recovered_ways_stay_used [OF caps empty dir mem grp schem, of crash_fs] by simp
qed

end
