(* ===== verification/BasicThreadsProps.thy ===== *)
theory BasicThreadsProps
  imports BasicThreads StructuredProps
begin

text \<open>
  Concurrent requests in basic mode: a partition in a response belongs to its claim until the claim is
  unprepared, whatever other requests do; and a thread alone is the sequential handler.
\<close>

subsection \<open>Grants\<close>

text \<open>A list of devices is granted to a claim: the claim owns them, unless it has been unprepared.\<close>

definition granted_to :: "string set \<Rightarrow> AllocationState \<Rightarrow> string \<Rightarrow> prepared_device list \<Rightarrow> bool" where
  "granted_to released st uid devices \<longleftrightarrow>
     uid \<in> released \<or> (\<forall>dev \<in> set devices. owner st (pd_device dev) = Some uid)"

lemma granted_to_Nil [simp]: "granted_to R st uid []"
  by (simp add: granted_to_def)

fun pc_granted :: "string set \<Rightarrow> AllocationState \<Rightarrow> bpc \<Rightarrow> bool" where
  "pc_granted R st (BLoop claim results devices) = granted_to R st (kc_uid claim) devices"
| "pc_granted R st (BCount claim devices) = granted_to R st (kc_uid claim) devices"
| "pc_granted R st pc = True"

definition thread_granted :: "string set \<Rightarrow> AllocationState \<Rightarrow> bthread \<Rightarrow> bool" where
  "thread_granted R st th \<longleftrightarrow> pc_granted R st (bt_pc th) \<and>
     (\<forall>uid r. bt_resp th uid = Some r \<longrightarrow> granted_to R st uid (pr_devices r))"

lemma thread_grantedD:
  "thread_granted R st th \<Longrightarrow> bt_resp th uid = Some r \<Longrightarrow> dev \<in> set (pr_devices r) \<Longrightarrow> uid \<notin> R \<Longrightarrow>
     owner st (pd_device dev) = Some uid"
  by (auto simp: thread_granted_def granted_to_def)

text \<open>Owners stay, except those of released claims.\<close>

definition keeps_owners :: "string set \<Rightarrow> AllocationState \<Rightarrow> AllocationState \<Rightarrow> bool" where
  "keeps_owners R st st' \<longleftrightarrow> (\<forall>k uid. owner st k = Some uid \<longrightarrow> uid \<in> R \<or> owner st' k = Some uid)"

lemma keeps_owners_refl [simp]: "keeps_owners R st st"
  by (simp add: keeps_owners_def)

lemma granted_to_mono:
  "granted_to R st uid devices \<Longrightarrow> keeps_owners R' st st' \<Longrightarrow> R \<subseteq> R' \<Longrightarrow> granted_to R' st' uid devices"
  by (auto simp: granted_to_def keeps_owners_def)

lemma pc_granted_mono: "pc_granted R st pc \<Longrightarrow> keeps_owners R' st st' \<Longrightarrow> R \<subseteq> R' \<Longrightarrow> pc_granted R' st' pc"
  by (cases pc) (auto intro: granted_to_mono)

lemma thread_granted_mono:
  "thread_granted R st th \<Longrightarrow> keeps_owners R' st st' \<Longrightarrow> R \<subseteq> R' \<Longrightarrow> thread_granted R' st' th"
  unfolding thread_granted_def using granted_to_mono pc_granted_mono by blast

interpretation grants: rely_guarantee
  "\<lambda>(R, st) (R', st'). R \<subseteq> R' \<and> keeps_owners R' st st'" "\<lambda>(R, st). thread_granted R st"
  by unfold_locales (auto intro: thread_granted_mono)

lemma StAllocate_keeps: "keeps_owners R st (snd (StAllocate k uid st))"
  using StAllocate_None_iff [of k uid st] by (auto simp: keeps_owners_def StAllocate_owner)

lemma ReleaseByClaimUID_keeps: "uid \<in> R \<Longrightarrow> keeps_owners R st (snd (ReleaseByClaimUID order uid st))"
  by (auto simp: keeps_owners_def ReleaseByClaimUID_def release_loop_owner)

lemma drvState_report [simp]: "drvState (report e d) = drvState d"
  by (simp add: report_def)

lemma b_step_keeps:
  assumes "b_step kube order th w d = Some (th', d')"
  shows "keeps_owners (R \<union> b_releases (bt_pc th)) (drvState d) (drvState d')"
proof (cases "bt_pc th")
  case (BLoop claim results devices)
  with assms StAllocate_keeps [of _ "drvState d" _ "kc_uid claim"] show ?thesis
    by (auto simp: b_step_def b_loop_def split: list.splits if_splits prod.splits option.splits) (metis snd_conv)+
next
  case (BRelease claim)
  with assms show ?thesis by (auto simp: b_step_def b_release_def intro: ReleaseByClaimUID_keeps)
qed (use assms in \<open>auto simp: b_step_def b_fetch_def b_count_def b_settle_def split: list.splits sum.splits option.splits\<close>)

lemma b_step_thread:
  assumes "b_step kube order th w d = Some (th', d')" "thread_granted R (drvState d) th"
  shows "thread_granted (R \<union> b_releases (bt_pc th)) (drvState d') th'"
proof -
  let ?R = "R \<union> b_releases (bt_pc th)"
  have old: "thread_granted ?R (drvState d') th"
    using thread_granted_mono [OF assms(2) b_step_keeps [OF assms(1)]] by simp
  then have resp: "granted_to ?R (drvState d') uid (pr_devices r)" if "bt_resp th uid = Some r" for uid r
    using that by (simp add: thread_granted_def)
  show ?thesis
  proof (cases "bt_pc th")
    case (BLoop claim results devices)
    have dev: "granted_to ?R (drvState d') (kc_uid claim) devices"
      using old by (simp add: thread_granted_def BLoop)
    show ?thesis
    proof (cases results)
      case Nil
      with assms(1) resp dev show ?thesis
        by (auto simp: b_step_def BLoop b_loop_def b_respond_def error_response_def thread_granted_def
            split: if_splits)
    next
      case (Cons result rest)
      obtain e st where al: "StAllocate (res_device result) (kc_uid claim) (drvState d) = (e, st)" by fastforce
      show ?thesis
      proof (cases "res_driver result \<noteq> driverName d \<or> res_pool result \<noteq> nodeName d \<or> e \<noteq> None")
        case True
        with assms(1) al have "th' = th\<lparr>bt_pc := BLoop claim rest devices\<rparr>"
          by (auto simp: b_step_def BLoop b_loop_def Cons split: if_splits option.splits)
        with resp dev show ?thesis by (auto simp: thread_granted_def)
      next
        case False
        with assms(1) al have th': "th' = th\<lparr>bt_pc := BLoop claim rest (devices @ [b_device result])\<rparr>" "drvState d' = st"
          by (auto simp: b_step_def BLoop b_loop_def Cons)
        have "owner st (res_device result) = Some (kc_uid claim)"
          using StAllocate_owner [of "res_device result" "kc_uid claim" "drvState d"] al False by simp
        with dev have "granted_to ?R (drvState d') (kc_uid claim) (devices @ [b_device result])"
          by (auto simp: granted_to_def th'(2) b_device_def)
        with resp show ?thesis by (auto simp: thread_granted_def th'(1))
      qed
    qed
  next
    case (BCount claim devices)
    have "granted_to ?R (drvState d') (kc_uid claim) devices"
      using old by (simp add: thread_granted_def BCount)
    with assms(1) resp show ?thesis
      by (auto simp: b_step_def BCount b_count_def b_respond_def thread_granted_def split: if_splits)
  next
    case (BFetch claim)
    with assms(1) resp show ?thesis
      by (auto simp: b_step_def b_fetch_def b_respond_def error_response_def thread_granted_def
          split: sum.splits option.splits if_splits)
  next
    case BIdle
    then obtain c cs where "th' = th\<lparr>bt_pc := b_start c, bt_calls := cs\<rparr>" "d' = d"
      using assms(1) by (auto simp: b_step_def split: list.splits)
    with resp show ?thesis by (cases c) (auto simp: thread_granted_def)
  next
    case (BRelease claim)
    with assms(1) resp show ?thesis by (auto simp: b_step_def b_release_def thread_granted_def)
  next
    case BSettle
    with assms(1) resp show ?thesis by (auto simp: b_step_def b_settle_def thread_granted_def)
  qed
qed

definition bs_inv :: "'w bsystem \<Rightarrow> bool" where
  "bs_inv s \<longleftrightarrow> list_all (thread_granted (bs_released s) (drvState (bs_driver s))) (bs_threads s)"

lemma bs_step_inv:
  assumes "bs_step kube s s'" "bs_inv s"
  shows "bs_inv s'"
proof -
  from assms(1) obtain i order th d where i: "i < length (bs_threads s)"
    and b: "b_step kube order (bs_threads s ! i) (bs_world s) (bs_driver s) = Some (th, d)"
    and s': "s' = s\<lparr>bs_driver := d, bs_threads := (bs_threads s)[i := th],
      bs_released := bs_released s \<union> b_releases (bt_pc (bs_threads s ! i))\<rparr>"
    by (rule bs_stepE)
  from grants.step_keeps_good [OF _ _ i, of "(bs_released s, drvState (bs_driver s))"
      "(bs_released s \<union> b_releases (bt_pc (bs_threads s ! i)), drvState d)" th]
  show ?thesis
    using assms(2) b_step_keeps [OF b] b_step_thread [OF b] by (simp add: bs_inv_def s')
qed

lemma bs_reach_inv:
  assumes "bs_reach kube s0 s" "bs_inv s0"
  shows "bs_inv s"
  using assms
proof (induction rule: bs_reach.induct)
  case (step s s')
  then show ?case using bs_step_inv by blast
next
  case (arrive s calls)
  then show ?case by (auto simp: bs_inv_def b_request_def thread_granted_def)
qed (simp_all add: bs_inv_def)

text \<open>
  C16: Basic mode isolates concurrent claims. Let any prepare and unprepare requests arrive at any time
  and their threads interleave in any way, from any state of the partitions. Every partition in a
  response belongs to the claim of that response, as long as the claim has not been unprepared; so the
  responses of two such claims never name the same partition, whichever request they came from.
\<close>

theorem basic_threads_isolate:
  assumes "bs_reach kube \<lparr>bs_world = w, bs_driver = d, bs_threads = [], bs_released = {}\<rparr> s"
    and "th \<in> set (bs_threads s)" "bt_resp th uid = Some r" "dev \<in> set (pr_devices r)" "uid \<notin> bs_released s"
    and "th' \<in> set (bs_threads s)" "bt_resp th' uid' = Some r'" "dev' \<in> set (pr_devices r')" "uid' \<notin> bs_released s"
  shows "owner (drvState (bs_driver s)) (pd_device dev) = Some uid \<and>
    (uid \<noteq> uid' \<longrightarrow> pd_device dev \<noteq> pd_device dev')"
proof -
  have "bs_inv s" using bs_reach_inv [OF assms(1)] by (simp add: bs_inv_def)
  then have "thread_granted (bs_released s) (drvState (bs_driver s)) th"
    "thread_granted (bs_released s) (drvState (bs_driver s)) th'" using assms(2,6) by (auto simp: bs_inv_def list_all_iff)
  then have "owner (drvState (bs_driver s)) (pd_device dev) = Some uid"
    "owner (drvState (bs_driver s)) (pd_device dev') = Some uid'"
    using thread_grantedD assms(3-5,7-9) by blast+
  then show ?thesis by auto
qed

subsection \<open>One thread alone\<close>

inductive b_solo :: "'w kube \<Rightarrow> string list \<Rightarrow> 'w \<Rightarrow> bthread \<times> Driver \<Rightarrow> bthread \<times> Driver \<Rightarrow> bool" for kube order w where
  stop: "b_solo kube order w s s"
| go: "b_step kube order th w d = Some s1 \<Longrightarrow> b_solo kube order w s1 s2 \<Longrightarrow> b_solo kube order w (th, d) s2"

lemma b_solo_trans: "b_solo kube order w a b \<Longrightarrow> b_solo kube order w b c \<Longrightarrow> b_solo kube order w a c"
  by (induction rule: b_solo.induct) (auto intro: b_solo.go)

lemma b_solo_one: "b_step kube order th w d = Some s1 \<Longrightarrow> b_solo kube order w (th, d) s1"
  by (rule b_solo.go [OF _ b_solo.stop])

lemma b_solo_loop:
  assumes "prepare_results (driverName d) (nodeName d) (kc_uid claim) results (drvState d) = (devices, st)"
  shows "b_solo kube order w (th\<lparr>bt_pc := BLoop claim results acc\<rparr>, d)
    (th\<lparr>bt_pc := BLoop claim [] (acc @ devices)\<rparr>, d\<lparr>drvState := st\<rparr>)"
  using assms
proof (induction results arbitrary: acc d devices st)
  case Nil
  then show ?case by (cases d) (auto intro: b_solo.stop)
next
  case (Cons result rest)
  obtain e st1 where al: "StAllocate (res_device result) (kc_uid claim) (drvState d) = (e, st1)" by fastforce
  show ?case
  proof (cases "res_driver result \<noteq> driverName d \<or> res_pool result \<noteq> nodeName d")
    case True
    then have step: "b_step kube order (th\<lparr>bt_pc := BLoop claim (result # rest) acc\<rparr>) w d =
        Some (th\<lparr>bt_pc := BLoop claim rest acc\<rparr>, d)"
      by (auto simp: b_step_def b_loop_def)
    have "prepare_results (driverName d) (nodeName d) (kc_uid claim) rest (drvState d) = (devices, st)"
      using Cons.prems True by (simp only: prepare_results.simps if_P)
    then show ?thesis by (rule b_solo.go [OF step Cons.IH])
  next
    case False
    obtain ds st2 where rest: "prepare_results (driverName d) (nodeName d) (kc_uid claim) rest st1 = (ds, st2)" by fastforce
    let ?acc = "if e = None then acc @ [b_device result] else acc"
    have "b_solo kube order w (th\<lparr>bt_pc := BLoop claim rest ?acc\<rparr>, d\<lparr>drvState := st1\<rparr>)
        (th\<lparr>bt_pc := BLoop claim [] (?acc @ ds)\<rparr>, d\<lparr>drvState := st2\<rparr>)"
      using Cons.IH [of "d\<lparr>drvState := st1\<rparr>" ds st2 ?acc] rest by simp
    moreover have "devices = (if e = None then b_device result # ds else ds)" "st = st2"
      using Cons.prems False al rest by (auto simp: b_device_def split: option.splits)
    moreover have "b_step kube order (th\<lparr>bt_pc := BLoop claim (result # rest) acc\<rparr>) w d =
        Some (th\<lparr>bt_pc := BLoop claim rest ?acc\<rparr>, d\<lparr>drvState := st1\<rparr>)"
      using False al by (auto simp: b_step_def b_loop_def split: option.splits)
    ultimately show ?thesis
      using b_solo.go by (cases e) auto
  qed
qed

lemma b_solo_prepare:
  assumes "prepareClaim kube w order claim d = (r, d')"
  shows "b_solo kube order w (th\<lparr>bt_pc := BFetch claim\<rparr>, d) (b_respond claim r th, d')"
proof -
  consider (failed) "b_fetch kube claim (th\<lparr>bt_pc := BFetch claim\<rparr>) w d = (b_respond claim r th, d')"
    | (found) rc results where "kube_get_claim kube w (kc_namespace claim) (kc_name claim) = Inr rc"
        "claim_allocation rc = Some results"
    using assms by (auto simp: prepareClaim_def b_fetch_def b_respond_def split: sum.splits option.splits)
  then show ?thesis
  proof cases
    case failed
    then show ?thesis by (intro b_solo_one) (simp add: b_step_def)
  next
    case found
    obtain devices st where p: "prepare_results (driverName d) (nodeName d) (kc_uid claim) results (drvState d) = (devices, st)"
      by fastforce
    have "b_solo kube order w (th\<lparr>bt_pc := BFetch claim\<rparr>, d) (th\<lparr>bt_pc := BLoop claim results []\<rparr>, d)"
      by (rule b_solo_one) (simp add: b_step_def b_fetch_def found)
    then have "b_solo kube order w (th\<lparr>bt_pc := BFetch claim\<rparr>, d) (th\<lparr>bt_pc := BLoop claim [] devices\<rparr>, d\<lparr>drvState := st\<rparr>)"
      by (rule b_solo_trans [OF _ b_solo_loop [OF p, where acc = "[]", unfolded append_Nil]])
    moreover have "b_solo kube order w (th\<lparr>bt_pc := BLoop claim [] devices\<rparr>, d\<lparr>drvState := st\<rparr>) (b_respond claim r th, d')"
    proof (cases "devices = []")
      case True
      with assms p found show ?thesis
        by (intro b_solo_one) (auto simp: b_step_def b_loop_def prepareClaim_def b_respond_def)
    next
      case False
      then have "b_step kube order (th\<lparr>bt_pc := BLoop claim [] devices\<rparr>) w (d\<lparr>drvState := st\<rparr>) =
          Some (th\<lparr>bt_pc := BCount claim devices\<rparr>, d\<lparr>drvState := st\<rparr>)"
        by (simp add: b_step_def b_loop_def)
      moreover have "b_step kube order (th\<lparr>bt_pc := BCount claim devices\<rparr>) w (d\<lparr>drvState := st\<rparr>) = Some (b_respond claim r th, d')"
        using False assms p found by (auto simp: b_step_def b_count_def prepareClaim_def b_respond_def)
      ultimately show ?thesis by (metis b_solo.go b_solo_one)
    qed
    ultimately show ?thesis by (rule b_solo_trans)
  qed
qed

lemma b_solo_unprepare:
  "b_solo kube order w (th\<lparr>bt_pc := BRelease claim\<rparr>, d) (th\<lparr>bt_pc := BIdle\<rparr>, unprepareClaim order claim d)"
  by (rule b_solo.go [OF _ b_solo_one])
    (auto simp: b_step_def b_release_def b_settle_def unprepareClaim_def Let_def case_prod_unfold)

lemma b_solo_prepare_claims:
  assumes "\<not> PartitionableDevices (drvCaps d)"
    and "prepare_claims os kube root order claims resp w d = (r, w', d')"
  shows "w' = w \<and> (\<exists>resp'. r = Some resp' \<and>
    b_solo kube order w (\<lparr>bt_pc = BIdle, bt_calls = map PrepareCall claims, bt_resp = resp\<rparr>, d)
      (\<lparr>bt_pc = BIdle, bt_calls = [], bt_resp = resp'\<rparr>, d'))"
  using assms
proof (induction claims arbitrary: resp d)
  case Nil
  then show ?case by (auto intro: b_solo.stop)
next
  case (Cons claim claims)
  obtain r1 d1 where p: "prepareClaim kube w order claim d = (r1, d1)" by fastforce
  let ?th = "\<lparr>bt_pc = BIdle, bt_calls = map PrepareCall claims, bt_resp = resp\<rparr>"
  have "b_solo kube order w (\<lparr>bt_pc = BIdle, bt_calls = map PrepareCall (claim # claims), bt_resp = resp\<rparr>, d)
      (?th\<lparr>bt_pc := BFetch claim\<rparr>, d)"
    by (rule b_solo_one) (simp add: b_step_def)
  from b_solo_trans [OF this b_solo_prepare [OF p]]
  have run: "b_solo kube order w (\<lparr>bt_pc = BIdle, bt_calls = map PrepareCall (claim # claims), bt_resp = resp\<rparr>, d)
      (\<lparr>bt_pc = BIdle, bt_calls = map PrepareCall claims, bt_resp = resp(kc_uid claim \<mapsto> r1)\<rparr>, d1)"
    by (simp add: b_respond_def)
  have "\<not> PartitionableDevices (drvCaps d1)"
    using p Cons.prems(1)
    by (auto simp: prepareClaim_def report_def Let_def split: sum.splits option.splits prod.splits if_splits)
  moreover have "prepare_claims os kube root order claims (resp(kc_uid claim \<mapsto> r1)) w d1 = (r, w', d')"
    using Cons.prems p by simp
  ultimately show ?case
    using Cons.IH [of d1 "resp(kc_uid claim \<mapsto> r1)"] b_solo_trans [OF run] by blast
qed

lemma b_solo_unprepare_claims:
  assumes "\<not> PartitionableDevices (drvCaps d)" "unprepare_claims os root order claims w d = (w', d')"
  shows "w' = w \<and> b_solo kube order w (\<lparr>bt_pc = BIdle, bt_calls = map UnprepareCall claims, bt_resp = resp\<rparr>, d)
      (\<lparr>bt_pc = BIdle, bt_calls = [], bt_resp = resp\<rparr>, d')"
  using assms
proof (induction claims arbitrary: d)
  case Nil
  then show ?case by (auto intro: b_solo.stop)
next
  case (Cons claim claims)
  let ?th = "\<lparr>bt_pc = BIdle, bt_calls = map UnprepareCall claims, bt_resp = resp\<rparr>"
  have "b_solo kube order w (\<lparr>bt_pc = BIdle, bt_calls = map UnprepareCall (claim # claims), bt_resp = resp\<rparr>, d)
      (?th\<lparr>bt_pc := BRelease claim\<rparr>, d)"
    by (rule b_solo_one) (simp add: b_step_def)
  note run = b_solo_trans [OF this b_solo_unprepare]
  have "\<not> PartitionableDevices (drvCaps (unprepareClaim order claim d))"
    using Cons.prems(1) by (simp add: unprepareClaim_def report_def Let_def case_prod_unfold)
  with Cons.IH [of "unprepareClaim order claim d"] Cons.prems b_solo_trans [OF run] show ?case by auto
qed


subsection \<open>Two claims of one node\<close>

text \<open>A thread with prepare calls only, run alone inside a system of threads.\<close>

definition prepares_only :: "bthread \<Rightarrow> bool" where
  "prepares_only th \<longleftrightarrow> b_releases (bt_pc th) = {} \<and> (\<forall>c \<in> set (bt_calls th). b_releases (b_start c) = {})"

lemma b_step_pc:
  assumes "b_step kube order th w d = Some (th', d')"
  shows "b_releases (bt_pc th') = {} \<and> bt_calls th' = bt_calls th \<or>
    (\<exists>c cs. bt_calls th = c # cs \<and> th' = th\<lparr>bt_pc := b_start c, bt_calls := cs\<rparr>)"
proof (cases "bt_pc th")
  case BIdle
  with assms show ?thesis by (auto simp: b_step_def split: list.splits)
next
  case (BFetch claim)
  with assms show ?thesis by (auto simp: b_step_def b_fetch_def b_respond_def split: sum.splits option.splits)
next
  case (BLoop claim results devices)
  with assms show ?thesis
    by (auto simp: b_step_def b_loop_def b_respond_def split: list.splits option.splits prod.splits if_splits)
qed (use assms in \<open>auto simp: b_step_def b_count_def b_release_def b_settle_def b_respond_def\<close>)

lemma b_step_prepares_only:
  "b_step kube order th w d = Some (th', d') \<Longrightarrow> prepares_only th \<Longrightarrow> prepares_only th'"
  using b_step_pc [of kube order th w d th' d'] by (auto simp: prepares_only_def)

lemma b_step_dom:
  "b_step kube order th w d = Some (th', d') \<Longrightarrow> dom (drvState d') = dom (drvState d)"
proof -
  have al: "dom (snd (StAllocate k uid a)) = dom a" for k uid a
    using StAllocate_known [of k uid a] dom_known by metis
  have re: "dom (snd (ReleaseByClaimUID order uid a)) = dom a" for uid a
    using release_loop_known [of uid order a] dom_known unfolding ReleaseByClaimUID_def by metis
  assume b: "b_step kube order th w d = Some (th', d')"
  have "drvState d' = drvState d \<or> (\<exists>k uid. drvState d' = snd (StAllocate k uid (drvState d))) \<or>
      (\<exists>uid. drvState d' = snd (ReleaseByClaimUID order uid (drvState d)))"
  proof (cases "bt_pc th")
    case (BLoop claim results devices)
    show ?thesis
    proof (cases results)
      case Nil
      with b show ?thesis by (auto simp: b_step_def BLoop b_loop_def split: if_splits)
    next
      case (Cons result rest)
      obtain e st where "StAllocate (res_device result) (kc_uid claim) (drvState d) = (e, st)" by fastforce
      moreover from this have "snd (StAllocate (res_device result) (kc_uid claim) (drvState d)) = st" by simp
      ultimately have "drvState d' = drvState d \<or> drvState d' = snd (StAllocate (res_device result) (kc_uid claim) (drvState d))"
        using b by (auto simp: b_step_def BLoop b_loop_def Cons split: if_splits option.splits)
      then show ?thesis by blast
    qed
  next
    case (BRelease claim)
    with b have "drvState d' = snd (ReleaseByClaimUID order (kc_uid claim) (drvState d))"
      by (auto simp: b_step_def b_release_def)
    then show ?thesis by blast
  qed (use b in \<open>auto simp: b_step_def b_fetch_def b_count_def b_settle_def split: list.splits sum.splits option.splits\<close>)
  then show ?thesis using al re by (elim disjE exE) simp_all
qed

lemma b_solo_reach:
  assumes "b_solo kube order w x y" "i < length ts"
    and "bs_reach kube s0 \<lparr>bs_world = w, bs_driver = snd x, bs_threads = ts[i := fst x], bs_released = R\<rparr>"
    and "range_order (drvState (snd x)) order" "prepares_only (fst x)"
  shows "bs_reach kube s0 \<lparr>bs_world = w, bs_driver = snd y, bs_threads = ts[i := fst y], bs_released = R\<rparr> \<and>
    range_order (drvState (snd y)) order"
  using assms
proof (induction rule: b_solo.induct)
  case (go th d s1 s2)
  obtain th1 d1 where s1: "s1 = (th1, d1)" by fastforce
  with go.hyps(1) have b: "b_step kube order th w d = Some (th1, d1)" by simp
  have "bs_step kube \<lparr>bs_world = w, bs_driver = d, bs_threads = ts[i := th], bs_released = R\<rparr>
      \<lparr>bs_world = w, bs_driver = d1, bs_threads = ts[i := th1], bs_released = R\<rparr>"
    using bs_step.run [of i "\<lparr>bs_world = w, bs_driver = d, bs_threads = ts[i := th], bs_released = R\<rparr>" order kube th1 d1]
      b go.prems by (simp add: prepares_only_def)
  then have "bs_reach kube s0 \<lparr>bs_world = w, bs_driver = d1, bs_threads = ts[i := th1], bs_released = R\<rparr>"
    using go.prems(2) by (auto intro: bs_reach.step)
  moreover have "range_order (drvState d1) order"
    using go.prems(3) b_step_dom [OF b] by (auto intro: range_order_dom)
  ultimately show ?case
    using go.IH go.prems(1,4) b_step_prepares_only [OF b] by (simp add: s1)
qed simp

definition race_claims :: "ResourceClaim list" where
  "race_claims = [ex_claim ''u1'' ''cache0-part0'', ex_claim ''u2'' ''cache0-part1'']"

lemma race_prepare:
  obtains d1 d2 where
    "prepareClaim (list_kube race_claims) () two_order (ex_kclaim ''u1'') (ex_driver False no_ways) =
       (\<lparr>pr_devices = [b_device \<lparr>res_request = ''cache'', res_driver = ''drv'', res_pool = ''node1'', res_device = ''cache0-part0''\<rparr>],
         pr_error = None\<rparr>, d1)"
    "prepareClaim (list_kube race_claims) () two_order (ex_kclaim ''u2'') d1 =
       (\<lparr>pr_devices = [b_device \<lparr>res_request = ''cache'', res_driver = ''drv'', res_pool = ''node1'', res_device = ''cache0-part1''\<rparr>],
         pr_error = None\<rparr>, d2)"
  by (simp add: prepareClaim_def list_kube_def race_claims_def ex_claim_def ex_kclaim_def StAllocate_def two_parts_eq
      b_device_def report_def)

theorem basic_threads_isolate_witness:
  "\<exists>s r r'. bs_reach (list_kube race_claims)
       \<lparr>bs_world = (), bs_driver = ex_driver False no_ways, bs_threads = [], bs_released = {}\<rparr> s \<and>
     map bt_resp (bs_threads s) = [[''u1'' \<mapsto> r], [''u2'' \<mapsto> r']] \<and> bs_released s = {} \<and>
     map pd_device (pr_devices r) = [''cache0-part0''] \<and> map pd_device (pr_devices r') = [''cache0-part1''] \<and>
     owner (drvState (bs_driver s)) ''cache0-part0'' = Some ''u1''"
proof -
  let ?k = "list_kube race_claims :: unit kube"
  let ?d = "ex_driver False no_ways"
  let ?s0 = "\<lparr>bs_world = (), bs_driver = ?d, bs_threads = [], bs_released = {}\<rparr>"
  let ?res = "\<lparr>pr_devices = [b_device \<lparr>res_request = ''cache'', res_driver = ''drv'', res_pool = ''node1'', res_device = dev\<rparr>],
    pr_error = None\<rparr>"
  obtain d1 d2 where
    p1: "prepareClaim ?k () two_order (ex_kclaim ''u1'') ?d =
       (\<lparr>pr_devices = [b_device \<lparr>res_request = ''cache'', res_driver = ''drv'', res_pool = ''node1'', res_device = ''cache0-part0''\<rparr>],
         pr_error = None\<rparr>, d1)" (is "_ = (?r1, _)") and
    p2: "prepareClaim ?k () two_order (ex_kclaim ''u2'') d1 =
       (\<lparr>pr_devices = [b_device \<lparr>res_request = ''cache'', res_driver = ''drv'', res_pool = ''node1'', res_device = ''cache0-part1''\<rparr>],
         pr_error = None\<rparr>, d2)" (is "_ = (?r2, _)")
    by (rule race_prepare)
  let ?q = "\<lambda>c. b_request [PrepareCall c]"
  let ?f = "\<lambda>c r. b_respond c r \<lparr>bt_pc = BIdle, bt_calls = [], bt_resp = Map.empty\<rparr>"
  have run: "b_solo ?k two_order () (?q c, d) (?f c r, d')" if "prepareClaim ?k () two_order c d = (r, d')" for c r d d'
    by (rule b_solo.go [OF _ b_solo_prepare [OF that]]) (simp add: b_step_def b_request_def)
  have ord: "range_order (drvState ?d) two_order"
    by (simp add: range_order_def two_order_def two_parts_eq insert_commute)
  have po: "prepares_only (?q c)" for c by (simp add: prepares_only_def b_request_def)
  have "bs_reach ?k ?s0 \<lparr>bs_world = (), bs_driver = ?d, bs_threads = [?q (ex_kclaim ''u1''), ?q (ex_kclaim ''u2'')], bs_released = {}\<rparr>"
    using bs_reach.arrive [OF bs_reach.arrive [OF bs_reach.start], of ?k ?s0 "[PrepareCall (ex_kclaim ''u1'')]"
      "[PrepareCall (ex_kclaim ''u2'')]"] by simp
  with b_solo_reach [OF run [OF p1], of 0 "[?q (ex_kclaim ''u1''), ?q (ex_kclaim ''u2'')]" ?s0 "{}"] ord po
  have "bs_reach ?k ?s0 \<lparr>bs_world = (), bs_driver = d1, bs_threads = [?f (ex_kclaim ''u1'') ?r1, ?q (ex_kclaim ''u2'')], bs_released = {}\<rparr>"
    and ord1: "range_order (drvState d1) two_order" by simp_all
  with b_solo_reach [OF run [OF p2], of 1 "[?f (ex_kclaim ''u1'') ?r1, ?q (ex_kclaim ''u2'')]" ?s0 "{}"] po
  have reach: "bs_reach ?k ?s0 \<lparr>bs_world = (), bs_driver = d2, bs_threads = [?f (ex_kclaim ''u1'') ?r1, ?f (ex_kclaim ''u2'') ?r2],
      bs_released = {}\<rparr>" (is "bs_reach _ _ ?s") by simp
  have resp: "bt_resp (?f (ex_kclaim u) r) = [u \<mapsto> r]" for u r by (simp add: b_respond_def ex_kclaim_def)
  have "owner (drvState d2) (pd_device (hd (pr_devices ?r1))) = Some ''u1'' \<and>
      (''u1'' \<noteq> ''u2'' \<longrightarrow> pd_device (hd (pr_devices ?r1)) \<noteq> pd_device (hd (pr_devices ?r2)))"
    using basic_threads_isolate [OF reach, of "?f (ex_kclaim ''u1'') ?r1" "''u1''" ?r1 "hd (pr_devices ?r1)"
      "?f (ex_kclaim ''u2'') ?r2" "''u2''" ?r2 "hd (pr_devices ?r2)"] by (simp add: resp)
  with reach show ?thesis
    by (intro exI [of _ ?s] exI [of _ ?r1] exI [of _ ?r2]) (simp add: resp b_device_def)
qed


end
