(* ===== verification/Discovery.thy ===== *)
theory Discovery
  imports Driver
begin

text \<open>
  \<open>pkg/driver/discovery.go\<close>: the devices that the node publishes and the ResourceSlice that
  carries them. In basic mode there is a device for each partition and each configured bandwidth
  throttle, in structured mode one for each cache domain and way count, which consume from the
  shared counter of the domain.
\<close>

subsection \<open>Size labels\<close>

definition kib :: int where "kib = 1024"
definition mib :: int where "mib = kib * 1024"
definition gib :: int where "gib = mib * 1024"

text \<open>
  The label with one decimal is printed from a floating-point quotient. It is reached only when
  ten times the size, computed with wrap-around, is a multiple of a mebibyte; the size is then an
  odd multiple of half a mebibyte, with fewer significant bits than a \<open>float64\<close> holds, so that the
  quotient and its decimal print are exact. \<open>tenths\<close> is the quotient in tenths.
\<close>

definition formatCacheSize :: "int \<Rightarrow> string" where
  "formatCacheSize bytes =
     (if bytes \<le> 0 then ''0B''
      else if bytes smod gib = 0 then show_int (bytes sdiv gib) @ ''GiB''
      else if bytes smod mib = 0 then show_int (bytes sdiv mib) @ ''MiB''
      else if mib \<le> bytes \<and> wrap64 (bytes * 10) smod mib = 0
      then (let tenths = bytes * 10 div mib
            in show_int (tenths div 10) @ ''.'' @ show_int (tenths mod 10) @ ''MiB'')
      else if bytes smod kib = 0 then show_int (bytes sdiv kib) @ ''KiB''
      else show_int bytes @ ''B'')"

subsection \<open>Basic devices\<close>

definition plain_device :: "string \<Rightarrow> (string \<rightharpoonup> attr_value) \<Rightarrow> slice_device" where
  "plain_device name attrs =
     \<lparr>dev_name = name, dev_attrs = attrs, dev_consumes = [], dev_multi = None, dev_capacity = Map.empty\<rparr>"

text \<open>
  The attributes of a partition. The map is stored in the device before the L2 attributes are
  added to it; since Go maps are references, the device has them too.
\<close>

definition partition_attrs :: "CachePartition \<Rightarrow> string \<rightharpoonup> attr_value" where
  "partition_attrs p =
     [''cacheGroupID'' \<mapsto> IntValue (CacheID p),
      ''cacheWays'' \<mapsto> IntValue (Ways p),
      ''cacheTotalWays'' \<mapsto> IntValue (TotalWays p),
      ''cacheSizeBytes'' \<mapsto> IntValue (SizeBytes p),
      ''cbmHex'' \<mapsto> StringValue (CBM p),
      ''cacheLevel'' \<mapsto> StringValue (Level p),
      ''numaNode'' \<mapsto> IntValue (NUMANode p)]
     ++ (if 0 < WaySizeBytes p
         then [''cacheWaySizeBytes'' \<mapsto> IntValue (WaySizeBytes p),
               ''cacheSizeLabel'' \<mapsto> StringValue (formatCacheSize (SizeBytes p))]
              ++ (if 0 < PartMinCBMBits p
                  then [''minPartitionSizeBytes'' \<mapsto> IntValue (wrap64 (PartMinCBMBits p * WaySizeBytes p))]
                  else Map.empty)
         else Map.empty)
     ++ (if CPUList p \<noteq> [] then [''cpuList'' \<mapsto> StringValue (CPUList p)] else Map.empty)
     ++ (if ResctrlGroup p \<noteq> [] then [''resctrlGroup'' \<mapsto> StringValue (ResctrlGroup p)] else Map.empty)
     ++ (if 0 < L2Ways p
         then [''l2Ways'' \<mapsto> IntValue (L2Ways p), ''l2TotalWays'' \<mapsto> IntValue (L2TotalWays p),
               ''l2CbmHex'' \<mapsto> StringValue (L2CBM p)]
         else Map.empty)"

definition partition_slice_devices :: "CachePartition \<Rightarrow> slice_device list" where
  "partition_slice_devices p =
     [plain_device (ID p) (partition_attrs p)]
     @ (if 0 < MBAThrottle p then
          [plain_device (MBADeviceID p)
             [''mbaDomainID'' \<mapsto> IntValue (CacheID p), ''mbaBandwidth'' \<mapsto> IntValue (MBAThrottle p),
              ''mbaMode'' \<mapsto> StringValue (PartMBAMode p), ''numaNode'' \<mapsto> IntValue (NUMANode p),
              ''resctrlGroup'' \<mapsto> StringValue (ResctrlGroup p)]] else [])
     @ (if 0 < SMBAThrottle p then
          [plain_device (SMBADeviceID p)
             [''smbaDomainID'' \<mapsto> IntValue (CacheID p), ''smbaBandwidth'' \<mapsto> IntValue (SMBAThrottle p),
              ''smbaMode'' \<mapsto> StringValue (PartSMBAMode p), ''numaNode'' \<mapsto> IntValue (NUMANode p),
              ''resctrlGroup'' \<mapsto> StringValue (ResctrlGroup p)]] else [])"

definition buildDevices :: "CachePartition list list \<Rightarrow> slice_device list" where
  "buildDevices perCache = concat (map partition_slice_devices (AllPartitions perCache))"

subsection \<open>Structured devices\<close>

definition counter_key :: "CachePartition \<Rightarrow> string" where
  "counter_key p = ''cache'' @ show_int (CacheID p)"

fun build_counters :: "CachePartition list list \<Rightarrow> (string \<rightharpoonup> int) \<Rightarrow> (string \<rightharpoonup> int)" where
  "build_counters [] counters = counters"
| "build_counters ([] # rest) counters = build_counters rest counters"
| "build_counters ((p # ps) # rest) counters =
     build_counters rest (counters(counter_key p \<mapsto> TotalWays p))"

definition way_attrs :: "CachePartition \<Rightarrow> int \<Rightarrow> string \<rightharpoonup> attr_value" where
  "way_attrs ref ways =
     (let sizeBytes = wrap64 (WaySizeBytes ref * ways) in
      [''cacheGroupID'' \<mapsto> IntValue (CacheID ref),
       ''cacheWays'' \<mapsto> IntValue ways,
       ''cacheTotalWays'' \<mapsto> IntValue (TotalWays ref),
       ''cacheSizeBytes'' \<mapsto> IntValue sizeBytes,
       ''cacheLevel'' \<mapsto> StringValue ''L3'',
       ''numaNode'' \<mapsto> IntValue (NUMANode ref)]
      ++ (if 0 < WaySizeBytes ref
          then [''cacheWaySizeBytes'' \<mapsto> IntValue (WaySizeBytes ref),
                ''cacheSizeLabel'' \<mapsto> StringValue (formatCacheSize sizeBytes)]
               ++ (if 0 < PartMinCBMBits ref
                   then [''minPartitionSizeBytes'' \<mapsto> IntValue (wrap64 (PartMinCBMBits ref * WaySizeBytes ref))]
                   else Map.empty)
          else Map.empty)
      ++ (if CPUList ref \<noteq> [] then [''cpuList'' \<mapsto> StringValue (CPUList ref)] else Map.empty))"

definition way_device :: "CachePartition \<Rightarrow> int \<Rightarrow> slice_device" where
  "way_device ref ways =
     \<lparr>dev_name = ''cache'' @ show_int (CacheID ref) @ ''-'' @ show_int ways @ ''way'',
      dev_attrs = way_attrs ref ways,
      dev_consumes = [(''way-pool'', [counter_key ref \<mapsto> ways])],
      dev_multi = Some True, dev_capacity = Map.empty\<rparr>"

text \<open>\<open>for ways := 1; ways <= totalWays; ways++\<close>\<close>

fun way_devices :: "CachePartition list list \<Rightarrow> slice_device list" where
  "way_devices [] = []"
| "way_devices ([] # rest) = way_devices rest"
| "way_devices ((ref # ps) # rest) = map (way_device ref) [1..TotalWays ref] @ way_devices rest"

definition buildStructuredDevices ::
  "CachePartition list list \<Rightarrow> slice_device list \<times> (string \<times> (string \<rightharpoonup> int)) list" where
  "buildStructuredDevices perCache =
     (if perCache = [] then ([], [])
      else (way_devices perCache, [(''way-pool'', build_counters perCache Map.empty)]))"

subsection \<open>Publishing\<close>

record SlicePublisher =
  spDriverName :: string
  spNodeName :: string
  spCaps :: DRACapabilities

definition NewSlicePublisher :: "string \<Rightarrow> string \<Rightarrow> DRACapabilities \<Rightarrow> SlicePublisher" where
  "NewSlicePublisher driver node caps = \<lparr>spDriverName = driver, spNodeName = node, spCaps = caps\<rparr>"

definition SliceName :: "SlicePublisher \<Rightarrow> string" where
  "SliceName sp = spNodeName sp @ ''-'' @ spDriverName sp"

definition nodeOwnerReference :: "'w kube \<Rightarrow> SlicePublisher \<Rightarrow> 'w \<Rightarrow> go_error + owner_ref list" where
  "nodeOwnerReference kube sp w =
     (case kube_get_node kube w (spNodeName sp) of
        Inl e \<Rightarrow> Inl (Wrapf ''getting node %s: %w'' [ArgStr (spNodeName sp)] (OsError e))
      | Inr node \<Rightarrow> Inr [\<lparr>or_api = ''v1'', or_kind = ''Node'', or_name = node_obj_name node,
                           or_uid = node_obj_uid node\<rparr>])"

definition slice_of :: "SlicePublisher \<Rightarrow> owner_ref list \<Rightarrow> CachePartition list list \<Rightarrow> ResourceSlice" where
  "slice_of sp owners perCache =
     (let (devices, sharedCounters) =
            (if PartitionableDevices (spCaps sp) \<and> 0 < length perCache
             then buildStructuredDevices perCache
             else (buildDevices perCache, []))
      in \<lparr>sl_name = spNodeName sp @ ''-'' @ spDriverName sp, sl_version = [], sl_owners = owners,
          sl_driver = spDriverName sp, sl_node = spNodeName sp, sl_counters = sharedCounters,
          sl_pool = spNodeName sp, sl_pool_count = 1, sl_devices = devices\<rparr>)"

text \<open>A node that cannot be read leaves the slice without an owner; the error is only logged.\<close>

definition PublishSlices ::
  "'w kube \<Rightarrow> SlicePublisher \<Rightarrow> CachePartition list list \<Rightarrow> 'w \<Rightarrow> go_error option \<times> 'w" where
  "PublishSlices kube sp perCache w =
     (let owners = (case nodeOwnerReference kube sp w of Inl _ \<Rightarrow> [] | Inr os \<Rightarrow> os);
          slice = slice_of sp owners perCache
      in case kube_create_slice kube w False slice of
           (Inr _, w1) \<Rightarrow> (None, w1)
         | (Inl e, w1) \<Rightarrow>
             if \<not> kube_already_exists kube e
             then (Some (Wrapf ''creating ResourceSlice: %w'' [] (OsError e)), w1)
             else (case kube_get_slice kube w1 (sl_name slice) of
                     Inl e' \<Rightarrow>
                       (Some (Wrapf ''fetching existing ResourceSlice after conflict: %w'' [] (OsError e')), w1)
                   | Inr existing \<Rightarrow>
                       (let slice1 = slice\<lparr>sl_version := sl_version existing\<rparr>;
                            slice2 = (if sl_owners slice1 = [] \<and> 0 < length (sl_owners existing)
                                      then slice1\<lparr>sl_owners := sl_owners existing\<rparr> else slice1)
                        in case kube_update_slice kube w1 slice2 of
                             (Some e', w2) \<Rightarrow>
                               (Some (Wrapf ''updating ResourceSlice: %w'' [] (OsError e')), w2)
                           | (None, w2) \<Rightarrow> (None, w2))))"

definition DeleteSlice :: "'w kube \<Rightarrow> SlicePublisher \<Rightarrow> 'w \<Rightarrow> go_error option \<times> 'w" where
  "DeleteSlice kube sp w =
     (case kube_delete_slice kube w (SliceName sp) of
        (Some e, w1) \<Rightarrow> (Some (Wrapf ''deleting ResourceSlice %s: %w'' [ArgStr (SliceName sp)] (OsError e)), w1)
      | (None, w1) \<Rightarrow> (None, w1))"

end
