(* ===== verification/Numa.thy ===== *)
theory Numa
  imports OsModel
begin

text \<open>
  \<open>pkg/cache/numa.go\<close>: which NUMA node, which CPUs and how many bytes belong to a cache domain,
  read from \<open>/sys\<close>. The loop over a CPU range \<open>a-b\<close> counts with an \<open>int\<close>; if \<open>b\<close> is the largest
  \<open>int\<close> the counter wraps around and the loop does not end, so it is a partial function.
\<close>

definition defaultSysCPUPath :: string where "defaultSysCPUPath = ''/sys/devices/system/cpu''"
definition defaultSysNodePath :: string where "defaultSysNodePath = ''/sys/devices/system/node''"

subsection \<open>CPU lists\<close>

partial_function (option) range_cpus :: "int \<Rightarrow> int \<Rightarrow> int list option" where
  "range_cpus i e =
     (if i \<le> e then Option.bind (range_cpus (wrap64 (i + 1)) e) (\<lambda>cpus. Some (i # cpus))
      else Some [])"

definition parse_cpu_part :: "string \<Rightarrow> (go_error + int list) option" where
  "parse_cpu_part token =
     (let part = trim_space token in
      case str_index (CHR ''-'') part of
        Some dashIdx \<Rightarrow>
          (case atoi (take dashIdx part) of
             None \<Rightarrow> Some (Inl (NumError (take dashIdx part)))
           | Some start \<Rightarrow>
               (case atoi (drop (Suc dashIdx) part) of
                  None \<Rightarrow> Some (Inl (NumError (drop (Suc dashIdx) part)))
                | Some e \<Rightarrow> map_option Inr (range_cpus start e)))
      | None \<Rightarrow>
          (case atoi part of
             None \<Rightarrow> Some (Inl (NumError part))
           | Some cpu \<Rightarrow> Some (Inr [cpu])))"

fun parse_cpu_parts :: "string list \<Rightarrow> (go_error + int list) option" where
  "parse_cpu_parts [] = Some (Inr [])"
| "parse_cpu_parts (p # ps) =
     (case parse_cpu_part p of
        None \<Rightarrow> None
      | Some (Inl e) \<Rightarrow> Some (Inl e)
      | Some (Inr cpus) \<Rightarrow>
          (case parse_cpu_parts ps of
             None \<Rightarrow> None
           | Some (Inl e) \<Rightarrow> Some (Inl e)
           | Some (Inr cpus') \<Rightarrow> Some (Inr (cpus @ cpus'))))"

definition parseCPUList :: "string \<Rightarrow> (go_error + int list) option" where
  "parseCPUList s = (if s = [] then Some (Inr []) else parse_cpu_parts (str_split (CHR '','') s))"

subsection \<open>Sizes\<close>

definition size_multiplier :: "char \<Rightarrow> int option" where
  "size_multiplier c =
     (if c = CHR ''K'' \<or> c = CHR ''k'' then Some 1024
      else if c = CHR ''M'' \<or> c = CHR ''m'' then Some (1024 * 1024)
      else if c = CHR ''G'' \<or> c = CHR ''g'' then Some (1024 * 1024 * 1024)
      else None)"

text \<open>\<open>strings.ToUpper\<close> of a last byte is compared with one-letter strings, which only the six
  letters above meet. \<open>ParseInt\<close> in base ten reads what \<open>Atoi\<close> reads.\<close>

definition parseCacheSize :: "string \<Rightarrow> go_error + int" where
  "parseCacheSize s =
     (if s = [] then Inl (Errorf ''empty size string'' [])
      else
        let (multiplier, digits) =
              (case size_multiplier (last s) of
                 None \<Rightarrow> (1, s)
               | Some m \<Rightarrow> (m, butlast s))
        in case atoi (trim_space digits) of
             None \<Rightarrow> Inl (NumError (trim_space digits))
           | Some v \<Rightarrow> Inr (wrap64 (v * multiplier)))"

subsection \<open>NUMA nodes of CPUs\<close>

definition node_entry ::
  "'w os \<Rightarrow> 'w \<Rightarrow> string \<Rightarrow> dir_entry \<Rightarrow> (int \<rightharpoonup> int) \<Rightarrow> (int \<rightharpoonup> int) option" where
  "node_entry os w sysNodePath entry cpuToNUMA =
     (if \<not> de_dir entry \<or> \<not> has_prefix ''node'' (de_name entry) then Some cpuToNUMA
      else (case atoi (trim_prefix ''node'' (de_name entry)) of
        None \<Rightarrow> Some cpuToNUMA
      | Some nodeID \<Rightarrow>
          (case os_read_file os w (path_join [sysNodePath, de_name entry, ''cpulist'']) of
             Inl _ \<Rightarrow> Some cpuToNUMA
           | Inr data \<Rightarrow>
               (case parseCPUList (trim_space data) of
                  None \<Rightarrow> None
                | Some (Inl _) \<Rightarrow> Some cpuToNUMA
                | Some (Inr cpus) \<Rightarrow> Some (fold (\<lambda>cpu m. m(cpu \<mapsto> nodeID)) cpus cpuToNUMA)))))"

fun node_entries ::
  "'w os \<Rightarrow> 'w \<Rightarrow> string \<Rightarrow> dir_entry list \<Rightarrow> (int \<rightharpoonup> int) \<Rightarrow> (int \<rightharpoonup> int) option" where
  "node_entries os w sysNodePath [] m = Some m"
| "node_entries os w sysNodePath (entry # entries) m =
     (case node_entry os w sysNodePath entry m of
        None \<Rightarrow> None
      | Some m' \<Rightarrow> node_entries os w sysNodePath entries m')"

definition buildCPUToNUMA :: "'w os \<Rightarrow> 'w \<Rightarrow> string \<Rightarrow> (go_error + (int \<rightharpoonup> int)) option" where
  "buildCPUToNUMA os w sysNodePath =
     (case os_read_dir os w sysNodePath of
        Inl e \<Rightarrow> Some (Inl (OsError e))
      | Inr entries \<Rightarrow> map_option Inr (node_entries os w sysNodePath entries Map.empty))"

subsection \<open>Cache directories of CPUs\<close>

text \<open>The empty path stands for no L3 cache.\<close>

fun find_index :: "'w os \<Rightarrow> 'w \<Rightarrow> string \<Rightarrow> dir_entry list \<Rightarrow> string" where
  "find_index os w cachePath [] = []"
| "find_index os w cachePath (entry # entries) =
     (if \<not> de_dir entry \<or> \<not> has_prefix ''index'' (de_name entry) then find_index os w cachePath entries
      else (case os_read_file os w (path_join [cachePath, de_name entry, ''level'']) of
              Inl _ \<Rightarrow> find_index os w cachePath entries
            | Inr data \<Rightarrow>
                if trim_space data = ''3'' then path_join [cachePath, de_name entry]
                else find_index os w cachePath entries))"

definition findL3CacheIndexDir :: "'w os \<Rightarrow> 'w \<Rightarrow> string \<Rightarrow> string" where
  "findL3CacheIndexDir os w cachePath =
     (case os_read_dir os w cachePath of Inl _ \<Rightarrow> [] | Inr entries \<Rightarrow> find_index os w cachePath entries)"

definition findL3CacheID :: "'w os \<Rightarrow> 'w \<Rightarrow> string \<Rightarrow> string" where
  "findL3CacheID os w cachePath =
     (let dir = findL3CacheIndexDir os w cachePath in if dir = [] then [] else path_join [dir, ''id''])"

text \<open>An ID file that is missing or does not hold a number is skipped.\<close>

definition read_id :: "'w os \<Rightarrow> 'w \<Rightarrow> string \<Rightarrow> int option" where
  "read_id os w path =
     (case os_read_file os w path of Inl _ \<Rightarrow> None | Inr data \<Rightarrow> atoi (trim_space data))"

subsection \<open>Lookups\<close>

definition numa_entry ::
  "'w os \<Rightarrow> 'w \<Rightarrow> string \<Rightarrow> (int \<rightharpoonup> int) \<Rightarrow> dir_entry \<Rightarrow> (int \<rightharpoonup> int) \<Rightarrow> (int \<rightharpoonup> int)" where
  "numa_entry os w sysCPUPath cpuToNUMA entry m =
     (if \<not> de_dir entry \<or> \<not> has_prefix ''cpu'' (de_name entry) then m
      else (case atoi (trim_prefix ''cpu'' (de_name entry)) of
        None \<Rightarrow> m
      | Some cpuID \<Rightarrow>
          (let l3IDPath = findL3CacheID os w (path_join [sysCPUPath, de_name entry, ''cache'']) in
           if l3IDPath = [] then m
           else (case read_id os w l3IDPath of
                   None \<Rightarrow> m
                 | Some cacheID \<Rightarrow>
                     if m cacheID \<noteq> None then m
                     else (case cpuToNUMA cpuID of
                             None \<Rightarrow> m
                           | Some numaNode \<Rightarrow> m(cacheID \<mapsto> numaNode))))))"

definition LookupCacheNUMA ::
  "'w os \<Rightarrow> 'w \<Rightarrow> string \<Rightarrow> string \<Rightarrow> (go_error + (int \<rightharpoonup> int)) option" where
  "LookupCacheNUMA os w cpuPath nodePath =
     (let sysCPUPath = (if cpuPath = [] then defaultSysCPUPath else cpuPath);
          sysNodePath = (if nodePath = [] then defaultSysNodePath else nodePath)
      in case buildCPUToNUMA os w sysNodePath of
           None \<Rightarrow> None
         | Some (Inl e) \<Rightarrow> Some (Inl (Wrapf ''building CPU-to-NUMA map: %w'' [] e))
         | Some (Inr cpuToNUMA) \<Rightarrow>
             (case os_read_dir os w sysCPUPath of
                Inl e \<Rightarrow> Some (Inl (Wrapf ''reading %s: %w'' [ArgStr sysCPUPath] (OsError e)))
              | Inr entries \<Rightarrow>
                  (let m = fold (numa_entry os w sysCPUPath cpuToNUMA) entries Map.empty
                   in Some (if m = Map.empty
                            then Inl (Errorf ''no L3 cache-to-NUMA mappings found'' [])
                            else Inr m))))"

text \<open>
  The two lookups of an attribute of the L3 directory differ only in the file and in how its
  content is read; \<open>read_attr\<close> is that step, \<open>None\<close> where the source continues.
\<close>

definition cache_entry ::
  "'w os \<Rightarrow> 'w \<Rightarrow> string \<Rightarrow> (string \<Rightarrow> 'v option) \<Rightarrow> dir_entry \<Rightarrow> (int \<rightharpoonup> 'v) \<Rightarrow> (int \<rightharpoonup> 'v)" where
  "cache_entry os w sysCPUPath read_attr entry m =
     (if \<not> de_dir entry \<or> \<not> has_prefix ''cpu'' (de_name entry) then m
      else (case atoi (trim_prefix ''cpu'' (de_name entry)) of
        None \<Rightarrow> m
      | Some _ \<Rightarrow>
          (let indexDir = findL3CacheIndexDir os w (path_join [sysCPUPath, de_name entry, ''cache'']) in
           if indexDir = [] then m
           else (case read_id os w (path_join [indexDir, ''id'']) of
                   None \<Rightarrow> m
                 | Some cacheID \<Rightarrow>
                     if m cacheID \<noteq> None then m
                     else (case read_attr indexDir of
                             None \<Rightarrow> m
                           | Some v \<Rightarrow> m(cacheID \<mapsto> v))))))"

definition read_cpu_list :: "'w os \<Rightarrow> 'w \<Rightarrow> string \<Rightarrow> string option" where
  "read_cpu_list os w indexDir =
     (case os_read_file os w (path_join [indexDir, ''shared_cpu_list'']) of
        Inl _ \<Rightarrow> None
      | Inr data \<Rightarrow> Some (trim_space data))"

definition read_cache_size :: "'w os \<Rightarrow> 'w \<Rightarrow> string \<Rightarrow> int option" where
  "read_cache_size os w indexDir =
     (case os_read_file os w (path_join [indexDir, ''size'']) of
        Inl _ \<Rightarrow> None
      | Inr data \<Rightarrow> (case parseCacheSize (trim_space data) of Inl _ \<Rightarrow> None | Inr v \<Rightarrow> Some v))"

definition LookupCacheCPUList :: "'w os \<Rightarrow> 'w \<Rightarrow> string \<Rightarrow> go_error + (int \<rightharpoonup> string)" where
  "LookupCacheCPUList os w cpuPath =
     (let sysCPUPath = (if cpuPath = [] then defaultSysCPUPath else cpuPath)
      in case os_read_dir os w sysCPUPath of
           Inl e \<Rightarrow> Inl (Wrapf ''reading %s: %w'' [ArgStr sysCPUPath] (OsError e))
         | Inr entries \<Rightarrow>
             (let m = fold (cache_entry os w sysCPUPath (read_cpu_list os w)) entries Map.empty
              in if m = Map.empty then Inl (Errorf ''no L3 CPU lists found in %s'' [ArgStr sysCPUPath])
                 else Inr m))"

definition LookupCacheSizes :: "'w os \<Rightarrow> 'w \<Rightarrow> string \<Rightarrow> go_error + (int \<rightharpoonup> int)" where
  "LookupCacheSizes os w cpuPath =
     (let sysCPUPath = (if cpuPath = [] then defaultSysCPUPath else cpuPath)
      in case os_read_dir os w sysCPUPath of
           Inl e \<Rightarrow> Inl (Wrapf ''reading %s: %w'' [ArgStr sysCPUPath] (OsError e))
         | Inr entries \<Rightarrow>
             (let m = fold (cache_entry os w sysCPUPath (read_cache_size os w)) entries Map.empty
              in if m = Map.empty then Inl (Errorf ''no L3 cache sizes found in %s'' [ArgStr sysCPUPath])
                 else Inr m))"

end
