(* ===== verification/Startup.thy ===== *)
theory Startup
  imports Discovery Numa
begin

text \<open>
  \<open>cmd/driver/main.go\<close>: how the driver is put together at startup, and the CDI hook that runs when a
  container is created. \<open>klog.Fatalf\<close> ends the process at once, without the deferred clean-up calls;
  it is the outcome \<open>Fatal\<close>. \<open>Lifecycle\<close> composes the pieces into the whole program.
\<close>

definition mainDriverName :: string where "mainDriverName = ''resctrl.fabiendupont.io''"

datatype 'a outcome = Fatal string "go_error option" | Started 'a

subsection \<open>Bandwidth throttles\<close>

definition auto_throttle :: "int \<Rightarrow> MBAInfo \<Rightarrow> int" where
  "auto_throttle flag info =
     (if flag < 0 then (if CtrlInPercentages info then 100 else 0) else flag)"

definition configure_mba :: "'w os \<Rightarrow> string \<Rightarrow> 'w \<Rightarrow> int \<Rightarrow> CachePartition list list \<Rightarrow> CachePartition list list" where
  "configure_mba os root w mbaBandwidth perCache =
     (if IsMBAAvailable os root w then
        (case MBA os root w of
           Inl _ \<Rightarrow> perCache
         | Inr mbaInfo \<Rightarrow>
             (let throttle = auto_throttle mbaBandwidth mbaInfo
              in if 0 < throttle then ApplyMBA throttle (MBAMode mbaInfo) perCache else perCache))
      else perCache)"

definition configure_smba :: "'w os \<Rightarrow> string \<Rightarrow> 'w \<Rightarrow> int \<Rightarrow> CachePartition list list \<Rightarrow> CachePartition list list" where
  "configure_smba os root w smbaBandwidth perCache =
     (if IsSMBAAvailable os root w then
        (case SMBA os root w of
           Inl _ \<Rightarrow> perCache
         | Inr smbaInfo \<Rightarrow>
             (let throttle = auto_throttle smbaBandwidth smbaInfo
              in if 0 < throttle then ApplySMBA throttle (MBAMode smbaInfo) perCache else perCache))
      else perCache)"

definition configure_l2 :: "'w os \<Rightarrow> string \<Rightarrow> 'w \<Rightarrow> CachePartition list list \<Rightarrow> CachePartition list list" where
  "configure_l2 os root w perCache =
     (if IsL2Available os root w then
        (case InfoL2 os root w of Inl _ \<Rightarrow> perCache | Inr l2Info \<Rightarrow> ApplyL2 l2Info perCache)
      else perCache)"

subsection \<open>The inventory\<close>

text \<open>From the flags and the two file systems to the partitions; \<open>None\<close> when a CPU list hangs.\<close>

definition build_inventory ::
  "'w os \<Rightarrow> string \<Rightarrow> int \<Rightarrow> string \<Rightarrow> int \<Rightarrow> int \<Rightarrow> 'w
     \<Rightarrow> (CATInfo \<times> CachePartition list list) outcome option" where
  "build_inventory os root partitionCount partitionSizes mbaBandwidth smbaBandwidth w =
     (if \<not> IsAvailable os root w then Some (Fatal ''resctrl/CAT not available'' None)
      else (case Info os root w of
        Inl e \<Rightarrow> Some (Fatal ''Failed to read resctrl info'' (Some e))
      | Inr info \<Rightarrow>
      (case LookupCacheNUMA os w [] [] of
        None \<Rightarrow> None
      | Some numa \<Rightarrow>
          (let cacheToNUMA = (case numa of Inl _ \<Rightarrow> None | Inr m \<Rightarrow> Some m);
               cacheToSize = (case LookupCacheSizes os w [] of Inl _ \<Rightarrow> None | Inr m \<Rightarrow> Some m);
               cacheToCPU = (case LookupCacheCPUList os w [] of Inl _ \<Rightarrow> None | Inr m \<Rightarrow> Some m);
               parsed = (if partitionSizes \<noteq> [] then ParsePartitionSizes partitionSizes
                         else Inr (SpecsFromCount partitionCount (NumWays info)))
           in case parsed of
                Inl e \<Rightarrow> Some (Fatal ''Invalid --partition-sizes'' (Some e))
              | Inr specs \<Rightarrow>
                  (case PartitionCache info specs cacheToNUMA cacheToSize cacheToCPU of
                     Inl e \<Rightarrow> Some (Fatal ''Failed to partition cache'' (Some e))
                   | Inr perCache \<Rightarrow>
                       Some (Started (info,
                         configure_l2 os root w
                           (configure_smba os root w smbaBandwidth
                             (configure_mba os root w mbaBandwidth perCache)))))))))"

subsection \<open>The mode\<close>

text \<open>The groups of the partitions in order; a failure ends the process and leaves the groups that
  were created.\<close>

fun create_groups :: "'w os \<Rightarrow> string \<Rightarrow> CachePartition list \<Rightarrow> 'w \<Rightarrow> go_error option \<times> 'w" where
  "create_groups os root [] w = (None, w)"
| "create_groups os root (p # ps) w =
     (case CreateGroup os root (ResctrlGroup p) (FormatCombinedSchemata p) w of
        (Some e, w1) \<Rightarrow> (Some e, w1)
      | (None, w1) \<Rightarrow> create_groups os root ps w1)"

text \<open>
  What basic mode reports on the way to a started driver: the number of partitions, one created group
  for each, and the recovered partitions if there are any. (The counter of failed creations is
  lost, since the process ends.)
\<close>

definition startup_events :: "CachePartition list list \<Rightarrow> int \<Rightarrow> metric_event list" where
  "startup_events perCache recovered =
     GaugeSet PartitionsTotal [] (int (length (AllPartitions perCache)))
     # map (\<lambda>p. Inc ResctrlGroupCreateTotal [''success'']) (AllPartitions perCache)
     @ (if 0 < recovered then [GaugeSet PartitionsAllocated [] recovered] else [])"

text \<open>\<open>make(map[int]int)\<close> with all ways for every cache domain.\<close>

definition ways_per_domain :: "CATInfo \<Rightarrow> int \<rightharpoonup> int" where
  "ways_per_domain info = fold (\<lambda>cacheID m. m(cacheID \<mapsto> NumWays info)) (CacheIDs info) Map.empty"

text \<open>
  From the inventory to the driver that serves requests. \<open>None\<close> when the recovery loop does not
  end. The hook binary has been installed at \<open>hookBinaryPath\<close>; a failed recovery is only logged.
\<close>

definition start_driver ::
  "'w os \<Rightarrow> 'w kube \<Rightarrow> string \<Rightarrow> string \<Rightarrow> string \<Rightarrow> string \<Rightarrow> CATInfo \<Rightarrow> CachePartition list list
     \<Rightarrow> 'w \<Rightarrow> (Driver outcome \<times> 'w) option" where
  "start_driver os kube root node hookBinaryPath cdi info perCache w =
     (let (caps, w1) = ProbeFeatureGates kube mainDriverName node w;
          publisher = NewSlicePublisher mainDriverName node caps;
          publish = (\<lambda>state wa events w'.
            (case PublishSlices kube publisher perCache w' of
               (Some e, w'') \<Rightarrow> (Fatal ''Failed to publish ResourceSlices'' (Some e), w'')
             | (None, w'') \<Rightarrow>
                 (let d = fold report events (NewDriver mainDriverName node state caps wa (Some info) hookBinaryPath cdi)
                  in (Started (if PartitionableDevices caps then RecoverStructuredAllocs os root w'' d else d), w''))))
      in if PartitionableDevices caps
         then Some (publish (NewAllocationState []) (NewWayAllocator (ways_per_domain info)) [] w1)
         else (case create_groups os root (AllPartitions perCache) w1 of
                 (Some e, w2) \<Rightarrow> Some (Fatal ''Failed to create resctrl group'' (Some e), w2)
               | (None, w2) \<Rightarrow>
                   (case WriteCDISpecs os cdi hookBinaryPath perCache w2 of
                      (Some e, w3) \<Rightarrow> Some (Fatal ''Failed to write CDI specs'' (Some e), w3)
                    | (None, w3) \<Rightarrow>
                        (case RecoverAllocations kube w3 mainDriverName node (NewAllocationState perCache) of
                           None \<Rightarrow> None
                         | Some (recovered, err, state) \<Rightarrow>
                             Some (publish state (NewWayAllocator Map.empty) (startup_events perCache recovered) w3)))))"

text \<open>The deferred clean-up of basic mode, which runs when the server returns without an error.\<close>

fun delete_groups :: "'w os \<Rightarrow> string \<Rightarrow> CachePartition list \<Rightarrow> 'w \<Rightarrow> 'w" where
  "delete_groups os root [] w = w"
| "delete_groups os root (p # ps) w =
     delete_groups os root ps (snd (DeleteGroup os root (ResctrlGroup p) w))"

definition basic_cleanup :: "'w os \<Rightarrow> string \<Rightarrow> string \<Rightarrow> CachePartition list list \<Rightarrow> 'w \<Rightarrow> 'w" where
  "basic_cleanup os root cdi perCache w =
     delete_groups os root (AllPartitions perCache) (CleanupCDISpecs os cdi w)"

definition fixed_targets :: "CachePartition list list \<Rightarrow> MonitorTarget list" where
  "fixed_targets perCache =
     map (\<lambda>p. \<lparr>PartitionName = ID p, TargetGroup = ResctrlGroup p, CacheGroupID = CacheID p\<rparr>)
       (AllPartitions perCache)"

subsection \<open>The CDI hook\<close>

text \<open>The last argument \<open>--group=\<close> wins; the PID comes from the OCI state on standard input, whose
  decoding is the argument \<open>ociState\<close>: the value of the field \<open>pid\<close>, zero when it is absent.\<close>

fun hook_group :: "string list \<Rightarrow> string \<Rightarrow> string" where
  "hook_group [] grp = grp"
| "hook_group (arg # args) grp =
     hook_group args (if has_prefix ''--group='' arg then drop (length ''--group='') arg else grp)"

definition runCDIHook ::
  "'w os \<Rightarrow> string \<Rightarrow> string list \<Rightarrow> (go_error + int) \<Rightarrow> 'w \<Rightarrow> go_error option \<times> 'w" where
  "runCDIHook os root args ociState w =
     (let grp = hook_group args []
      in if grp = [] then (Some (Errorf ''--group is required'' []), w)
         else (case ociState of
           Inl e \<Rightarrow> (Some (Wrapf ''reading OCI state: %w'' [] e), w)
         | Inr pid \<Rightarrow>
             if pid = 0 then (Some (Errorf ''OCI state has no PID'' []), w)
             else (case AssignPID os root grp pid w of
                     (Some e, w1) \<Rightarrow>
                       (Some (Wrapf ''assigning pid %d to resctrl group %s: %w'' [ArgInt pid, ArgStr grp] e), w1)
                   | (None, w1) \<Rightarrow> (None, w1))))"

text \<open>With the arguments that the specs carry, the hook writes the PID to the tasks file of the group.\<close>

lemma hook_group_flag: "hook_group [''--group='' @ grp] [] = grp"
proof -
  have "drop (length ''--group='') (''--group='' @ grp) = grp" by (rule append_eq_conv_conj [THEN iffD1, THEN conjunct2, symmetric, OF refl])
  moreover have "has_prefix ''--group='' (''--group='' @ grp)" by (rule has_prefix_append)
  ultimately show ?thesis by (simp only: hook_group.simps if_True)
qed

lemma runCDIHook_joins:
  assumes "grp \<noteq> []" "pid \<noteq> 0"
  shows "runCDIHook os root [''--group='' @ grp] (Inr pid) w =
    (case os_write_file os w (path_join [root, grp, ''tasks'']) (show_int pid) of
       (None, w1) \<Rightarrow> (None, w1)
     | (Some e, w1) \<Rightarrow> (Some (Wrapf ''assigning pid %d to resctrl group %s: %w''
                           [ArgInt pid, ArgStr grp] (OsError e)), w1))"
  using assms unfolding runCDIHook_def hook_group_flag
  by (simp add: AssignPID_def Let_def split: prod.splits option.splits)

text \<open>In hook mode no flag is parsed, so the resctrl root is the default one.\<close>

definition DefaultRoot :: string where "DefaultRoot = ''/sys/fs/resctrl''"

definition hook_main :: "'w os \<Rightarrow> string list \<Rightarrow> (go_error + int) \<Rightarrow> 'w \<Rightarrow> int \<times> 'w" where
  "hook_main os args ociState w =
     (case runCDIHook os DefaultRoot args ociState w of
        (Some _, w1) \<Rightarrow> (1, w1)
      | (None, w1) \<Rightarrow> (0, w1))"

end
