(* ===== verification/Registrar.thy ===== *)
theory Registrar
  imports OsModel
begin

text \<open>
  \<open>pkg/driver/registrar.go\<close>: the registration service that the kubelet's plugin watcher calls. The
  gRPC runtime is not part of the sources: listening on a socket is a call of the record \<open>'w net\<close>, and
  serving until the context is cancelled is an argument, the error and the world when it returns.
\<close>

record 'w net =
  net_listen :: "'w \<Rightarrow> string \<Rightarrow> string option \<times> 'w"

record Registrar =
  regDriverName :: string
  regEndpoint :: string

definition NewRegistrar :: "string \<Rightarrow> string \<Rightarrow> Registrar" where
  "NewRegistrar name endpoint = \<lparr>regDriverName = name, regEndpoint = endpoint\<rparr>"

text \<open>\<open>registerapi.DRAPlugin\<close> and \<open>drav1.DRAPluginService\<close> are constants of the kubelet's packages.\<close>

record plugin_api =
  api_plugin_type :: string
  api_plugin_service :: string

record PluginInfo =
  piType :: string
  piName :: string
  piEndpoint :: string
  piSupportedVersions :: "string list"

definition GetInfo :: "plugin_api \<Rightarrow> Registrar \<Rightarrow> PluginInfo" where
  "GetInfo api r =
     \<lparr>piType = api_plugin_type api, piName = regDriverName r, piEndpoint = regEndpoint r,
      piSupportedVersions = [api_plugin_service api]\<rparr>"

record RegistrationStatus =
  PluginRegistered :: bool
  StatusError :: string

text \<open>The status is only logged; the response is empty.\<close>

definition NotifyRegistrationStatus :: "Registrar \<Rightarrow> RegistrationStatus \<Rightarrow> unit" where
  "NotifyRegistrationStatus r status = ()"

definition reg_socket_path :: "Registrar \<Rightarrow> string \<Rightarrow> string" where
  "reg_socket_path r registryDir = path_join [registryDir, regDriverName r @ ''-reg.sock'']"

text \<open>
  The server removes a stale socket before it listens. \<open>served\<close> is the result of \<open>server.Serve\<close>: no error
  means that the context was cancelled and the server stopped, and then the socket is removed too.
\<close>

definition RegistrarServe ::
  "'w os \<Rightarrow> 'w net \<Rightarrow> ('w \<Rightarrow> string option \<times> 'w) \<Rightarrow> Registrar \<Rightarrow> string \<Rightarrow> 'w \<Rightarrow> go_error option \<times> 'w" where
  "RegistrarServe os net served r registryDir w =
     (let socketPath = reg_socket_path r registryDir in
      case os_mkdir_all os w registryDir of
        (Some e, w1) \<Rightarrow> (Some (Wrapf ''creating registry directory: %w'' [] (OsError e)), w1)
      | (None, w1) \<Rightarrow>
          (case net_listen net (snd (os_remove os w1 socketPath)) socketPath of
             (Some e, w2) \<Rightarrow> (Some (Wrapf ''listening on %s: %w'' [ArgStr socketPath] (OsError e)), w2)
           | (None, w2) \<Rightarrow>
               (case served w2 of
                  (Some e, w3) \<Rightarrow> (Some (OsError e), w3)
                | (None, w3) \<Rightarrow> (None, snd (os_remove os w3 socketPath)))))"

end
