(* ===== verification/Health.thy ===== *)
theory Health
  imports Cdi
begin

text \<open>
  \<open>pkg/driver/health.go\<close>: the liveness and readiness endpoints. The HTTP server is a parameter, a
  function from the address to the error with which it ends; the handler of \<open>/metrics\<close> belongs to
  Prometheus and is one too.
\<close>

record HealthServer =
  hsPort :: int
  hsReady :: bool
  resctrlDir :: string
  cdiSpecDir :: string

definition NewHealthServer :: "int \<Rightarrow> HealthServer" where
  "NewHealthServer port =
     \<lparr>hsPort = port, hsReady = False, resctrlDir = ''/sys/fs/resctrl'', cdiSpecDir = ''/var/run/cdi''\<rparr>"

definition MarkReady :: "HealthServer \<Rightarrow> HealthServer" where
  "MarkReady h = h\<lparr>hsReady := True\<rparr>"

subsection \<open>The checks\<close>

text \<open>The named checks in the order in which the JSON printer writes a map: by key.\<close>

record healthCheckResult =
  hcStatus :: string
  hcChecks :: "(string \<times> string) list"

definition resctrl_check :: "'w os \<Rightarrow> HealthServer \<Rightarrow> 'w \<Rightarrow> string \<times> bool" where
  "resctrl_check os h w =
     (case os_stat os w (resctrlDir h) of
        Inl e \<Rightarrow> (''unavailable: '' @ e, False)
      | Inr _ \<Rightarrow> (''ok'', True))"

definition checked_spec :: "HealthServer \<Rightarrow> string" where
  "checked_spec h = cdiSpecDir h @ ''/'' @ cdiVendor @ ''-'' @ cdiClass @ ''.json''"

definition cdi_check :: "'w os \<Rightarrow> HealthServer \<Rightarrow> 'w \<Rightarrow> string \<times> bool" where
  "cdi_check os h w =
     (case os_stat os w (checked_spec h) of
        Inl e \<Rightarrow> (''missing: '' @ e, False)
      | Inr fi \<Rightarrow> if fi_size fi = 0 then (''empty'', False) else (''ok'', True))"

definition health_result :: "'w os \<Rightarrow> HealthServer \<Rightarrow> 'w \<Rightarrow> bool \<times> healthCheckResult" where
  "health_result os h w =
     (let (resctrl, ok1) = resctrl_check os h w;
          (cdi, ok2) = cdi_check os h w;
          healthy = (ok1 \<and> ok2)
      in (healthy, \<lparr>hcStatus = (if healthy then ''healthy'' else ''unhealthy''),
                    hcChecks = [(''cdi_spec'', cdi), (''resctrl'', resctrl)]\<rparr>))"

definition result_json :: "healthCheckResult \<Rightarrow> json" where
  "result_json r =
     JObject ((''status'', JString (hcStatus r))
              # (if hcChecks r = [] then []
                 else [(''checks'', JObject (map (\<lambda>(k, v). (k, JString v)) (hcChecks r)))]))"

subsection \<open>The endpoints\<close>

text \<open>The content type is \<open>None\<close> where the handler does not set it.\<close>

record http_response =
  resp_code :: int
  resp_type :: "string option"
  resp_body :: string

definition healthz :: "'w os \<Rightarrow> HealthServer \<Rightarrow> 'w \<Rightarrow> http_response" where
  "healthz os h w =
     (let (healthy, result) = health_result os h w
      in \<lparr>resp_code = (if healthy then 200 else 503), resp_type = Some ''application/json'',
          resp_body = json_compact (result_json result)\<rparr>)"

definition readyz :: "HealthServer \<Rightarrow> http_response" where
  "readyz h =
     (if \<not> hsReady h then \<lparr>resp_code = 503, resp_type = None, resp_body = ''not ready''\<rparr>
      else \<lparr>resp_code = 200, resp_type = None, resp_body = ''ok''\<rparr>)"

text \<open>The routes; the multiplexer of the library answers any other path itself.\<close>

definition serve_path ::
  "'w os \<Rightarrow> HealthServer \<Rightarrow> http_response \<Rightarrow> string \<Rightarrow> 'w \<Rightarrow> http_response" where
  "serve_path os h metrics path w =
     (if path = ''/healthz'' then healthz os h w
      else if path = ''/readyz'' then readyz h
      else if path = ''/metrics'' then metrics
      else \<lparr>resp_code = 404, resp_type = Some ''text/plain; charset=utf-8'',
             resp_body = ''404 page not found'' @ [newline]\<rparr>)"

text \<open>A server that was shut down is no error.\<close>

definition HealthServe :: "(string \<Rightarrow> 'w \<Rightarrow> string \<times> 'w) \<Rightarrow> HealthServer \<Rightarrow> 'w \<Rightarrow> go_error option \<times> 'w" where
  "HealthServe listen_and_serve h w =
     (case listen_and_serve ('':'' @ show_int (hsPort h)) w of
        (err, w1) \<Rightarrow> (if err = ''http: Server closed'' then None else Some (OsError err), w1))"

end
