(* ===== verification/Lifecycle.thy ===== *)
theory Lifecycle
  imports Startup Registrar Health
begin

text \<open>
  \<open>cmd/driver/main.go\<close> around the start of the driver: the flags, the connection to the API server with
  its retries, the gRPC server and the shutdown. The pieces of \<open>Startup\<close> are composed here in the order
  of \<open>main\<close>. Everything that runs in the background (health, registration and monitoring
  servers) is separate.
\<close>

subsection \<open>Flags\<close>

text \<open>The interval is in nanoseconds.\<close>

record Flags =
  socketPath :: string
  registryDir :: string
  flagNodeName :: string
  partitionCount :: int
  partitionSizes :: string
  resctrlRoot :: string
  healthPort :: int
  flagCdiDir :: string
  mbaBandwidth :: int
  smbaBandwidth :: int
  monitorInterval :: int

definition default_flags :: Flags where
  "default_flags =
     \<lparr>socketPath = ''/var/lib/kubelet/plugins/resctrl.fabiendupont.io/plugin.sock'',
      registryDir = ''/var/lib/kubelet/plugins_registry'', flagNodeName = [], partitionCount = 4,
      partitionSizes = [], resctrlRoot = ''/sys/fs/resctrl'', healthPort = 8081,
      flagCdiDir = ''/var/run/cdi'', mbaBandwidth = - 1, smbaBandwidth = - 1,
      monitorInterval = 10 * 1000000000\<rparr>"

text \<open>The flag wins over the environment variable \<open>NODE_NAME\<close>; without both there is no node name.\<close>

definition node_name :: "Flags \<Rightarrow> string \<Rightarrow> string option" where
  "node_name flags env =
     (let n = (if flagNodeName flags = [] then env else flagNodeName flags)
      in if n = [] then None else Some n)"

subsection \<open>The API client\<close>

text \<open>
  The three calls of the client library, over the configuration type \<open>'c\<close> and the client type \<open>'k\<close>,
  and the pause in seconds, which is where the world changes.
\<close>

record ('w, 'c, 'k) kube_env =
  ke_config :: "'w \<Rightarrow> string + 'c"
  ke_new :: "'w \<Rightarrow> 'c \<Rightarrow> string + 'k"
  ke_version :: "'w \<Rightarrow> 'k \<Rightarrow> string option"
  ke_sleep :: "'w \<Rightarrow> int \<Rightarrow> 'w"

definition connect :: "('w, 'c, 'k) kube_env \<Rightarrow> 'w \<Rightarrow> go_error + 'k" where
  "connect ke w =
     (case ke_config ke w of
        Inl e \<Rightarrow> Inl (Wrapf ''building in-cluster config: %w'' [] (OsError e))
      | Inr config \<Rightarrow>
          (case ke_new ke w config of
             Inl e \<Rightarrow> Inl (Wrapf ''creating kubernetes client: %w'' [] (OsError e))
           | Inr client \<Rightarrow>
               (case ke_version ke w client of
                  Some e \<Rightarrow> Inl (Wrapf ''verifying API server connectivity: %w'' [] (OsError e))
                | None \<Rightarrow> Inr client)))"

text \<open>The loop over the attempts \<open>attempt, \<dots>, attempt + n - 1\<close>; each failure is followed by a pause.\<close>

fun connect_loop ::
  "('w, 'c, 'k) kube_env \<Rightarrow> nat \<Rightarrow> int \<Rightarrow> go_error option \<Rightarrow> 'w \<Rightarrow> (go_error option + 'k) \<times> 'w" where
  "connect_loop ke 0 attempt lastErr w = (Inl lastErr, w)"
| "connect_loop ke (Suc n) attempt lastErr w =
     (case connect ke w of
        Inr client \<Rightarrow> (Inr client, w)
      | Inl e \<Rightarrow> connect_loop ke n (attempt + 1) (Some e) (ke_sleep ke w (attempt + 1)))"

definition buildKubeClient :: "('w, 'c, 'k) kube_env \<Rightarrow> 'w \<Rightarrow> (go_error option + 'k) \<times> 'w" where
  "buildKubeClient ke w = connect_loop ke 10 0 None w"

subsection \<open>Serving\<close>

text \<open>\<open>served\<close> is everything between the start of the gRPC server and its return.\<close>

definition runGRPCServer ::
  "'w os \<Rightarrow> 'w net \<Rightarrow> ('w \<Rightarrow> string option \<times> 'w) \<Rightarrow> string \<Rightarrow> 'w \<Rightarrow> go_error option \<times> 'w" where
  "runGRPCServer os net served socket w =
     (case net_listen net (snd (os_remove os w socket)) socket of
        (Some e, w1) \<Rightarrow> (Some (Wrapf ''listening on %s: %w'' [ArgStr socket] (OsError e)), w1)
      | (None, w1) \<Rightarrow>
          (case served w1 of
             (Some e, w2) \<Rightarrow> (Some (OsError e), w2)
           | (None, w2) \<Rightarrow> (None, w2)))"

text \<open>
  After the server: the ResourceSlice is deleted, an error of the server ends the process without the
  deferred calls, and otherwise basic mode cleans up.
\<close>

definition shutdown ::
  "'w os \<Rightarrow> 'w kube \<Rightarrow> Flags \<Rightarrow> string \<Rightarrow> DRACapabilities \<Rightarrow> CachePartition list list \<Rightarrow> go_error option \<Rightarrow> 'w
     \<Rightarrow> unit outcome \<times> 'w" where
  "shutdown os kube flags node caps perCache grpcErr w =
     (let w1 = snd (DeleteSlice kube (NewSlicePublisher mainDriverName node caps) w)
      in case grpcErr of
           Some e \<Rightarrow> (Fatal ''gRPC server error'' (Some e), w1)
         | None \<Rightarrow>
             (Started (),
              if PartitionableDevices caps then w1
              else basic_cleanup os (resctrlRoot flags) (flagCdiDir flags) perCache w1))"

subsection \<open>Monitoring\<close>

text \<open>
  The monitor, if the hardware counts. Its function of targets is asked at every scrape: the current
  claims in structured mode (in some order), and otherwise the fixed partitions.
\<close>

definition start_monitor :: "'w os \<Rightarrow> Flags \<Rightarrow> 'w \<Rightarrow> Monitor option" where
  "start_monitor os flags w =
     (if IsMonitoringAvailable os (resctrlRoot flags) w
      then Some (NewMonitor (resctrlRoot flags) (monitorInterval flags)) else None)"

definition monitor_targets ::
  "DRACapabilities \<Rightarrow> CachePartition list list \<Rightarrow> string list \<Rightarrow> Driver \<Rightarrow> MonitorTarget list option" where
  "monitor_targets caps perCache order d =
     (if PartitionableDevices caps then StructuredTargets order d else Some (fixed_targets perCache))"

subsection \<open>The whole program\<close>

text \<open>
  \<open>env\<close> is the value of \<open>NODE_NAME\<close>, and \<open>served d\<close> the life of the gRPC server with the driver \<open>d\<close>.
  \<open>None\<close> when the driver hangs in a CPU list or in the pages of the recovery.
\<close>

definition run_main ::
  "'w os \<Rightarrow> 'w fileio \<Rightarrow> 'w net \<Rightarrow> ('w, 'c, 'w kube) kube_env \<Rightarrow> (Driver \<Rightarrow> 'w \<Rightarrow> string option \<times> 'w)
     \<Rightarrow> Flags \<Rightarrow> string \<Rightarrow> 'w \<Rightarrow> (unit outcome \<times> 'w) option" where
  "run_main os io net ke served flags env w =
     (case node_name flags env of
        None \<Rightarrow> Some (Fatal ''--node-name or NODE_NAME required'' None, w)
      | Some node \<Rightarrow>
      (case build_inventory os (resctrlRoot flags) (partitionCount flags) (partitionSizes flags)
              (mbaBandwidth flags) (smbaBandwidth flags) w of
        None \<Rightarrow> None
      | Some (Fatal msg e) \<Rightarrow> Some (Fatal msg e, w)
      | Some (Started (info, perCache)) \<Rightarrow>
      (case os_mkdir_all os w (path_dir (socketPath flags)) of
        (Some e, w1) \<Rightarrow> Some (Fatal ''Failed to create plugin directory'' (Some (OsError e)), w1)
      | (None, w1) \<Rightarrow>
      (case InstallHookBinary io (path_dir (socketPath flags)) w1 of
        (Inl e, w2) \<Rightarrow> Some (Fatal ''Failed to install hook binary'' (Some e), w2)
      | (Inr hookBinaryPath, w2) \<Rightarrow>
      (case buildKubeClient ke w2 of
        (Inl e, w3) \<Rightarrow> Some (Fatal ''Failed to create Kubernetes client'' e, w3)
      | (Inr kube, w3) \<Rightarrow>
      (case start_driver os kube (resctrlRoot flags) node hookBinaryPath (flagCdiDir flags) info perCache w3 of
        None \<Rightarrow> None
      | Some (Fatal msg e, w4) \<Rightarrow> Some (Fatal msg e, w4)
      | Some (Started d, w4) \<Rightarrow>
          (case runGRPCServer os net (served d) (socketPath flags) w4 of
             (grpcErr, w5) \<Rightarrow>
               Some (shutdown os kube flags node (drvCaps d) perCache grpcErr w5))))))))"

end
