(* ===== verification/OsTrace.thy ===== *)
theory OsTrace
  imports OsModel KubeModel
begin

text \<open>
  Recording what a program does to the file system: \<open>logged os\<close> behaves as \<open>os\<close> and writes every call
  that changes files to a log beside the world. What a component does, and in which order, is then
  a statement about the log, for every operating system.
\<close>

datatype os_call = MkdirAll string | WriteFile string string | Remove string

type_synonym 'w recorded = "'w \<times> os_call list"

definition record_call :: "os_call \<Rightarrow> string option \<times> 'w \<Rightarrow> os_call list \<Rightarrow> string option \<times> 'w recorded" where
  "record_call c r l = (fst r, (snd r, l @ [c]))"

definition logged :: "'w os \<Rightarrow> 'w recorded os" where
  "logged os =
     \<lparr>os_stat = (\<lambda>(w, l). os_stat os w), os_read_file = (\<lambda>(w, l). os_read_file os w),
      os_read_dir = (\<lambda>(w, l). os_read_dir os w),
      os_mkdir_all = (\<lambda>(w, l) p. record_call (MkdirAll p) (os_mkdir_all os w p) l),
      os_write_file = (\<lambda>(w, l) p d. record_call (WriteFile p d) (os_write_file os w p d) l),
      os_remove = (\<lambda>(w, l) p. record_call (Remove p) (os_remove os w p) l),
      os_is_not_exist = os_is_not_exist os\<rparr>"

text \<open>A client that does not see the log.\<close>

definition unlogged :: "'w kube \<Rightarrow> 'w recorded kube" where
  "unlogged kube =
     \<lparr>kube_get_claim = (\<lambda>(w, l). kube_get_claim kube w), kube_list_claims = (\<lambda>(w, l). kube_list_claims kube w),
      kube_get_node = (\<lambda>(w, l). kube_get_node kube w),
      kube_create_slice = (\<lambda>(w, l) dry s. case kube_create_slice kube w dry s of (r, w1) \<Rightarrow> (r, (w1, l))),
      kube_get_slice = (\<lambda>(w, l). kube_get_slice kube w),
      kube_update_slice = (\<lambda>(w, l) s. case kube_update_slice kube w s of (r, w1) \<Rightarrow> (r, (w1, l))),
      kube_delete_slice = (\<lambda>(w, l) n. case kube_delete_slice kube w n of (r, w1) \<Rightarrow> (r, (w1, l))),
      kube_already_exists = kube_already_exists kube\<rparr>"

lemma logged_simps [simp]:
  "os_stat (logged os) (w, l) p = os_stat os w p"
  "os_read_file (logged os) (w, l) p = os_read_file os w p"
  "os_read_dir (logged os) (w, l) p = os_read_dir os w p"
  "os_mkdir_all (logged os) (w, l) p = (fst (os_mkdir_all os w p), (snd (os_mkdir_all os w p), l @ [MkdirAll p]))"
  "os_write_file (logged os) (w, l) p d =
     (fst (os_write_file os w p d), (snd (os_write_file os w p d), l @ [WriteFile p d]))"
  "os_remove (logged os) (w, l) p = (fst (os_remove os w p), (snd (os_remove os w p), l @ [Remove p]))"
  by (simp_all add: logged_def record_call_def)

lemma unlogged_create [simp]:
  "kube_create_slice (unlogged kube) (w, l) dry s =
     (fst (kube_create_slice kube w dry s), (snd (kube_create_slice kube w dry s), l))"
  by (simp add: unlogged_def case_prod_unfold)

lemma unlogged_update [simp]:
  "kube_update_slice (unlogged kube) (w, l) s =
     (fst (kube_update_slice kube w s), (snd (kube_update_slice kube w s), l))"
  by (simp add: unlogged_def case_prod_unfold)

text \<open>The paths that a log removes.\<close>

definition removed :: "os_call list \<Rightarrow> string list" where
  "removed l = List.map_filter (\<lambda>c. case c of Remove p \<Rightarrow> Some p | _ \<Rightarrow> None) l"

definition written :: "os_call list \<Rightarrow> string list" where
  "written l = List.map_filter (\<lambda>c. case c of WriteFile p _ \<Rightarrow> Some p | _ \<Rightarrow> None) l"

definition made :: "os_call list \<Rightarrow> string list" where
  "made l = List.map_filter (\<lambda>c. case c of MkdirAll p \<Rightarrow> Some p | _ \<Rightarrow> None) l"

lemmas log_views = removed_def written_def made_def

lemma log_view_simps [simp]:
  "removed [] = []" "removed (Remove p # l) = p # removed l" "removed (MkdirAll p # l) = removed l"
  "removed (WriteFile p d # l) = removed l" "removed (l @ l') = removed l @ removed l'"
  "written [] = []" "written (Remove p # l) = written l" "written (MkdirAll p # l) = written l"
  "written (WriteFile p d # l) = p # written l" "written (l @ l') = written l @ written l'"
  "made [] = []" "made (Remove p # l) = made l" "made (MkdirAll p # l) = p # made l"
  "made (WriteFile p d # l) = made l" "made (l @ l') = made l @ made l'"
  by (simp_all add: log_views List.map_filter_def)

end
