(* ===== verification/LifecycleProps.thy ===== *)
theory LifecycleProps
  imports Lifecycle OsTrace ClaimProps
begin

text \<open>
  What starting and stopping the driver does to the file system, and how the connection to the API
  server ends.
\<close>

subsection \<open>Groups\<close>

definition group_dir :: "string \<Rightarrow> CachePartition \<Rightarrow> string" where
  "group_dir root p = path_join [root, ResctrlGroup p]"

definition group_file :: "string \<Rightarrow> CachePartition \<Rightarrow> string" where
  "group_file root p = path_join [group_dir root p, ''schemata'']"

lemma FormatCombinedSchemata_nonempty: "FormatCombinedSchemata p \<noteq> []"
  by (simp add: FormatCombinedSchemata_def FormatSchemata_def)

definition group_calls :: "string \<Rightarrow> CachePartition \<Rightarrow> os_call list" where
  "group_calls root p =
     [MkdirAll (group_dir root p), WriteFile (group_file root p) (FormatCombinedSchemata p @ [newline])]"

lemma group_calls_views [simp]:
  "made (group_calls root p) = [group_dir root p]" "written (group_calls root p) = [group_file root p]"
  "removed (group_calls root p) = []"
  by (simp_all add: group_calls_def)

lemma groups_calls_views [simp]:
  "made (concat (map (group_calls root) ps)) = map (group_dir root) ps"
  "written (concat (map (group_calls root) ps)) = map (group_file root) ps"
  "removed (concat (map (group_calls root) ps)) = []"
  by (induction ps) simp_all

lemma CreateGroup_logged:
  assumes "CreateGroup (logged os) root (ResctrlGroup p) (FormatCombinedSchemata p) (w, l) = (e, (w', l'))"
  shows "if e = None then l' = l @ group_calls root p
    else l' = l @ [MkdirAll (group_dir root p)] \<or> l' = l @ group_calls root p @ [Remove (group_dir root p)]"
  using assms FormatCombinedSchemata_nonempty
  by (auto simp: CreateGroup_def Let_def group_calls_def group_dir_def group_file_def split: prod.splits option.splits)

lemma create_groups_logged:
  assumes "create_groups (logged os) root ps (w, l) = (e, (w', l'))"
  shows "(e = None \<and> l' = l @ concat (map (group_calls root) ps)) \<or>
    (\<exists>k < length ps. e \<noteq> None \<and>
       (l' = l @ concat (map (group_calls root) (take k ps)) @ [MkdirAll (group_dir root (ps ! k))] \<or>
        l' = l @ concat (map (group_calls root) (take (Suc k) ps)) @ [Remove (group_dir root (ps ! k))]))"
  using assms
proof (induction ps arbitrary: w l)
  case (Cons p ps)
  obtain e1 w1 l1 where c: "CreateGroup (logged os) root (ResctrlGroup p) (FormatCombinedSchemata p) (w, l) = (e1, (w1, l1))"
    using prod_cases3 by blast
  note log = CreateGroup_logged [OF c]
  show ?case
  proof (cases e1)
    case None
    then have l1: "l1 = l @ group_calls root p" using log by simp
    have rest: "create_groups (logged os) root ps (w1, l1) = (e, (w', l'))" using Cons.prems c None by simp
    from Cons.IH [OF rest] show ?thesis
    proof (elim disjE exE conjE)
      fix k
      assume "k < length ps" "e \<noteq> None"
        "l' = l1 @ concat (map (group_calls root) (take k ps)) @ [MkdirAll (group_dir root (ps ! k))]"
      then show ?thesis by (intro disjI2 exI [of _ "Suc k"]) (simp add: l1)
    next
      fix k
      assume "k < length ps" "e \<noteq> None"
        "l' = l1 @ concat (map (group_calls root) (take (Suc k) ps)) @ [Remove (group_dir root (ps ! k))]"
      then show ?thesis by (intro disjI2 exI [of _ "Suc k"]) (simp add: l1)
    qed (simp add: l1)
  next
    case (Some e2)
    with Cons.prems c log show ?thesis by (intro disjI2 exI [of _ 0]) auto
  qed
qed simp

lemma DeleteGroup_logged:
  assumes "DeleteGroup (logged os) root g (w, l) = (e, (w', l'))"
  shows "\<exists>new. l' = l @ new \<and> removed new = [path_join [root, g]] \<and> made new = [] \<and>
    set (written new) \<subseteq> {path_join [root, ''tasks'']}"
  using assms
  by (auto simp: DeleteGroup_def Let_def split: sum.splits prod.splits option.splits if_splits)

lemma delete_groups_logged:
  assumes "delete_groups (logged os) root ps (w, l) = (w', l')"
  shows "\<exists>new. l' = l @ new \<and> removed new = map (group_dir root) ps \<and> made new = [] \<and>
    set (written new) \<subseteq> {path_join [root, ''tasks'']}"
  using assms
proof (induction ps arbitrary: w l)
  case (Cons p ps)
  obtain e w1 l1 where d: "DeleteGroup (logged os) root (ResctrlGroup p) (w, l) = (e, (w1, l1))"
    using prod_cases3 by blast
  then have rest: "delete_groups (logged os) root ps (w1, l1) = (w', l')" using Cons.prems by simp
  from DeleteGroup_logged [OF d] Cons.IH [OF rest] show ?case
    by (auto simp: group_dir_def intro: exI [of _ "_ @ _"])
qed (simp add: exI [of _ "[]"])

subsection \<open>Starting and stopping in basic mode\<close>

lemma probe_unlogged: "\<exists>caps w1. ProbeFeatureGates (unlogged kube) name node (w, l) = (caps, (w1, l))"
  by (auto simp: ProbeFeatureGates_def probePartitionableDevices_def probeConsumableCapacity_def Let_def
      split: prod.splits sum.splits list.splits option.splits)

lemma publish_unlogged: "\<exists>e w1. PublishSlices (unlogged kube) sp perCache (w, l) = (e, (w1, l))"
  by (auto simp: PublishSlices_def Let_def split: prod.splits sum.splits option.splits)

definition spec_calls :: "string \<Rightarrow> string \<Rightarrow> CachePartition list list \<Rightarrow> os_call list" where
  "spec_calls cdi hook perCache =
     [MkdirAll cdi, WriteFile (node_spec_path cdi) (MarshalSpec (node_spec hook perCache))]"

lemma WriteCDISpecs_logged:
  assumes "WriteCDISpecs (logged os) cdi hook perCache (w, l) = (None, (w', l'))"
  shows "l' = l @ spec_calls cdi hook perCache"
  using assms by (auto simp: WriteCDISpecs_def spec_calls_def split: prod.splits option.splits)

lemma start_basic_logged:
  assumes "start_driver (logged os) (unlogged kube) root node hook cdi info perCache (w, []) = Some (Started d, (w1, l1))"
    and "\<not> PartitionableDevices (drvCaps d)"
  shows "l1 = concat (map (group_calls root) (AllPartitions perCache)) @ spec_calls cdi hook perCache"
proof -
  obtain caps w' where probe: "ProbeFeatureGates (unlogged kube) mainDriverName node (w, []) = (caps, (w', []))"
    using probe_unlogged [of kube mainDriverName node w "[]"] by blast
  have "\<not> PartitionableDevices caps"
    using assms probe
    by (auto simp: start_driver_def Let_def NewDriver_def RecoverStructuredAllocs_def
        split: prod.splits option.splits if_splits)
  with assms(1) probe have "\<exists>w2 l2 w3 l3. create_groups (logged os) root (AllPartitions perCache) (w', []) = (None, (w2, l2)) \<and>
      WriteCDISpecs (logged os) cdi hook perCache (w2, l2) = (None, (w3, l3)) \<and>
      PublishSlices (unlogged kube) (NewSlicePublisher mainDriverName node caps) perCache (w3, l3) = (None, (w1, l1))"
    by (auto simp: start_driver_def Let_def split: prod.splits option.splits)
  then obtain w2 l2 w3 l3 where
    g: "create_groups (logged os) root (AllPartitions perCache) (w', []) = (None, (w2, l2))" and
    c: "WriteCDISpecs (logged os) cdi hook perCache (w2, l2) = (None, (w3, l3))" and
    p: "PublishSlices (unlogged kube) (NewSlicePublisher mainDriverName node caps) perCache (w3, l3) = (None, (w1, l1))"
    by blast
  have "l1 = l3" using p publish_unlogged [of kube _ perCache w3 l3] by (metis Pair_inject)
  with create_groups_logged [OF g] WriteCDISpecs_logged [OF c] show ?thesis by simp
qed

text \<open>
  C22: In basic mode a clean shutdown undoes the startup. Whatever the operating system does, a driver
  that started has made, in the order of the partitions, one directory per partition with its
  schemata, then the CDI specs, and nothing else; and the clean-up at the end removes exactly the
  spec file and these directories, makes nothing, and writes at most the root group's task file,
  which takes back the tasks.
\<close>

theorem shutdown_undoes_startup:
  assumes "start_driver (logged os) (unlogged kube) root node hook cdi info perCache (w, []) = Some (Started d, (w1, l1))"
    and "\<not> PartitionableDevices (drvCaps d)"
    and "basic_cleanup (logged os) root cdi perCache (w2, []) = (w3, l3)"
  shows "made l1 = map (group_dir root) (AllPartitions perCache) @ [cdi] \<and>
    written l1 = map (group_file root) (AllPartitions perCache) @ [node_spec_path cdi] \<and> removed l1 = [] \<and>
    removed l3 = node_spec_path cdi # map (group_dir root) (AllPartitions perCache) \<and>
    made l3 = [] \<and> set (written l3) \<subseteq> {path_join [root, ''tasks'']}"
proof -
  have "delete_groups (logged os) root (AllPartitions perCache)
      (snd (os_remove os w2 (node_spec_path cdi)), [Remove (node_spec_path cdi)]) = (w3, l3)"
    using assms(3) by (simp add: basic_cleanup_def CleanupCDISpecs_def)
  from delete_groups_logged [OF this] obtain new where
    "l3 = [Remove (node_spec_path cdi)] @ new" "removed new = map (group_dir root) (AllPartitions perCache)"
    "made new = []" "set (written new) \<subseteq> {path_join [root, ''tasks'']}" by blast
  then show ?thesis
    using start_basic_logged [OF assms(1,2)] by (simp add: spec_calls_def)
qed

text \<open>
  C39: A startup that fails half-way leaves its groups behind. If creating the group of some partition
  fails, the process ends at once: the directories of the partitions up to this one have been
  made, and none but this last one can have been removed, since the deferred clean-up does not run.
\<close>

theorem failed_startup_leaves_groups:
  assumes "start_driver (logged os) (unlogged kube) root node hook cdi info perCache (w, []) =
      Some (Fatal ''Failed to create resctrl group'' e, (w1, l1))"
  shows "\<exists>k < length (AllPartitions perCache).
    made l1 = map (group_dir root) (take (Suc k) (AllPartitions perCache)) \<and>
    set (removed l1) \<subseteq> {group_dir root (AllPartitions perCache ! k)}"
proof -
  let ?ps = "AllPartitions perCache"
  obtain caps w' where probe: "ProbeFeatureGates (unlogged kube) mainDriverName node (w, []) = (caps, (w', []))"
    using probe_unlogged [of kube mainDriverName node w "[]"] by blast
  have "\<exists>e'. create_groups (logged os) root ?ps (w', []) = (Some e', (w1, l1))"
    using assms probe
    by (auto simp: start_driver_def Let_def split: prod.splits option.splits if_splits)
  then obtain e' where "create_groups (logged os) root ?ps (w', []) = (Some e', (w1, l1))" by blast
  from create_groups_logged [OF this] obtain k where k: "k < length ?ps"
    "l1 = concat (map (group_calls root) (take k ?ps)) @ [MkdirAll (group_dir root (?ps ! k))] \<or>
     l1 = concat (map (group_calls root) (take (Suc k) ?ps)) @ [Remove (group_dir root (?ps ! k))]"
    by auto
  have "take (Suc k) ?ps = take k ?ps @ [?ps ! k]" using k(1) by (rule take_Suc_conv_app_nth)
  then have "made l1 = map (group_dir root) (take (Suc k) ?ps)" using k(2) by (elim disjE) simp_all
  moreover have "set (removed l1) \<subseteq> {group_dir root (?ps ! k)}"
    using k(2) by (elim disjE) simp_all
  ultimately show ?thesis using k(1) by blast
qed

subsection \<open>A node with two partitions\<close>

text \<open>An operating system on which all calls succeed, and one that refuses to make a directory.\<close>

definition ok_os :: "unit os" where
  "ok_os = \<lparr>os_stat = (\<lambda>w p. Inl ''none''), os_read_file = (\<lambda>w p. Inl ''none''), os_read_dir = (\<lambda>w p. Inl ''none''),
     os_mkdir_all = (\<lambda>w p. (None, w)), os_write_file = (\<lambda>w p d. (None, w)), os_remove = (\<lambda>w p. (None, w)),
     os_is_not_exist = (\<lambda>e. True)\<rparr>"

definition refuse :: "string \<Rightarrow> unit os" where
  "refuse q = ok_os\<lparr>os_mkdir_all := (\<lambda>w p. (if p = q then Some ''no space'' else None, w))\<rparr>"

definition ex_basic_kube :: "unit kube" where
  "ex_basic_kube = (list_kube [])\<lparr>kube_create_slice := (\<lambda>w dry s. (if dry then Inl ''no'' else Inr s, w))\<rparr>"

definition ex_parts :: "CachePartition list list" where "ex_parts = [[ex_part 0, ex_part 1]]"

lemma ex_AllPartitions: "AllPartitions ex_parts = [ex_part 0, ex_part 1]"
  by (simp add: AllPartitions_def ex_parts_def)

lemma ex_recover: "RecoverAllocations (unlogged ex_basic_kube) wl drv node s = Some (0, None, s)"
  unfolding RecoverAllocations_def
  by (subst recover_pages.simps) (simp add: unlogged_def ex_basic_kube_def list_kube_def case_prod_unfold)

lemma ex_probe: "ProbeFeatureGates (unlogged ex_basic_kube) drv node (w, l) =
    (\<lparr>PartitionableDevices = False, ConsumableCapacity = False\<rparr>, (w, l))"
  by (simp add: ProbeFeatureGates_def probePartitionableDevices_def probeConsumableCapacity_def ex_basic_kube_def)

lemma ex_publish: "PublishSlices (unlogged ex_basic_kube) sp perCache (w, l) = (None, (w, l))"
  by (simp add: PublishSlices_def Let_def) (simp add: ex_basic_kube_def)

lemma ex_basic_start:
  "\<exists>d l. start_driver (logged ok_os) (unlogged ex_basic_kube) ''/r'' ''node1'' ''/hook'' ''/cdi'' example_info ex_parts ((), []) =
     Some (Started d, ((), l)) \<and> \<not> PartitionableDevices (drvCaps d)"
proof -
  have g: "CreateGroup (logged ok_os) root g s (w, l) = (None, (w, snd (snd (CreateGroup (logged ok_os) root g s (w, l)))))"
    for root g s w l by (simp add: CreateGroup_def Let_def) (simp add: ok_os_def)
  have c: "WriteCDISpecs (logged ok_os) cdi hook pc (w, l) = (None, (w, snd (snd (WriteCDISpecs (logged ok_os) cdi hook pc (w, l)))))"
    for cdi hook pc w l by (simp add: WriteCDISpecs_def) (simp add: ok_os_def)
  obtain l1 where l1: "CreateGroup (logged ok_os) ''/r'' (ResctrlGroup (ex_part 0)) (FormatCombinedSchemata (ex_part 0)) ((), []) = (None, ((), l1))"
    using g by blast
  obtain l2 where l2: "CreateGroup (logged ok_os) ''/r'' (ResctrlGroup (ex_part 1)) (FormatCombinedSchemata (ex_part 1)) ((), l1) = (None, ((), l2))"
    using g by blast
  obtain l3 where l3: "WriteCDISpecs (logged ok_os) ''/cdi'' ''/hook'' ex_parts ((), l2) = (None, ((), l3))"
    using c by blast
  show ?thesis
    by (simp add: start_driver_def ex_probe ex_AllPartitions l1 l2 l3 ex_recover ex_publish NewDriver_def)
qed

theorem shutdown_undoes_startup_witness:
  "\<exists>d l1 l3. start_driver (logged ok_os) (unlogged ex_basic_kube) ''/r'' ''node1'' ''/hook'' ''/cdi'' example_info ex_parts ((), []) =
       Some (Started d, ((), l1)) \<and>
     basic_cleanup (logged ok_os) ''/r'' ''/cdi'' ex_parts ((), []) = ((), l3) \<and>
     made l1 = [group_dir ''/r'' (ex_part 0), group_dir ''/r'' (ex_part 1), ''/cdi''] \<and>
     removed l3 = [node_spec_path ''/cdi'', group_dir ''/r'' (ex_part 0), group_dir ''/r'' (ex_part 1)]"
proof -
  obtain d l1 where st: "start_driver (logged ok_os) (unlogged ex_basic_kube) ''/r'' ''node1'' ''/hook'' ''/cdi'' example_info ex_parts ((), []) =
     Some (Started d, ((), l1))" "\<not> PartitionableDevices (drvCaps d)"
    using ex_basic_start by blast
  obtain l3 where c: "basic_cleanup (logged ok_os) ''/r'' ''/cdi'' ex_parts ((), []) = ((), l3)"
    by (metis old.unit.exhaust surj_pair)
  from shutdown_undoes_startup [OF st c] st(1) c show ?thesis by (auto simp: ex_AllPartitions)
qed

lemma unit_result: "fst x = r \<Longrightarrow> \<exists>l. x = (r, ((), l))" "fst x \<noteq> None \<Longrightarrow> \<exists>e l. x = (Some e, ((), l))"
  by (cases x; auto)+

theorem failed_startup_leaves_groups_witness:
  "\<exists>e l1. start_driver (logged (refuse (group_dir ''/r'' (ex_part 1)))) (unlogged ex_basic_kube) ''/r'' ''node1'' ''/hook'' ''/cdi''
       example_info ex_parts ((), []) = Some (Fatal ''Failed to create resctrl group'' e, ((), l1)) \<and>
     group_dir ''/r'' (ex_part 0) \<in> set (made l1) \<and> group_dir ''/r'' (ex_part 0) \<notin> set (removed l1)"
proof -
  let ?os = "logged (refuse (group_dir ''/r'' (ex_part 1)))"
  have g: "ResctrlGroup (ex_part 0) = ''dra-cache0-part0''" "ResctrlGroup (ex_part 1) = ''dra-cache0-part1''"
    by (simp_all add: ex_part_def make_partition_def Let_def show_evals)
  have ne: "group_dir ''/r'' (ex_part 0) \<noteq> group_dir ''/r'' (ex_part 1)"
    using path_join_inj [of "''/r''" "[''dra-cache0-part0'']" "[''dra-cache0-part1'']"]
    by (auto simp: group_dir_def g plain_name_def)
  have "fst (CreateGroup ?os ''/r'' (ResctrlGroup (ex_part 0)) s (w, l)) = None" for s w l
    using ne by (simp add: CreateGroup_def Let_def group_dir_def refuse_def ok_os_def)
  from unit_result(1) [OF this] obtain l1 where
    l1: "CreateGroup ?os ''/r'' (ResctrlGroup (ex_part 0)) (FormatCombinedSchemata (ex_part 0)) ((), []) = (None, ((), l1))" ..
  have "fst (CreateGroup ?os ''/r'' (ResctrlGroup (ex_part 1)) s (w, l)) \<noteq> None" for s w l
    by (simp add: CreateGroup_def Let_def group_dir_def refuse_def ok_os_def)
  from unit_result(2) [OF this [of "FormatCombinedSchemata (ex_part 1)" "()" l1]] obtain e l2 where
    l2: "CreateGroup ?os ''/r'' (ResctrlGroup (ex_part 1)) (FormatCombinedSchemata (ex_part 1)) ((), l1) = (Some e, ((), l2))"
    by (elim exE)
  have st: "start_driver ?os (unlogged ex_basic_kube) ''/r'' ''node1'' ''/hook'' ''/cdi'' example_info ex_parts ((), []) =
      Some (Fatal ''Failed to create resctrl group'' (Some e), ((), l2))"
    by (simp add: start_driver_def ex_probe ex_AllPartitions l1 l2)
  have "group_dir ''/r'' (ex_part 1) \<in> set (made l2)"
    using CreateGroup_logged [OF l2] by (auto simp: group_calls_def)
  moreover from failed_startup_leaves_groups [OF st] obtain k where k: "k < 2"
    "made l2 = map (group_dir ''/r'') (take (Suc k) [ex_part 0, ex_part 1])"
    "set (removed l2) \<subseteq> {group_dir ''/r'' ([ex_part 0, ex_part 1] ! k)}"
    unfolding ex_AllPartitions by (auto simp only: list.size numeral_2_eq_2 add_0_right add_Suc_right)
  ultimately have "k = 1" using ne by (cases k) auto
  with k ne have "group_dir ''/r'' (ex_part 0) \<in> set (made l2) \<and> group_dir ''/r'' (ex_part 0) \<notin> set (removed l2)"
    by auto
  with st show ?thesis by blast
qed

end
