(* ===== verification/ClaimFilesProps.thy ===== *)
theory ClaimFilesProps
  imports LifecycleProps StructuredProps
begin

text \<open>
  The files of one claim in structured mode: what preparing it writes, what the allocation table
  records, and who reads the files later: crash recovery and the CDI hook.
\<close>

lemma parseCacheWayDeviceName_range:
  "parseCacheWayDeviceName name = Inr (c, n) \<Longrightarrow> in_int c"
  by (auto simp: parseCacheWayDeviceName_def Let_def dest: atoi_range split: list.splits option.splits if_splits)

lemma writeClaimCDISpec_logged:
  assumes "writeClaimCDISpec (logged os) dir bin uid grp c n hex (w, l) = (Some (Inr (cid, path)), (w', l'))"
  obtains name where "l' = l @ [MkdirAll dir, WriteFile path (MarshalSpec (claim_spec bin name grp c n hex))]"
    "cid = CDIDeviceID name"
  using assms
  by (auto simp: writeClaimCDISpec_def CDIDeviceID_def Let_def split: prod.splits option.splits)

lemma rebuild_claim_line:
  "in_int c \<Longrightarrow> rebuild_data (mask_line [(c, m)] @ [newline]) al = al(c \<mapsto> map_get 0 al c OR m)"
  using rebuild_data_marks [of "[(c, m)]" al] by (simp add: mark_def)

text \<open>
  C19: What a claim gets is what the files say. When a device of a claim has been prepared, exactly four
  calls have changed files: the group's directory, its schemata, the CDI directory and the claim's
  spec. The mask in the schemata is the recorded one, in the format from which crash recovery marks
  exactly these ways. The spec has one device, under the identifier that the kubelet is told; its hook,
  run with the arguments of the spec, writes the container's PID to the tasks file of that group.
\<close>

theorem prepared_claim_files:
  assumes "structured_step (logged os) root uid result (w, l) d = (Prepared dev, (w', l'), d')" "pid \<noteq> 0"
  shows "\<exists>c n m grp path spec cdi hook.
    parseCacheWayDeviceName (res_device result) = Inr (c, n) \<and> grp = claim_group c uid \<and>
    structuredAllocs d' uid =
      Some \<lparr>saCacheID = c, saWays = n, saCbm = m, saGroup = grp, saSpecPath = path\<rparr> \<and>
    l' = l @ [MkdirAll (path_join [root, grp]),
              WriteFile (path_join [path_join [root, grp], ''schemata'']) (mask_line [(c, m)] @ [newline]),
              MkdirAll (cdiDir d), WriteFile path (MarshalSpec spec)] \<and>
    (\<forall>al. rebuild_data (mask_line [(c, m)] @ [newline]) al = al(c \<mapsto> map_get 0 al c OR m)) \<and>
    CdiDevices spec = [cdi] \<and> pd_cdi_ids dev = [CDIDeviceID (CdiName cdi)] \<and>
    EditHooks (ContainerEdits cdi) = [hook] \<and>
    (\<forall>w2. snd (runCDIHook os root (drop 2 (HookArgs hook)) (Inr pid) w2) =
          snd (os_write_file os w2 (path_join [root, grp, ''tasks'']) (show_int pid)))"
proof -
  obtain c n cbm a1 where p: "parseCacheWayDeviceName (res_device result) = Inr (c, n)"
    "WayAllocate c n (wayAlloc d) = (Inr cbm, a1)"
    using assms(1) by (auto simp: structured_step_def Let_def split: if_splits sum.splits prod.splits)
  let ?g = "claim_group c uid"
  obtain e w1 l1 where g: "CreateGroup (logged os) root ?g (buildStructuredSchemata c (show_hex cbm) 0) (w, l) = (e, (w1, l1))"
    using prod_cases3 by blast
  obtain r w2 l2 where s: "writeClaimCDISpec (logged os) (cdiDir d) (hookBinPath d) uid ?g c n (show_hex cbm) (w1, l1) = (r, (w2, l2))"
    using prod_cases3 by blast
  obtain cid path where r: "e = None" "r = Some (Inr (cid, path))" "l' = l2" "pd_cdi_ids dev = [cid]"
    "structuredAllocs d' uid = Some \<lparr>saCacheID = c, saWays = n, saCbm = cbm, saGroup = ?g, saSpecPath = path\<rparr>"
    using assms(1) p g s
    by (auto simp: structured_step_def Let_def split: if_splits sum.splits option.splits prod.splits)
  have l1: "l1 = l @ [MkdirAll (path_join [root, ?g]),
      WriteFile (path_join [path_join [root, ?g], ''schemata'']) (mask_line [(c, cbm)] @ [newline])]"
    using g r(1) unfolding structured_schemata_line
    by (auto simp: CreateGroup_def Let_def mask_line_def domain_line_def split: prod.splits option.splits if_splits)
  obtain name where n: "l2 = l1 @ [MkdirAll (cdiDir d), WriteFile path (MarshalSpec (claim_spec (hookBinPath d) name ?g c n (show_hex cbm)))]"
    "cid = CDIDeviceID name"
    using writeClaimCDISpec_logged s r(2) by metis
  let ?spec = "claim_spec (hookBinPath d) name ?g c n (show_hex cbm)"
  have spec: "CdiDevices ?spec = [hd (CdiDevices ?spec)]" "CdiName (hd (CdiDevices ?spec)) = name"
    "EditHooks (ContainerEdits (hd (CdiDevices ?spec))) = [hd (EditHooks (ContainerEdits (hd (CdiDevices ?spec))))]"
    "drop 2 (HookArgs (hd (EditHooks (ContainerEdits (hd (CdiDevices ?spec)))))) = [''--group='' @ ?g]"
    by (simp_all add: claim_spec_def)
  have ne: "?g \<noteq> []" by (simp add: claim_group_def)
  have "snd (runCDIHook os root [''--group='' @ ?g] (Inr pid) w3) =
      snd (os_write_file os w3 (path_join [root, ?g, ''tasks'']) (show_int pid))" for w3
    unfolding runCDIHook_joins [OF ne assms(2)] by (simp split: prod.splits option.splits)
  with p(1) r n l1 spec rebuild_claim_line [OF parseCacheWayDeviceName_range [OF p(1)], of cbm] show ?thesis
    by (intro exI [of _ c] exI [of _ n] exI [of _ cbm] exI [of _ ?g] exI [of _ path] exI [of _ ?spec]
        exI [of _ "hd (CdiDevices ?spec)"] exI [of _ "hd (EditHooks (ContainerEdits (hd (CdiDevices ?spec))))"]) (simp only:, simp)
qed

theorem prepared_claim_files_witness:
  "\<exists>dev l d spec m. structured_step (logged ok_os) ''/r'' ''uid-0001'' ex_result ((), []) (ex_driver True pool20) =
       (Prepared dev, ((), l), d) \<and>
     length l = 4 \<and> length (CdiDevices spec) = 1 \<and> MarshalSpec spec \<in> (\<lambda>c. case c of WriteFile p t \<Rightarrow> t | _ \<Rightarrow> []) ` set l \<and>
     rebuild_data (mask_line [(0, m)] @ [newline]) Map.empty = [0 \<mapsto> m]"
proof -
  obtain a where al: "WayAllocate 0 5 pool20 = (Inr 0x1f, a)" using pool20_allocate by (metis prod.collapse)
  let ?g = "claim_group 0 ''uid-0001''"
  have g: "fst (CreateGroup (logged ok_os) ''/r'' ?g s (w, l)) = None" for s w l
    by (simp add: CreateGroup_def Let_def) (simp add: ok_os_def)
  from unit_result(1) [OF this] obtain l1 where
    l1: "CreateGroup (logged ok_os) ''/r'' ?g (buildStructuredSchemata 0 (show_hex 0x1f) 0) ((), []) = (None, ((), l1))" ..
  have "\<exists>x. fst (writeClaimCDISpec (logged ok_os) dir bin ''uid-0001'' grp c n h (w, l)) = Some (Inr x)" for dir bin grp c n h w l
    by (simp add: writeClaimCDISpec_def Let_def) (simp add: ok_os_def uid8_def Let_def)
  then obtain x where "fst (writeClaimCDISpec (logged ok_os) ''/cdi'' ''/hook''
      ''uid-0001'' ?g 0 5 (show_hex 0x1f) ((), l1)) = Some (Inr x)" by blast
  from unit_result(1) [OF this] obtain cid path l2 where
    l2: "writeClaimCDISpec (logged ok_os) ''/cdi'' ''/hook''
      ''uid-0001'' ?g 0 5 (show_hex 0x1f) ((), l1) = (Some (Inr (cid, path)), ((), l2))" by (cases x) auto
  obtain dev d where st: "structured_step (logged ok_os) ''/r'' ''uid-0001'' ex_result ((), []) (ex_driver True pool20) =
      (Prepared dev, ((), l2), d)"
    by (simp add: structured_step_def ex_result_def ex_names al l1 l2 Let_def)
  have "parseCacheWayDeviceName (res_device ex_result) = Inr (0, 5)" by (simp add: ex_result_def ex_names)
  with prepared_claim_files [OF st, of 42] obtain m p q r path spec cdi where f:
    "l2 = [MkdirAll p, WriteFile q (mask_line [(0, m)] @ [newline]), MkdirAll r, WriteFile path (MarshalSpec spec)]"
    "CdiDevices spec = [cdi]" "\<forall>al. rebuild_data (mask_line [(0, m)] @ [newline]) al = al(0 \<mapsto> map_get 0 al 0 OR m)"
    by auto
  have "rebuild_data (mask_line [(0, m)] @ [newline]) Map.empty = [0 \<mapsto> m]"
    using f(3) [rule_format, of Map.empty] by simp
  moreover have "MarshalSpec spec \<in> (\<lambda>c. case c of WriteFile p t \<Rightarrow> t | _ \<Rightarrow> []) ` set l2"
    unfolding f(1) by simp
  moreover have "length l2 = 4" "length (CdiDevices spec) = 1" by (simp_all add: f(1,2))
  ultimately show ?thesis using st by blast
qed

end
