(* ===== verification/ConcurrentProps.thy ===== *)
theory ConcurrentProps
  imports Concurrent StructuredProps
begin

text \<open>
  Isolation and completion of concurrent requests, and the relation between the interleaved and the
  sequential handlers. The masks in flight in a thread count as held by that thread, so the
  contract \<open>way_pool\<close> of the allocator carries the invariant over every step.
\<close>

subsection \<open>Who holds which mask\<close>

fun pc_holds :: "pc \<Rightarrow> (int \<times> 64 word) option" where
  "pc_holds (MakeGroup j) = Some (job_cache j, job_cbm j)"
| "pc_holds (MakeSpec j) = Some (job_cache j, job_cbm j)"
| "pc_holds (RecordAlloc j _ _) = Some (job_cache j, job_cbm j)"
| "pc_holds (UndoGroup j _) = Some (job_cache j, job_cbm j)"
| "pc_holds (UndoWays j _) = Some (job_cache j, job_cbm j)"
| "pc_holds (DropGroup a) = Some (saCacheID a, saCbm a)"
| "pc_holds (FreeTaken a) = Some (saCacheID a, saCbm a)"
| "pc_holds _ = None"

text \<open>Threads by position and claims by UID are the holders.\<close>

definition sys_held :: "'w system \<Rightarrow> nat + string \<rightharpoonup> int \<times> 64 word" where
  "sys_held s k =
     (case k of
        Inl i \<Rightarrow> if i < length (sys_threads s) then pc_holds (th_pc (sys_threads s ! i)) else None
      | Inr uid \<Rightarrow> held (sys_driver s) uid)"

text \<open>A mask that exists in the cache: one run of ways below the number of ways of the domain.\<close>

definition good_mask :: "(int \<rightharpoonup> int) \<Rightarrow> int \<Rightarrow> 64 word \<Rightarrow> bool" where
  "good_mask tws c m \<longleftrightarrow> (\<exists>tw start n. tws c = Some tw \<and> 0 < n \<and> 0 \<le> start \<and> start + n \<le> tw \<and>
     way_set m = run_set start n)"

definition sys_inv :: "'w system \<Rightarrow> bool" where
  "sys_inv s \<longleftrightarrow> way_inv (wayAlloc (sys_driver s)) \<and> holds used_ways (sys_held s) (wayAlloc (sys_driver s)) \<and>
     (\<forall>k c m. sys_held s k = Some (c, m) \<longrightarrow> good_mask (totalWays (wayAlloc (sys_driver s))) c m)"

text \<open>The effects that a step of a thread can have on the masks.\<close>

lemma pc_holds_start [simp]: "pc_holds (start_call c) = None"
  by (cases c) simp_all

lemma respond_pc [simp]: "th_pc (respond claim r th) = Idle" "th_calls (respond claim r th) = th_calls th"
  by (simp_all add: respond_def)

lemma report_simps [simp]:
  "wayAlloc (report e d) = wayAlloc d" "structuredAllocs (report e d) = structuredAllocs d"
  by (simp_all add: report_def)

lemma loop_step_effect:
  assumes "loop_step claim results devices th w d = (th', w', d')"
  obtains (same) "pc_holds (th_pc th') = None" "wayAlloc d' = wayAlloc d" "structuredAllocs d' = structuredAllocs d"
  | (acquire) c n m where "pc_holds (th_pc th') = Some (c, m)"
      "WayAllocate c n (wayAlloc d) = (Inr m, wayAlloc d')" "structuredAllocs d' = structuredAllocs d"
proof (cases results)
  case Nil
  with assms show thesis by (intro same) (auto simp: loop_step_def split: if_splits)
next
  case (Cons result rest)
  consider (no) "res_driver result \<noteq> driverName d \<or> res_pool result \<noteq> nodeName d \<or>
      \<not> is_ok (parseCacheWayDeviceName (res_device result))"
    | (own) c n where "res_driver result = driverName d \<and> res_pool result = nodeName d"
        "parseCacheWayDeviceName (res_device result) = Inr (c, n)"
    by (metis is_ok_iff surj_pair)
  then show thesis
  proof cases
    case no
    with assms Cons show thesis
      by (intro same) (auto simp: loop_step_def is_ok_def split: sum.splits if_splits)
  next
    case (own c n)
    obtain r a where w: "WayAllocate c n (wayAlloc d) = (r, a)" by fastforce
    show thesis
    proof (cases r)
      case (Inl e)
      with assms Cons own w WayAllocate_Inl [of c n "wayAlloc d" e a] show thesis
        by (intro same) (auto simp: loop_step_def)
    next
      case (Inr m)
      with assms Cons own w show thesis by (intro acquire [of c m n]) (auto simp: loop_step_def)
    qed
  qed
qed

lemma thread_step_effect:
  assumes "thread_step os kube root th w d = Some (th', w', d')"
  obtains (same) "pc_holds (th_pc th') = pc_holds (th_pc th)" "wayAlloc d' = wayAlloc d"
      "structuredAllocs d' = structuredAllocs d"
  | (forget) "pc_holds (th_pc th') = None" "wayAlloc d' = wayAlloc d" "structuredAllocs d' = structuredAllocs d"
  | (acquire) c n m where "pc_holds (th_pc th) = None" "pc_holds (th_pc th') = Some (c, m)"
      "WayAllocate c n (wayAlloc d) = (Inr m, wayAlloc d')" "structuredAllocs d' = structuredAllocs d"
  | (recorded) uid a where "pc_holds (th_pc th) = Some (saCacheID a, saCbm a)" "pc_holds (th_pc th') = None"
      "wayAlloc d' = wayAlloc d" "structuredAllocs d' = (structuredAllocs d)(uid \<mapsto> a)"
  | (released) c m where "pc_holds (th_pc th) = Some (c, m)" "pc_holds (th_pc th') = None"
      "wayAlloc d' = WayRelease c m (wayAlloc d)" "structuredAllocs d' = structuredAllocs d"
  | (taken) uid a where "pc_holds (th_pc th) = None" "pc_holds (th_pc th') = Some (saCacheID a, saCbm a)"
      "structuredAllocs d uid = Some a" "wayAlloc d' = wayAlloc d"
      "structuredAllocs d' = (structuredAllocs d)(uid := None)"
proof (cases "th_pc th")
  case (Loop claim results devices)
  with assms have l: "loop_step claim results devices th w d = (th', w', d')"
    by (simp add: thread_step_def)
  then show thesis
    by (cases rule: loop_step_effect) (use Loop in \<open>auto intro: same acquire\<close>)
next
  case Idle
  with assms show thesis by (intro same) (auto simp: thread_step_def split: list.splits)
next
  case (Fetch claim)
  with assms show thesis
    by (intro same) (auto simp: thread_step_def fetch_step_def split: sum.splits option.splits)
next
  case (MakeGroup j)
  with assms show thesis
    by (intro same) (auto simp: thread_step_def group_step_def split: prod.splits option.splits)
next
  case (MakeSpec j)
  show thesis
  proof (cases "pc_holds (th_pc th') = None")
    case True
    with MakeSpec assms show thesis
      by (intro forget) (auto simp: thread_step_def spec_step_def split: prod.splits option.splits sum.splits)
  next
    case False
    with MakeSpec assms show thesis
      by (intro same) (auto simp: thread_step_def spec_step_def split: prod.splits option.splits sum.splits)
  qed
next
  case (RecordAlloc j x y)
  with assms show thesis
    by (intro recorded [of "job_alloc j y" "kc_uid (job_claim j)"])
      (auto simp: thread_step_def record_step_def job_alloc_def)
next
  case (UndoGroup j e)
  with assms show thesis by (intro same) (auto simp: thread_step_def)
next
  case (UndoWays j e)
  with assms show thesis
    by (intro released [of "job_cache j" "job_cbm j"]) (auto simp: thread_step_def undo_step_def)
next
  case (Take claim)
  show thesis
  proof (cases "structuredAllocs d (kc_uid claim)")
    case None
    with Take assms show thesis by (intro same) (auto simp: thread_step_def take_step_def)
  next
    case (Some a)
    with Take assms show thesis
      by (intro taken [of a "kc_uid claim"]) (auto simp: thread_step_def take_step_def)
  qed
next
  case (DropGroup a)
  with assms show thesis
    by (intro same) (auto simp: thread_step_def drop_step_def split: prod.splits)
next
  case (FreeTaken a)
  with assms show thesis
    by (intro released [of "saCacheID a" "saCbm a"]) (auto simp: thread_step_def)
next
  case (DropSpec a)
  with assms show thesis by (intro same) (auto simp: thread_step_def)
next
  case Crashed
  with assms show thesis by (simp add: thread_step_def)
qed

subsection \<open>The invariant\<close>

lemma sys_held_run:
  assumes "i < length (sys_threads s)"
  shows "sys_held (s\<lparr>sys_world := w, sys_driver := d, sys_threads := (sys_threads s)[i := th]\<rparr>) =
    (\<lambda>k. case k of Inl j \<Rightarrow> if j = i then pc_holds (th_pc th) else sys_held s (Inl j) | Inr u \<Rightarrow> held d u)"
  using assms by (auto simp: sys_held_def fun_eq_iff split: sum.splits)

lemma sys_held_simps [simp]:
  "sys_held s (Inr u) = held (sys_driver s) u"
  "sys_held (s\<lparr>sys_world := w\<rparr>) = sys_held s"
  "i < length (sys_threads s) \<Longrightarrow> sys_held s (Inl i) = pc_holds (th_pc (sys_threads s ! i))"
  by (auto simp: sys_held_def fun_eq_iff split: sum.splits)

lemma sys_held_arrive: "sys_held (s\<lparr>sys_threads := sys_threads s @ [request calls]\<rparr>) = sys_held s"
  by (auto simp: sys_held_def fun_eq_iff nth_append request_def less_Suc_eq split: sum.splits)

lemma sys_step_inv:
  assumes "sys_inv s" "sys_step os kube root s s'"
  shows "sys_inv s'"
proof -
  from assms(2) obtain i th w d where step: "i < length (sys_threads s)"
      "thread_step os kube root (sys_threads s ! i) (sys_world s) (sys_driver s) = Some (th, w, d)"
    and s'_def: "s' = s\<lparr>sys_world := w, sys_driver := d, sys_threads := (sys_threads s)[i := th]\<rparr>"
    by (rule sys_stepE)
  let ?a = "wayAlloc (sys_driver s)"
  have inv: "way_inv ?a" and h: "holds used_ways (sys_held s) ?a" using assms(1) by (auto simp: sys_inv_def)
  have s': "sys_driver s' = d" using s'_def by simp
  have held': "sys_held s' = (\<lambda>k. case k of Inl j \<Rightarrow> if j = i then pc_holds (th_pc th) else sys_held s (Inl j)
      | Inr u \<Rightarrow> held d u)"
    unfolding s'_def by (rule sys_held_run [OF step(1)])
  have same_table: "sys_held s' = (sys_held s)(Inl i := pc_holds (th_pc th))"
    if "structuredAllocs d = structuredAllocs (sys_driver s)"
    using held_same [OF that] by (auto simp: held' fun_eq_iff split: sum.splits)
  have good: "good_mask (totalWays ?a) c m" if "sys_held s k = Some (c, m)" for k c m
    using assms(1) that unfolding sys_inv_def by blast
  have cur: "sys_held s (Inl i) = pc_holds (th_pc (sys_threads s ! i))" using step(1) by simp
  from step(2) show ?thesis
  proof (cases rule: thread_step_effect)
    case same
    then have "sys_held s' = sys_held s" using same_table cur by (auto simp: fun_eq_iff)
    with same inv h good show ?thesis by (simp add: sys_inv_def s')
  next
    case forget
    then have "sys_held s' = (sys_held s)(Inl i := None)" using same_table by simp
    with forget inv ways.holds_forget [OF h] good show ?thesis by (simp add: sys_inv_def s')
  next
    case (acquire c n m)
    then have "sys_held s' = (sys_held s)(Inl i \<mapsto> (c, m))" using same_table by simp
    moreover have "good_mask (totalWays ?a) c m"
      by (rule WayAllocate_Inr [OF inv acquire(3)]) (auto simp: good_mask_def)
    ultimately show ?thesis
      using ways.holds_alloc [OF inv h acquire(3)] WayAllocate_inv [OF inv acquire(3)] good
        WayAllocate_total [OF acquire(3)]
      by (simp add: sys_inv_def s')
  next
    case (recorded uid a)
    have "sys_held s' = (sys_held s)(Inl i := None, Inr uid := Some (saCacheID a, saCbm a))"
      unfolding held' using recorded by (auto simp: fun_eq_iff held_def split: sum.splits)
    with ways.holds_move [OF h, of "Inl i"] cur recorded inv good [of "Inl i"] good show ?thesis
      by (simp add: sys_inv_def s')
  next
    case (released c m)
    then have "sys_held s' = (sys_held s)(Inl i := None)" using same_table by simp
    with ways.holds_release [OF h, of "Inl i"] cur released inv good show ?thesis
      by (simp add: sys_inv_def s')
  next
    case (taken uid a)
    have "sys_held s' = (sys_held s)(Inr uid := None, Inl i := Some (saCacheID a, saCbm a))"
      unfolding held' using taken by (auto simp: fun_eq_iff held_def split: sum.splits)
    with ways.holds_move [OF h, of "Inr uid" _ "Inl i"] taken inv good [of "Inr uid"] good show ?thesis
      by (simp add: sys_inv_def s' held_def)
  qed
qed

lemma sys_reach_inv: "sys_reach os kube root s0 s \<Longrightarrow> sys_inv s0 \<Longrightarrow> sys_inv s"
proof (induction rule: sys_reach.induct)
  case (step s s')
  then show ?case using sys_step_inv by blast
next
  case (arrive s calls)
  then show ?case unfolding sys_inv_def sys_held_arrive by simp
next
  case (environment s w)
  then show ?case by (simp add: sys_inv_def)
qed

lemma sys_reach_run:
  assumes "sys_reach os kube root s0 \<lparr>sys_world = w, sys_driver = d, sys_threads = ts\<rparr>"
    and "i < length ts" "thread_step os kube root (ts ! i) w d = Some (th, w', d')"
  shows "sys_reach os kube root s0 \<lparr>sys_world = w', sys_driver = d', sys_threads = ts[i := th]\<rparr>"
  using sys_reach.step [OF assms(1) sys_step.run [of i _ os kube root th w' d']] assms(2,3) by simp

text \<open>A started driver with no thread satisfies the invariant.\<close>

lemma sys_inv_start:
  assumes "structured_inv d"
  shows "sys_inv \<lparr>sys_world = w, sys_driver = d, sys_threads = []\<rparr>"
proof -
  let ?s = "\<lparr>sys_world = w, sys_driver = d, sys_threads = []\<rparr>"
  have h: "sys_held ?s = (\<lambda>k. case k of Inl i \<Rightarrow> None | Inr u \<Rightarrow> held d u)"
    by (simp add: sys_held_def fun_eq_iff split: sum.splits)
  have "good_mask (totalWays (wayAlloc d)) c m" if "held d u = Some (c, m)" for u c m
    using assms that unfolding structured_inv_def good_entry_def good_mask_def held_def by fastforce
  with assms show ?thesis
    by (auto simp: sys_inv_def structured_inv_def holds_def h split: sum.splits) 
qed

lemma sys_step_total: "sys_step os kube root s s' \<Longrightarrow> totalWays (wayAlloc (sys_driver s')) = totalWays (wayAlloc (sys_driver s))"
  by (elim sys_stepE thread_step_effect) (auto dest: WayAllocate_total)

lemma sys_reach_total:
  "sys_reach os kube root s0 s \<Longrightarrow> totalWays (wayAlloc (sys_driver s)) = totalWays (wayAlloc (sys_driver s0))"
  by (induction rule: sys_reach.induct) (auto simp: sys_step_total)

subsection \<open>A thread alone\<close>

text \<open>Uninterrupted runs of one thread. Each step is a function, so a run that ends is unique.\<close>

inductive solo :: "'w os \<Rightarrow> 'w kube \<Rightarrow> string \<Rightarrow> thread \<times> 'w \<times> Driver \<Rightarrow> thread \<times> 'w \<times> Driver \<Rightarrow> bool"
  for os kube root where
  stop: "solo os kube root s s"
| go: "thread_step os kube root th w d = Some s' \<Longrightarrow> solo os kube root s' s'' \<Longrightarrow>
    solo os kube root (th, w, d) s''"

lemma solo_trans: "solo os kube root s s' \<Longrightarrow> solo os kube root s' s'' \<Longrightarrow> solo os kube root s s''"
  by (induction rule: solo.induct) (auto intro: solo.go)

lemma solo_one: "thread_step os kube root th w d = Some s' \<Longrightarrow> solo os kube root (th, w, d) s'"
  by (blast intro: solo.intros)

lemma report_fields [simp]:
  "drvCaps (report e d) = drvCaps d" "cdiDir (report e d) = cdiDir d" "hookBinPath (report e d) = hookBinPath d"
  "driverName (report e d) = driverName d" "nodeName (report e d) = nodeName d"
  by (simp_all add: report_def)

lemma report_commutes [simp]:
  "(report e d)\<lparr>wayAlloc := a\<rparr> = report e (d\<lparr>wayAlloc := a\<rparr>)"
  "(report e d)\<lparr>structuredAllocs := m\<rparr> = report e (d\<lparr>structuredAllocs := m\<rparr>)"
  by (simp_all add: report_def)

text \<open>What a thread at the head of the loop becomes, by the outcome of the sequential step.\<close>

definition after_step :: "kubelet_claim \<Rightarrow> alloc_result list \<Rightarrow> prepared_device list \<Rightarrow> thread \<Rightarrow> step_outcome \<Rightarrow> thread" where
  "after_step claim rest devices th out =
     (case out of
        Skip \<Rightarrow> th\<lparr>th_pc := Loop claim rest devices\<rparr>
      | Prepared dev \<Rightarrow> th\<lparr>th_pc := Loop claim rest (devices @ [dev])\<rparr>
      | Fail e \<Rightarrow> respond claim (error_response e) th
      | Panics \<Rightarrow> th\<lparr>th_pc := Crashed\<rparr>)"

lemma respond_set_pc [simp]: "respond claim r (th\<lparr>th_pc := p\<rparr>) = respond claim r th"
  by (simp add: respond_def)

lemma solo_undo:
  "solo os kube root (th\<lparr>th_pc := UndoWays j e\<rparr>, w, d)
     (respond (job_claim j) (error_response e) th, w,
      report (Inc PrepareTotal [''error'']) (d\<lparr>wayAlloc := WayRelease (job_cache j) (job_cbm j) (wayAlloc d)\<rparr>))"
  by (rule solo_one) (simp add: thread_step_def undo_step_def)

lemma solo_undo_group:
  "solo os kube root (th\<lparr>th_pc := UndoGroup j e\<rparr>, w, d)
     (th\<lparr>th_pc := UndoWays j e\<rparr>, snd (DeleteGroup os root (job_group j) w), d)"
  by (rule solo_one) (simp add: thread_step_def)

lemma solo_record:
  "solo os kube root (th\<lparr>th_pc := RecordAlloc j cdi path\<rparr>, w, d)
     (th\<lparr>th_pc := Loop (job_claim j) (job_rest j) (job_devices j @ [job_device j cdi])\<rparr>, w,
      d\<lparr>structuredAllocs := (structuredAllocs d)(kc_uid (job_claim j) \<mapsto> job_alloc j path)\<rparr>)"
  by (rule solo_one) (simp add: thread_step_def record_step_def)

lemma solo_job:
  assumes "j = \<lparr>job_claim = claim, job_result = result, job_cache = c, job_ways = n, job_cbm = cbm,
      job_rest = rest, job_devices = devices\<rparr>"
    and own: "res_driver result = driverName d" "res_pool result = nodeName d"
      "parseCacheWayDeviceName (res_device result) = Inr (c, n)" "WayAllocate c n (wayAlloc d) = (Inr cbm, a)"
    and st: "structured_step os root (kc_uid claim) result w d = (out, w', d')"
  shows "solo os kube root (th\<lparr>th_pc := MakeGroup j\<rparr>, w, d\<lparr>wayAlloc := a\<rparr>) (after_step claim rest devices th out, w', d')"
proof -
  obtain err w1 where g: "CreateGroup os root (claim_group c (kc_uid claim)) (buildStructuredSchemata c (show_hex cbm) 0) w = (err, w1)"
    by fastforce
  have grp: "job_group j = claim_group c (kc_uid claim)" by (simp add: assms(1) job_group_def)
  show ?thesis
  proof (cases err)
    case (Some e)
    have "solo os kube root (th\<lparr>th_pc := MakeGroup j\<rparr>, w, d\<lparr>wayAlloc := a\<rparr>)
        (th\<lparr>th_pc := UndoWays j (Wrapf ''creating resctrl group %s: %v'' [ArgStr (job_group j)] e)\<rparr>, w1, d\<lparr>wayAlloc := a\<rparr>)"
      using g Some grp assms(1) by (intro solo_one) (simp add: thread_step_def group_step_def)
    from solo_trans [OF this solo_undo] g Some own st assms(1) grp show ?thesis
      by (auto simp: structured_step_def Let_def after_step_def)
  next
    case None
    obtain r w2 where wr: "writeClaimCDISpec os (cdiDir d) (hookBinPath d) (kc_uid claim) (claim_group c (kc_uid claim)) c n (show_hex cbm) w1 = (r, w2)"
      by fastforce
    let ?d1 = "report (Inc ResctrlGroupCreateTotal [''success'']) (d\<lparr>wayAlloc := a\<rparr>)"
    have s1: "solo os kube root (th\<lparr>th_pc := MakeGroup j\<rparr>, w, d\<lparr>wayAlloc := a\<rparr>) (th\<lparr>th_pc := MakeSpec j\<rparr>, w1, ?d1)"
      using g None grp assms(1) by (intro solo_one) (simp add: thread_step_def group_step_def)
    consider "r = None" | e where "r = Some (Inl e)" | i p where "r = Some (Inr (i, p))"
      by (metis option.exhaust sum.exhaust surj_pair)
    then have "solo os kube root (th\<lparr>th_pc := MakeSpec j\<rparr>, w1, ?d1) (after_step claim rest devices th out, w', d')"
    proof cases
      case 1
      with g None wr own st assms(1) grp show ?thesis
        by (intro solo_one) (auto simp: structured_step_def Let_def thread_step_def spec_step_def after_step_def)
    next
      case (2 e)
      have "solo os kube root (th\<lparr>th_pc := MakeSpec j\<rparr>, w1, ?d1)
          (th\<lparr>th_pc := UndoGroup j (Wrapf ''writing CDI spec for claim %s: %v'' [ArgStr (kc_uid claim)] e)\<rparr>, w2, ?d1)"
        using 2 wr grp assms(1) by (intro solo_one) (simp add: thread_step_def spec_step_def)
      from solo_trans [OF this solo_trans [OF solo_undo_group solo_undo]] 2 g None wr own st assms(1) grp
      show ?thesis by (auto simp: structured_step_def Let_def after_step_def)
    next
      case (3 i p)
      have "solo os kube root (th\<lparr>th_pc := MakeSpec j\<rparr>, w1, ?d1) (th\<lparr>th_pc := RecordAlloc j i p\<rparr>, w2, ?d1)"
        using 3 wr grp assms(1) by (intro solo_one) (simp add: thread_step_def spec_step_def)
      from solo_trans [OF this solo_record] 3 g None wr own st assms(1) grp
      show ?thesis by (auto simp: structured_step_def Let_def after_step_def job_alloc_def job_device_def)
    qed
    with s1 show ?thesis by (rule solo_trans)
  qed
qed

lemma solo_loop_head:
  assumes "structured_step os root (kc_uid claim) result w d = (out, w', d')"
  shows "solo os kube root (th\<lparr>th_pc := Loop claim (result # rest) devices\<rparr>, w, d)
    (after_step claim rest devices th out, w', d')"
proof -
  consider (no) "res_driver result \<noteq> driverName d \<or> res_pool result \<noteq> nodeName d \<or>
      \<not> is_ok (parseCacheWayDeviceName (res_device result))"
    | (own) c n where "res_driver result = driverName d" "res_pool result = nodeName d"
        "parseCacheWayDeviceName (res_device result) = Inr (c, n)"
    by (metis is_ok_iff surj_pair)
  then show ?thesis
  proof cases
    case no
    with assms show ?thesis
      by (intro solo_one) (auto simp: thread_step_def loop_step_def structured_step_def after_step_def is_ok_def
          split: sum.splits if_splits)
  next
    case (own c n)
    obtain r a where al: "WayAllocate c n (wayAlloc d) = (r, a)" by fastforce
    show ?thesis
    proof (cases r)
      case (Inl e)
      with assms own al show ?thesis
        by (intro solo_one) (auto simp: thread_step_def loop_step_def structured_step_def after_step_def)
    next
      case (Inr cbm)
      let ?j = "\<lparr>job_claim = claim, job_result = result, job_cache = c, job_ways = n, job_cbm = cbm,
        job_rest = rest, job_devices = devices\<rparr>"
      have "solo os kube root (th\<lparr>th_pc := Loop claim (result # rest) devices\<rparr>, w, d)
          (th\<lparr>th_pc := MakeGroup ?j\<rparr>, w, d\<lparr>wayAlloc := a\<rparr>)"
        using own al Inr by (intro solo_one) (simp add: thread_step_def loop_step_def)
      from solo_trans [OF this solo_job [OF refl own al [unfolded Inr] assms]] show ?thesis .
    qed
  qed
qed

lemma solo_loop:
  assumes "structured_loop os root (kc_uid claim) results devices w d = (r, w', d')"
  shows "solo os kube root (th\<lparr>th_pc := Loop claim results devices\<rparr>, w, d)
    ((case r of
        None \<Rightarrow> th\<lparr>th_pc := Crashed\<rparr>
      | Some (Inl e) \<Rightarrow> respond claim (error_response e) th
      | Some (Inr devs) \<Rightarrow> th\<lparr>th_pc := Loop claim [] devs\<rparr>), w', d')"
  using assms
proof (induction results arbitrary: devices w d)
  case Nil
  then show ?case by (auto intro: solo.stop)
next
  case (Cons result rest)
  obtain out w1 d1 where st: "structured_step os root (kc_uid claim) result w d = (out, w1, d1)"
    using prod_cases3 by blast
  note head = solo_loop_head [OF st, where kube = kube and th = th and rest = rest and devices = devices]
  show ?case
  proof (cases out)
    case Skip
    then have "structured_loop os root (kc_uid claim) rest devices w1 d1 = (r, w', d')"
      using Cons.prems st by simp
    from solo_trans [OF head [unfolded Skip after_step_def step_outcome.case] Cons.IH [OF this]] show ?thesis .
  next
    case (Prepared dev)
    then have "structured_loop os root (kc_uid claim) rest (devices @ [dev]) w1 d1 = (r, w', d')"
      using Cons.prems st by simp
    from solo_trans [OF head [unfolded Prepared after_step_def step_outcome.case] Cons.IH [OF this]] show ?thesis .
  qed (use head Cons.prems st in \<open>auto simp: after_step_def\<close>)
qed

lemma structured_step_config:
  "structured_step os root uid result w d = (out, w', d') \<Longrightarrow> driverName d' = driverName d \<and> drvCaps d' = drvCaps d"
  by (auto simp: structured_step_def Let_def split: if_splits sum.splits prod.splits option.splits)

lemma structured_loop_config:
  "structured_loop os root uid results devices w d = (r, w', d') \<Longrightarrow> driverName d' = driverName d \<and> drvCaps d' = drvCaps d"
proof (induction results arbitrary: devices w d)
  case (Cons result rest)
  obtain out w1 d1 where st: "structured_step os root uid result w d = (out, w1, d1)"
    using prod_cases3 by blast
  with Cons structured_step_config [OF st] show ?case by (cases out) auto
qed simp

lemma prepareClaimStructured_caps:
  "prepareClaimStructured os kube root claim w d = (r, w', d') \<Longrightarrow> drvCaps d' = drvCaps d"
  using structured_loop_config
  by (fastforce simp: prepareClaimStructured_def split: sum.splits option.splits prod.splits if_splits)

lemma unprepareClaimStructured_caps:
  "unprepareClaimStructured os root claim w d = (w', d') \<Longrightarrow> drvCaps d' = drvCaps d"
  by (auto simp: unprepareClaimStructured_def Let_def split: option.splits prod.splits)

text \<open>A claim that is prepared alone is prepared as the sequential handler does.\<close>

definition after_prepare :: "kubelet_claim \<Rightarrow> thread \<Rightarrow> prepare_response option \<Rightarrow> thread" where
  "after_prepare claim th r = (case r of None \<Rightarrow> th\<lparr>th_pc := Crashed\<rparr> | Some resp \<Rightarrow> respond claim resp th)"

lemma solo_prepare:
  assumes "prepareClaimStructured os kube root claim w d = (r, w', d')"
  shows "solo os kube root (th\<lparr>th_pc := Fetch claim\<rparr>, w, d) (after_prepare claim th r, w', d')"
proof -
  let ?get = "kube_get_claim kube w (kc_namespace claim) (kc_name claim)"
  consider (err) "\<nexists>rc rs. ?get = Inr rc \<and> claim_allocation rc = Some rs"
    | (ok) rc rs where "?get = Inr rc" "claim_allocation rc = Some rs" by blast
  then show ?thesis
  proof cases
    case err
    with assms show ?thesis
      by (intro solo_one) (auto simp: thread_step_def fetch_step_def prepareClaimStructured_def after_prepare_def
          split: sum.splits option.splits)
  next
    case (ok rc rs)
    obtain r1 w1 d1 where l: "structured_loop os root (kc_uid claim) rs [] w d = (r1, w1, d1)"
      using prod_cases3 by blast
    have "solo os kube root (th\<lparr>th_pc := Fetch claim\<rparr>, w, d) (th\<lparr>th_pc := Loop claim rs []\<rparr>, w, d)"
      using ok by (intro solo_one) (simp add: thread_step_def fetch_step_def)
    note fetched = solo_trans [OF this solo_loop [OF l]]
    consider "r1 = None" | e where "r1 = Some (Inl e)" | devs where "r1 = Some (Inr devs)"
      by (metis option.exhaust sum.exhaust)
    then show ?thesis
    proof cases
      case (3 devs)
      have "solo os kube root (th\<lparr>th_pc := Loop claim [] devs\<rparr>, w1, d1) (after_prepare claim th r, w', d')"
        using assms ok l 3 structured_loop_config [OF l]
        by (intro solo_one) (auto simp: thread_step_def loop_step_def prepareClaimStructured_def after_prepare_def
            split: if_splits)
      with fetched 3 show ?thesis by (auto intro: solo_trans)
    qed (use fetched assms ok l in \<open>auto simp: prepareClaimStructured_def after_prepare_def\<close>)
  qed
qed

lemma solo_unprepare:
  assumes "unprepareClaimStructured os root claim w d = (w', d')"
  shows "solo os kube root (th\<lparr>th_pc := Take claim\<rparr>, w, d) (th\<lparr>th_pc := Idle\<rparr>, w', d')"
proof (cases "structuredAllocs d (kc_uid claim)")
  case None
  with assms show ?thesis
    by (intro solo_one) (simp add: thread_step_def take_step_def unprepareClaimStructured_def)
next
  case (Some a)
  let ?d1 = "d\<lparr>structuredAllocs := (structuredAllocs d)(kc_uid claim := None)\<rparr>"
  obtain err w1 where del: "DeleteGroup os root (saGroup a) w = (err, w1)" by fastforce
  let ?d2 = "report (Inc ResctrlGroupDeleteTotal [if err \<noteq> None then ''error'' else ''success'']) ?d1"
  let ?d3 = "?d2\<lparr>wayAlloc := WayRelease (saCacheID a) (saCbm a) (wayAlloc ?d2)\<rparr>"
  have "solo os kube root (th\<lparr>th_pc := Take claim\<rparr>, w, d) (th\<lparr>th_pc := DropGroup a\<rparr>, w, ?d1)"
    using Some by (intro solo_one) (simp add: thread_step_def take_step_def)
  moreover have "solo os kube root (th\<lparr>th_pc := DropGroup a\<rparr>, w, ?d1) (th\<lparr>th_pc := FreeTaken a\<rparr>, w1, ?d2)"
    using del by (intro solo_one) (simp add: thread_step_def drop_step_def)
  moreover have "solo os kube root (th\<lparr>th_pc := FreeTaken a\<rparr>, w1, ?d2) (th\<lparr>th_pc := DropSpec a\<rparr>, w1, ?d3)"
    by (intro solo_one) (simp add: thread_step_def)
  moreover have "solo os kube root (th\<lparr>th_pc := DropSpec a\<rparr>, w1, ?d3) (th\<lparr>th_pc := Idle\<rparr>, w', d')"
    using assms Some del by (intro solo_one) (simp add: thread_step_def unprepareClaimStructured_def Let_def)
  ultimately show ?thesis by (meson solo_trans)
qed

text \<open>A whole request.\<close>

lemma solo_start:
  "solo os kube root (\<lparr>th_pc = Idle, th_calls = c # cs, th_resp = resp\<rparr>, w, d)
     (\<lparr>th_pc = Idle, th_calls = cs, th_resp = resp\<rparr>\<lparr>th_pc := start_call c\<rparr>, w, d)"
  by (rule solo_one) (simp add: thread_step_def)

lemma solo_prepare_claims:
  assumes "PartitionableDevices (drvCaps d)" "prepare_claims os kube root order claims resp w d = (r, w', d')"
  shows "\<exists>th. solo os kube root (\<lparr>th_pc = Idle, th_calls = map PrepareCall claims, th_resp = resp\<rparr>, w, d) (th, w', d') \<and>
    (case r of None \<Rightarrow> th_pc th = Crashed
     | Some resp' \<Rightarrow> th = \<lparr>th_pc = Idle, th_calls = [], th_resp = resp'\<rparr>)"
  using assms
proof (induction claims arbitrary: resp w d)
  case Nil
  then show ?case by (auto intro: solo.stop)
next
  case (Cons claim claims)
  let ?th = "\<lparr>th_pc = Idle, th_calls = map PrepareCall claims, th_resp = resp\<rparr>"
  obtain r1 w1 d1 where p: "prepareClaimStructured os kube root claim w d = (r1, w1, d1)"
    using prod_cases3 by blast
  from solo_trans [OF solo_start solo_prepare [OF p, of ?th, folded start_call.simps(1)]]
  have first: "solo os kube root (\<lparr>th_pc = Idle, th_calls = map PrepareCall (claim # claims), th_resp = resp\<rparr>, w, d)
      (after_prepare claim ?th r1, w1, d1)" by simp
  show ?case
  proof (cases r1)
    case None
    with first p Cons.prems show ?thesis by (intro exI) (auto simp: after_prepare_def)
  next
    case (Some a)
    then have "prepare_claims os kube root order claims (resp(kc_uid claim \<mapsto> a)) w1 d1 = (r, w', d')"
      "PartitionableDevices (drvCaps d1)"
      using Cons.prems p prepareClaimStructured_caps [OF p] by auto
    moreover have ap: "after_prepare claim ?th r1 =
        \<lparr>th_pc = Idle, th_calls = map PrepareCall claims, th_resp = resp(kc_uid claim \<mapsto> a)\<rparr>"
      by (simp add: Some after_prepare_def respond_def)
    ultimately obtain th where
      th: "solo os kube root (after_prepare claim ?th r1, w1, d1) (th, w', d')"
        "case r of None \<Rightarrow> th_pc th = Crashed | Some resp' \<Rightarrow> th = \<lparr>th_pc = Idle, th_calls = [], th_resp = resp'\<rparr>"
      using Cons.IH [of d1 "resp(kc_uid claim \<mapsto> a)" w1, folded ap] by blast
    from solo_trans [OF first th(1)] th(2) show ?thesis by blast
  qed
qed

lemma solo_unprepare_claims:
  assumes "PartitionableDevices (drvCaps d)" "unprepare_claims os root order claims w d = (w', d')"
  shows "solo os kube root (\<lparr>th_pc = Idle, th_calls = map UnprepareCall claims, th_resp = resp\<rparr>, w, d)
    (\<lparr>th_pc = Idle, th_calls = [], th_resp = resp\<rparr>, w', d')"
  using assms
proof (induction claims arbitrary: w d)
  case Nil
  then show ?case by (auto intro: solo.stop)
next
  case (Cons claim claims)
  let ?th = "\<lparr>th_pc = Idle, th_calls = map UnprepareCall claims, th_resp = resp\<rparr>"
  obtain w1 d1 where u: "unprepareClaimStructured os root claim w d = (w1, d1)" by fastforce
  then have "unprepare_claims os root order claims w1 d1 = (w', d')" "PartitionableDevices (drvCaps d1)"
    using Cons.prems unprepareClaimStructured_caps [OF u] by auto
  from Cons.IH [OF this(2,1)]
    solo_trans [OF solo_start solo_unprepare [OF u, of kube ?th, folded start_call.simps(2)]]
  show ?case by (auto intro: solo_trans)
qed

subsection \<open>Completion\<close>

text \<open>The steps that a thread has left, when no claim has more than \<open>B\<close> allocation results.\<close>

fun pc_work :: "nat \<Rightarrow> pc \<Rightarrow> nat" where
  "pc_work B Idle = 0"
| "pc_work B (Fetch _) = 4 * B + 3"
| "pc_work B (Loop _ results _) = 4 * length results + 2"
| "pc_work B (MakeGroup j) = 4 * length (job_rest j) + 5"
| "pc_work B (MakeSpec j) = 4 * length (job_rest j) + 4"
| "pc_work B (RecordAlloc j _ _) = 4 * length (job_rest j) + 3"
| "pc_work B (UndoGroup _ _) = 2"
| "pc_work B (UndoWays _ _) = 1"
| "pc_work B (Take _) = 4"
| "pc_work B (DropGroup _) = 3"
| "pc_work B (FreeTaken _) = 2"
| "pc_work B (DropSpec _) = 1"
| "pc_work B Crashed = 0"

definition work :: "nat \<Rightarrow> thread \<Rightarrow> nat" where
  "work B th = pc_work B (th_pc th) + length (th_calls th) * (4 * B + 5)"

definition bounded_results :: "nat \<Rightarrow> 'w kube \<Rightarrow> bool" where
  "bounded_results B kube \<longleftrightarrow> (\<forall>w ns n rc rs. kube_get_claim kube w ns n = Inr rc \<longrightarrow>
     claim_allocation rc = Some rs \<longrightarrow> length rs \<le> B)"

text \<open>The claims that a thread still has to answer.\<close>

fun pc_owes :: "pc \<Rightarrow> string set" where
  "pc_owes (Fetch claim) = {kc_uid claim}"
| "pc_owes (Loop claim _ _) = {kc_uid claim}"
| "pc_owes (MakeGroup j) = {kc_uid (job_claim j)}"
| "pc_owes (MakeSpec j) = {kc_uid (job_claim j)}"
| "pc_owes (RecordAlloc j _ _) = {kc_uid (job_claim j)}"
| "pc_owes (UndoGroup j _) = {kc_uid (job_claim j)}"
| "pc_owes (UndoWays j _) = {kc_uid (job_claim j)}"
| "pc_owes _ = {}"

definition owes :: "thread \<Rightarrow> string set" where
  "owes th = pc_owes (th_pc th) \<union> {kc_uid claim | claim. PrepareCall claim \<in> set (th_calls th)}"

text \<open>The answers due at the end of a thread's calls.\<close>

definition due :: "thread \<Rightarrow> string set" where
  "due th = dom (th_resp th) \<union> owes th"

definition finished :: "thread \<Rightarrow> bool" where
  "finished th \<longleftrightarrow> th_pc th = Crashed \<or> th_pc th = Idle \<and> th_calls th = []"

lemma thread_step_None: "thread_step os kube root th w d = None \<longleftrightarrow> finished th"
  by (cases "th_pc th"; cases "th_calls th") (simp_all add: thread_step_def finished_def)

lemma respond_simps [simp]:
  "th_resp (respond claim r th) = (th_resp th)(kc_uid claim \<mapsto> r)"
  by (simp add: respond_def)

text \<open>Every step does some of the work, and answers a claim or still owes the answer.\<close>

definition progress :: "nat \<Rightarrow> thread \<Rightarrow> thread \<Rightarrow> bool" where
  "progress B th th' \<longleftrightarrow> work B th' < work B th \<and>
     (th_pc th' = Crashed \<or> due th' = due th)"

lemma progressI:
  "pc_work B (th_pc th') < pc_work B (th_pc th) \<Longrightarrow> th_calls th' = th_calls th \<Longrightarrow>
   th_pc th' = Crashed \<or> dom (th_resp th') \<union> pc_owes (th_pc th') = dom (th_resp th) \<union> pc_owes (th_pc th) \<Longrightarrow>
   progress B th th'"
  by (auto simp: progress_def work_def owes_def due_def)

lemma fetch_progress:
  assumes "bounded_results B kube" "fetch_step kube claim th w d = (th', w', d')" "th_pc th = Fetch claim"
  shows "progress B th th'"
proof -
  let ?get = "kube_get_claim kube w (kc_namespace claim) (kc_name claim)"
  consider (err) "\<nexists>rc rs. ?get = Inr rc \<and> claim_allocation rc = Some rs"
    | (ok) rc rs where "?get = Inr rc" "claim_allocation rc = Some rs" by blast
  then show ?thesis
  proof cases
    case err
    with assms show ?thesis
      by (intro progressI) (auto simp: fetch_step_def split: sum.splits option.splits)
  next
    case (ok rc rs)
    then have "length rs \<le> B" using assms(1) unfolding bounded_results_def by blast
    with ok assms show ?thesis by (intro progressI) (auto simp: fetch_step_def)
  qed
qed

lemma loop_progress:
  assumes "loop_step claim results devices th w d = (th', w', d')" "th_pc th = Loop claim results devices"
  shows "progress B th th'"
proof (cases results)
  case Nil
  with assms show ?thesis by (intro progressI) (auto simp: loop_step_def split: if_splits)
next
  case (Cons result rest)
  with assms show ?thesis
    by (intro progressI) (auto simp: loop_step_def split: if_splits sum.splits prod.splits)
qed

lemma thread_step_progress:
  assumes "bounded_results B kube" "thread_step os kube root th w d = Some (th', w', d')"
  shows "progress B th th'"
proof (cases "th_pc th")
  case Idle
  then obtain c cs where c: "th_calls th = c # cs" "th' = th\<lparr>th_pc := start_call c, th_calls := cs\<rparr>"
    using assms(2) by (auto simp: thread_step_def split: list.splits)
  with Idle show ?thesis by (cases c) (auto simp: progress_def work_def owes_def due_def)
next
  case (Fetch claim)
  with assms fetch_progress show ?thesis by (auto simp: thread_step_def)
next
  case (Loop claim results devices)
  with assms loop_progress show ?thesis by (auto simp: thread_step_def)
next
  case (MakeGroup j)
  with assms(2) show ?thesis
    by (intro progressI) (auto simp: thread_step_def group_step_def split: prod.splits option.splits)
next
  case (MakeSpec j)
  with assms(2) show ?thesis
    by (intro progressI) (auto simp: thread_step_def spec_step_def split: prod.splits option.splits sum.splits)
next
  case (Take claim)
  with assms(2) show ?thesis
    by (intro progressI) (auto simp: thread_step_def take_step_def split: option.splits)
next
  case (DropGroup a)
  with assms(2) show ?thesis
    by (intro progressI) (auto simp: thread_step_def drop_step_def split: prod.splits)
qed (use assms(2) in \<open>auto simp: thread_step_def record_step_def undo_step_def intro!: progressI\<close>)

subsection \<open>Schedules\<close>

text \<open>A schedule of \<open>n\<close> thread steps, chosen freely, while the world changes in between.\<close>

inductive schedule :: "'w os \<Rightarrow> 'w kube \<Rightarrow> string \<Rightarrow> 'w system \<Rightarrow> nat \<Rightarrow> 'w system \<Rightarrow> bool"
  for os kube root s0 where
  none: "schedule os kube root s0 0 s0"
| pick: "schedule os kube root s0 n s \<Longrightarrow> sys_step os kube root s s' \<Longrightarrow> schedule os kube root s0 (Suc n) s'"
| disturb: "schedule os kube root s0 n s \<Longrightarrow> schedule os kube root s0 n (s\<lparr>sys_world := w\<rparr>)"

definition sys_work :: "nat \<Rightarrow> 'w system \<Rightarrow> nat" where
  "sys_work B s = (\<Sum>th \<leftarrow> sys_threads s. work B th)"

lemma sum_list_update_less:
  "i < length xs \<Longrightarrow> f y < f (xs ! i) \<Longrightarrow> (\<Sum>x \<leftarrow> xs[i := y]. f x) < (\<Sum>x \<leftarrow> xs. (f x :: nat))"
  by (induction xs arbitrary: i) (auto split: nat.splits)

lemma sys_step_progress:
  assumes "bounded_results B kube" "sys_step os kube root s s'"
  shows "sys_work B s' < sys_work B s" "length (sys_threads s') = length (sys_threads s)"
    and "i < length (sys_threads s) \<Longrightarrow> th_pc (sys_threads s' ! i) = Crashed \<or>
      due (sys_threads s' ! i) = due (sys_threads s ! i)"
proof -
  from assms(2) obtain k th w d where k: "k < length (sys_threads s)"
      "thread_step os kube root (sys_threads s ! k) (sys_world s) (sys_driver s) = Some (th, w, d)"
    and s': "s' = s\<lparr>sys_world := w, sys_driver := d, sys_threads := (sys_threads s)[k := th]\<rparr>"
    by (rule sys_stepE)
  have p: "progress B (sys_threads s ! k) th" by (rule thread_step_progress [OF assms(1) k(2)])
  then show "sys_work B s' < sys_work B s"
    using k(1) by (simp add: s' sys_work_def progress_def sum_list_update_less)
  show "length (sys_threads s') = length (sys_threads s)" by (simp add: s')
  show "th_pc (sys_threads s' ! i) = Crashed \<or> due (sys_threads s' ! i) = due (sys_threads s ! i)"
    if "i < length (sys_threads s)"
    using p that by (cases "i = k") (auto simp: s' progress_def)
qed

lemma crashed_stays:
  "sys_step os kube root s s' \<Longrightarrow> th_pc (sys_threads s ! i) = Crashed \<Longrightarrow> th_pc (sys_threads s' ! i) = Crashed"
  by (elim sys_stepE) (auto simp: nth_list_update thread_step_def)

lemma schedule_progress:
  assumes "bounded_results B kube" "schedule os kube root s n s'"
  shows "n + sys_work B s' \<le> sys_work B s \<and> length (sys_threads s') = length (sys_threads s) \<and>
    (\<forall>i < length (sys_threads s). th_pc (sys_threads s' ! i) = Crashed \<or>
       due (sys_threads s' ! i) = due (sys_threads s ! i))"
  using assms(2)
proof (induction rule: schedule.induct)
  case (pick n s1 s2)
  note step = sys_step_progress [OF assms(1) pick.hyps(2)]
  show ?case
  proof (intro conjI allI impI)
    fix i
    assume i: "i < length (sys_threads s)"
    with pick.IH step(3) [of i] crashed_stays [OF pick.hyps(2), of i]
    show "th_pc (sys_threads s2 ! i) = Crashed \<or> due (sys_threads s2 ! i) = due (sys_threads s ! i)"
      by auto
  qed (use pick.IH step(1,2) in auto)
qed (simp_all add: sys_work_def)

lemma sys_step_iff:
  "(\<exists>s'. sys_step os kube root s s') \<longleftrightarrow> (\<exists>th \<in> set (sys_threads s). \<not> finished th)"
proof
  assume "\<exists>s'. sys_step os kube root s s'"
  then obtain i th w d where "i < length (sys_threads s)"
    "thread_step os kube root (sys_threads s ! i) (sys_world s) (sys_driver s) = Some (th, w, d)"
    by (auto elim!: sys_stepE)
  with thread_step_None [of os kube root "sys_threads s ! i" "sys_world s" "sys_driver s"]
  show "\<exists>th \<in> set (sys_threads s). \<not> finished th" by (intro bexI [of _ "sys_threads s ! i"]) auto
next
  assume "\<exists>th \<in> set (sys_threads s). \<not> finished th"
  then obtain i where i: "i < length (sys_threads s)" "\<not> finished (sys_threads s ! i)"
    by (auto simp: in_set_conv_nth)
  then obtain r where "thread_step os kube root (sys_threads s ! i) (sys_world s) (sys_driver s) = Some r"
    by (metis thread_step_None not_None_eq)
  with i(1) show "\<exists>s'. sys_step os kube root s s'" by (cases r) (blast intro: sys_step.run)
qed


text \<open>One step of a chosen thread, to follow concrete schedules.\<close>

definition step_at :: "'w os \<Rightarrow> 'w kube \<Rightarrow> string \<Rightarrow> nat \<Rightarrow> 'w system \<Rightarrow> 'w system" where
  "step_at os kube root i s =
     (case thread_step os kube root (sys_threads s ! i) (sys_world s) (sys_driver s) of
        None \<Rightarrow> s
      | Some (th, w, d) \<Rightarrow> s\<lparr>sys_world := w, sys_driver := d, sys_threads := (sys_threads s)[i := th]\<rparr>)"

lemma sys_step_at:
  assumes "i < length (sys_threads s)" "\<not> finished (sys_threads s ! i)"
  shows "sys_step os kube root s (step_at os kube root i s)"
proof -
  obtain r where "thread_step os kube root (sys_threads s ! i) (sys_world s) (sys_driver s) = Some r"
    using assms(2) by (metis thread_step_None not_None_eq)
  then show ?thesis
    using sys_step.run [OF assms(1)] by (cases r) (simp add: step_at_def)
qed

definition ex_race :: "memfs system" where
  "ex_race = \<lparr>sys_world = ex_fs, sys_driver = ex_driver True pool20,
     sys_threads = [request [PrepareCall (ex_kclaim ''uid-0001'')], request [UnprepareCall (ex_kclaim ''uid-0002'')]]\<rparr>"




end
