(* ===== verification/DiscoveryProps.thy ===== *)
theory DiscoveryProps
  imports Discovery PartitionProps StructuredProps
begin

text \<open>
  What the node publishes agrees with what it can deliver: size labels, device names in the slice
  and in the CDI specs, and the way counts of structured mode.
\<close>

subsection \<open>Size labels\<close>

lemma smod_0_dvd: "(a :: int) smod b = 0 \<Longrightarrow> b dvd a"
  using mult_sdiv_smod_eq [of b a] by (metis add.right_neutral dvd_triv_left)

lemma dvd_wrap64: "(2 :: int) ^ 20 dvd wrap64 x \<longleftrightarrow> 2 ^ 20 dvd x"
proof -
  have "wrap64 x mod 2 ^ 20 = (wrap64 x mod 2 ^ 64) mod 2 ^ 20" by (simp add: mod_mod_cancel)
  also have "\<dots> = x mod 2 ^ 20" by (simp only: wrap64_mod) (simp add: mod_mod_cancel)
  finally show ?thesis by (simp add: dvd_eq_mod_eq_0)
qed

text \<open>A size whose tenfold is a multiple of a mebibyte, but which is not one itself.\<close>

lemma half_mib:
  assumes "(2 :: int) ^ 20 dvd 10 * b" "\<not> 2 ^ 20 dvd b"
  obtains n where "2 * b = (2 * n + 1) * 2 ^ 20" "b * 10 div 2 ^ 20 = 10 * n + 5"
proof -
  from assms(1) obtain t where t: "10 * b = 1048576 * t" by (auto elim: dvdE)
  then have t': "5 * b = 524288 * t" by simp
  define k where "k = 2 * b - 209715 * t"
  have k: "t = 5 * k" using t' by (simp add: k_def)
  with t' have b: "b = 524288 * k" by simp
  have "odd k" using assms(2) b by auto
  then obtain n where n: "k = 2 * n + 1" by (auto elim: oddE)
  show thesis
  proof (rule that [of n])
    show "2 * b = (2 * n + 1) * 2 ^ 20" using b n by simp
    have "b * 10 = (10 * n + 5) * 1048576" using b n by simp
    then show "b * 10 div 2 ^ 20 = 10 * n + 5" by simp
  qed
qed

lemmas size_units = gib_def mib_def kib_def

lemma half_label:
  assumes "0 < b" "b smod gib \<noteq> 0" "b smod mib \<noteq> 0" "mib \<le> b" "wrap64 (b * 10) smod mib = 0"
  obtains n where "formatCacheSize b = show_int n @ ''.5MiB''" "2 * b = (2 * n + 1) * mib"
proof -
  have mib: "mib = 2 ^ 20" by (simp add: size_units)
  have "(2 :: int) ^ 20 dvd wrap64 (b * 10)" using smod_0_dvd [OF assms(5)] by (simp add: mib)
  then have d: "(2 :: int) ^ 20 dvd 10 * b" by (simp only: dvd_wrap64 mult.commute)
  have "b mod 2 ^ 20 \<noteq> 0" using assms(1,3) by (simp add: mib smod_nonneg)
  then have "\<not> (2 :: int) ^ 20 dvd b" by (simp add: dvd_eq_mod_eq_0)
  from half_mib [OF d this] obtain n where n: "2 * b = (2 * n + 1) * 2 ^ 20" "b * 10 div 2 ^ 20 = 10 * n + 5" .
  have "formatCacheSize b = show_int ((10 * n + 5) div 10) @ ''.'' @ show_int ((10 * n + 5) mod 10) @ ''MiB''"
    using assms n(2) by (simp add: formatCacheSize_def Let_def mib del: div_mult_self1 mod_mult_self2)
  moreover have "(10 * n + 5) div 10 = n" "(10 * n + 5) mod 10 = 5" by presburger+
  ultimately have "formatCacheSize b = show_int n @ ''.5MiB''" by (simp add: show_evals)
  with n(1) that show thesis by (simp add: mib)
qed

text \<open>
  Size labels are exact: the label that a device shows for a size is a whole number of
  gibibytes, mebibytes, kibibytes or bytes, or a number of mebibytes and a half, that equals the
  size; rounding never occurs, also where the test for one decimal wraps around.
\<close>

theorem formatCacheSize_exact:
  assumes "0 < b" "in_int b"
  shows "\<exists>n. formatCacheSize b = show_int n @ ''GiB'' \<and> b = n * gib \<or>
    formatCacheSize b = show_int n @ ''MiB'' \<and> b = n * mib \<or>
    formatCacheSize b = show_int n @ ''.5MiB'' \<and> 2 * b = (2 * n + 1) * mib \<or>
    formatCacheSize b = show_int n @ ''KiB'' \<and> b = n * kib \<or>
    formatCacheSize b = show_int n @ ''B'' \<and> b = n"
proof -
  have whole: "b = (b sdiv u) * u" if "b smod u = 0" for u
    using sdiv_mult_smod_eq [of b u] that by simp
  consider (g) "b smod gib = 0"
    | (m) "b smod gib \<noteq> 0" "b smod mib = 0"
    | (t) "b smod gib \<noteq> 0" "b smod mib \<noteq> 0" "mib \<le> b" "wrap64 (b * 10) smod mib = 0"
    | (k) "b smod gib \<noteq> 0" "b smod mib \<noteq> 0" "\<not> (mib \<le> b \<and> wrap64 (b * 10) smod mib = 0)" "b smod kib = 0"
    | (b) "b smod gib \<noteq> 0" "b smod mib \<noteq> 0" "\<not> (mib \<le> b \<and> wrap64 (b * 10) smod mib = 0)" "b smod kib \<noteq> 0"
    by blast
  then show ?thesis
  proof cases
    case g
    with assms(1) whole [OF g] show ?thesis
      by (intro exI [of _ "b sdiv gib"] disjI1) (simp add: formatCacheSize_def)
  next
    case m
    then show ?thesis using assms(1) whole [OF m(2)]
      by (intro exI [of _ "b sdiv mib"] disjI2 disjI1 [of "_ = _ @ ''MiB'' \<and> _"]) (simp add: formatCacheSize_def)
  next
    case t
    with assms(1) obtain n where "formatCacheSize b = show_int n @ ''.5MiB''" "2 * b = (2 * n + 1) * mib"
      by (rule half_label)
    then show ?thesis by (intro exI [of _ n]) simp
  next
    case k
    have "formatCacheSize b = show_int (b sdiv kib) @ ''KiB''"
      using k assms(1) by (auto simp: formatCacheSize_def)
    with whole [OF k(4)] show ?thesis by (intro exI [of _ "b sdiv kib"]) simp
  next
    case b
    have "formatCacheSize b = show_int b @ ''B''"
      using b assms(1) by (auto simp: formatCacheSize_def)
    then show ?thesis by (intro exI [of _ b]) simp
  qed
qed

theorem formatCacheSize_exact_witness:
  "formatCacheSize 2621440 = ''2.5MiB'' \<and>
   (\<exists>n. ''2.5MiB'' = show_int n @ ''GiB'' \<and> 2621440 = n * gib \<or>
     ''2.5MiB'' = show_int n @ ''MiB'' \<and> 2621440 = n * mib \<or>
     ''2.5MiB'' = show_int n @ ''.5MiB'' \<and> 2 * 2621440 = (2 * n + 1) * mib \<or>
     ''2.5MiB'' = show_int n @ ''KiB'' \<and> 2621440 = n * kib \<or>
     ''2.5MiB'' = show_int n @ ''B'' \<and> 2621440 = n)"
proof -
  have l: "formatCacheSize 2621440 = ''2.5MiB''"
    by (simp add: formatCacheSize_def size_units smod_nonneg Let_def in_int_small show_evals)
  have "in_int 2621440" by (simp add: in_int_small)
  from formatCacheSize_exact [OF _ this] l show ?thesis by simp
qed

subsection \<open>Devices of basic mode\<close>

text \<open>The names of the devices of one partition.\<close>

definition partition_names :: "CachePartition \<Rightarrow> string list" where
  "partition_names p =
     [ID p] @ (if 0 < MBAThrottle p then [MBADeviceID p] else [])
            @ (if 0 < SMBAThrottle p then [SMBADeviceID p] else [])"

lemma names_of_devices:
  "map dev_name (buildDevices perCache) = concat (map partition_names (AllPartitions perCache))"
  "map CdiName (CdiDevices (node_spec hook perCache)) = concat (map partition_names (AllPartitions perCache))"
proof -
  have "map dev_name (partition_slice_devices p) = partition_names p" for p
    by (simp add: partition_slice_devices_def partition_names_def plain_device_def)
  then show "map dev_name (buildDevices perCache) = concat (map partition_names (AllPartitions perCache))"
    by (simp add: buildDevices_def map_concat comp_def)
  have "map CdiName (partition_devices hook p) = partition_names p" for p
    by (simp add: partition_devices_def partition_names_def)
  then have "map CdiName (concat (map (partition_devices hook) parts)) = concat (map partition_names parts)" for parts
    by (simp add: map_concat comp_def)
  then show "map CdiName (CdiDevices (node_spec hook perCache)) = concat (map partition_names (AllPartitions perCache))"
    by (induction perCache) (simp_all add: node_spec_def AllPartitions_def)
qed

lemma AllPartitions_throttled:
  "AllPartitions (ApplySMBA t' m' (ApplyMBA t m perCache)) =
     map (\<lambda>p. p\<lparr>MBAThrottle := t, PartMBAMode := m, SMBAThrottle := t', PartSMBAMode := m'\<rparr>) (AllPartitions perCache)"
  by (simp add: AllPartitions_def ApplyMBA_def ApplySMBA_def map_concat comp_def)

lemma distinct_concat_map:
  "distinct xs \<Longrightarrow> (\<And>x. x \<in> set xs \<Longrightarrow> distinct (f x)) \<Longrightarrow>
   (\<And>x y. x \<in> set xs \<Longrightarrow> y \<in> set xs \<Longrightarrow> x \<noteq> y \<Longrightarrow> set (f x) \<inter> set (f y) = {}) \<Longrightarrow> distinct (concat (map f xs))"
  by (induction xs) auto

lemma part_name_kind:
  "part_name ''cache'' c i \<noteq> part_name ''mba'' d j" "part_name ''cache'' c i \<noteq> part_name ''smba'' d j"
  "part_name ''mba'' c i \<noteq> part_name ''smba'' d j"
  by (simp_all add: part_name_def)

definition dk_names :: "bool \<Rightarrow> bool \<Rightarrow> int \<times> nat \<Rightarrow> string list" where
  "dk_names b b' dk = [part_name ''cache'' (fst dk) (int (snd dk))]
     @ (if b then [part_name ''mba'' (fst dk) (int (snd dk))] else [])
     @ (if b' then [part_name ''smba'' (fst dk) (int (snd dk))] else [])"

text \<open>
  C33: The published inventory and the CDI specs name the same devices, in the same order: every
  device that the scheduler can pick in basic mode, bandwidth devices included, has a CDI device
  under exactly its name, and no name occurs twice on the node.
\<close>

theorem published_devices_have_cdi_specs:
  assumes "PartitionCache info specs n z c = Inr perCache"
    and "well_sized specs" "valid_cache_ids (CacheIDs info)"
    and "final = ApplySMBA t' m' (ApplyMBA t m perCache)"
  shows "map dev_name (buildDevices final) = map CdiName (CdiDevices (node_spec hook final)) \<and>
    distinct (map dev_name (buildDevices final))"
proof -
  let ?dk = "List.product (CacheIDs info) [0..<length (layout specs)]"
  have one: "partition_names (make_partition info n z c d s (int k) w
        \<lparr>MBAThrottle := t, PartMBAMode := m, SMBAThrottle := t', PartSMBAMode := m'\<rparr>) =
      dk_names (0 < t) (0 < t') (d, k)" for d s k w
    by (cases "0 < t"; cases "0 < t'")
      (simp_all add: partition_names_def dk_names_def part_name_def MBADeviceID_def SMBADeviceID_def)
  have names: "map dev_name (buildDevices final) = concat (map (dk_names (0 < t) (0 < t')) ?dk)"
    unfolding names_of_devices assms(4) AllPartitions_throttled AllPartitions_eq [OF assms(1,2)]
    by (simp add: comp_def case_prod_unfold one)
  have "distinct (concat (map (dk_names (0 < t) (0 < t')) ?dk))"
  proof (rule distinct_concat_map)
    show "distinct ?dk" using assms(3) by (auto simp: valid_cache_ids_def intro: distinct_product)
    fix x
    show "distinct (dk_names (0 < t) (0 < t') x)" by (simp add: dk_names_def part_name_kind)
  next
    fix x y
    assume x: "x \<in> set ?dk" and y: "y \<in> set ?dk" and ne: "x \<noteq> y"
    have "0 \<le> fst x" "in_int (fst x)" "0 \<le> fst y" "in_int (fst y)" "in_int (int (snd x))" "in_int (int (snd y))"
      using x y assms(3) layout_index_in_int [OF assms(2)] by (auto simp: valid_cache_ids_def)
    from part_name_inj [OF this] ne
    have "part_name pre (fst x) (int (snd x)) \<noteq> part_name pre (fst y) (int (snd y))" for pre
      by (auto simp: prod_eq_iff)
    then show "set (dk_names (0 < t) (0 < t') x) \<inter> set (dk_names (0 < t) (0 < t') y) = {}"
      by (auto simp: dk_names_def part_name_kind part_name_kind [symmetric] split: if_splits)
  qed
  then show ?thesis by (simp add: names names_of_devices(2) names_of_devices(1) [symmetric])
qed

theorem published_devices_have_cdi_specs_witness:
  "\<exists>perCache. PartitionCache example_info example_specs None None None = Inr perCache \<and>
     distinct (map dev_name (buildDevices (ApplySMBA 0 [] (ApplyMBA 100 ''percent'' perCache))))"
proof -
  obtain perCache where p: "PartitionCache example_info example_specs None None None = Inr perCache"
    using example_accepted by blast
  from published_devices_have_cdi_specs [OF p example_well_sized example_cache_ids refl] p
  show ?thesis by blast
qed

subsection \<open>Devices of structured mode\<close>

lemma way_devices_in:
  "dev \<in> set (way_devices perCache) \<longleftrightarrow>
     (\<exists>parts \<in> set perCache. parts \<noteq> [] \<and> (\<exists>k. 1 \<le> k \<and> k \<le> TotalWays (hd parts) \<and> dev = way_device (hd parts) k))"
  by (induction perCache rule: way_devices.induct) auto

lemma build_counters_const:
  assumes "\<forall>parts \<in> set perCache. parts \<noteq> [] \<longrightarrow> TotalWays (hd parts) = tw"
  shows "build_counters perCache m key =
    (if \<exists>parts \<in> set perCache. parts \<noteq> [] \<and> counter_key (hd parts) = key then Some tw else m key)"
  using assms by (induction perCache m rule: build_counters.induct) auto

text \<open>The first partition of a domain is the model of its structured devices.\<close>

abbreviation head_of where
  "head_of info specs n z c d \<equiv> make_partition info n z c d (way_start specs 0) 0 (layout specs ! 0)"

lemma domain_heads:
  assumes "PartitionCache info specs n z c = Inr perCache" "well_sized specs" "layout specs \<noteq> []"
  shows "parts \<in> set perCache \<Longrightarrow> parts \<noteq> [] \<and> (\<exists>d \<in> set (CacheIDs info). hd parts = head_of info specs n z c d)"
    and "d \<in> set (CacheIDs info) \<Longrightarrow> \<exists>parts \<in> set perCache. hd parts = head_of info specs n z c d"
  using assms(3) unfolding PartitionCache_layout(1) [OF assms(1,2)] by (auto simp: hd_map hd_upt)

lemma head_device_name:
  assumes "valid_cache_ids (CacheIDs info)" "d \<in> set (CacheIDs info)" "1 \<le> k" "k \<le> NumWays info"
  shows "parseCacheWayDeviceName (dev_name (way_device (head_of info specs n z c d) k)) = Inr (d, k)"
proof -
  have "in_int k" using assms(3,4) NumWays_bounds [of info] by (intro in_int_small) auto
  moreover have "0 \<le> d" "in_int d" using assms(1,2) by (auto simp: valid_cache_ids_def)
  moreover have "CacheID (head_of info specs n z c d) = d" by simp
  ultimately show ?thesis by (simp only: way_device_def slice_device.select_convs device_name_parse)
qed

lemma empty_domain_allocates:
  assumes "tws = (\<lambda>i. if i \<in> ids then Some (NumWays info) else None)" "d \<in> ids" "1 \<le> k" "k \<le> NumWays info"
  shows "is_ok (fst (WayAllocate d k (NewWayAllocator tws)))"
proof -
  have "way_inv (NewWayAllocator tws)"
    using NumWays_bounds [of info] by (intro way_inv_new) (auto simp: assms(1) split: if_splits)
  moreover have "totalWays (NewWayAllocator tws) d = Some (NumWays info)"
    using assms(2) by (simp add: NewWayAllocator_def assms(1))
  ultimately show ?thesis
    using assms(3,4) WayAllocate_ok_iff [of "NewWayAllocator tws" d k] by (auto intro!: exI [of _ "0 :: int"])
qed

lemma domain_counter:
  assumes "PartitionCache info specs n z c = Inr perCache" "well_sized specs" "layout specs \<noteq> []"
    and "d \<in> set (CacheIDs info)"
  shows "build_counters perCache Map.empty (''cache'' @ show_int d) = Some (NumWays info)"
proof -
  note heads = domain_heads [OF assms(1-3)]
  have tot: "\<forall>parts \<in> set perCache. parts \<noteq> [] \<longrightarrow> TotalWays (hd parts) = NumWays info"
    using heads(1) by fastforce
  obtain parts where p: "parts \<in> set perCache" "hd parts = head_of info specs n z c d" using heads(2) [OF assms(4)] by blast
  then have "\<exists>parts \<in> set perCache. parts \<noteq> [] \<and> counter_key (hd parts) = ''cache'' @ show_int d"
    using heads(1) by (intro bexI [of _ parts]) (simp_all add: counter_key_def)
  then show ?thesis unfolding build_counters_const [OF tot] by (rule if_P)
qed

text \<open>
  C34: In structured mode every published device is deliverable: its name parses to one of the
  node's cache domains and a way count between one and the number of ways, it consumes that count
  from the domain's counter, which holds all ways of the domain, and an empty domain satisfies
  the claim; and every domain publishes a device for every such way count.
\<close>

theorem structured_devices_deliverable:
  assumes "PartitionCache info specs n z c = Inr perCache"
    and "well_sized specs" "valid_cache_ids (CacheIDs info)" "layout specs \<noteq> []"
    and "buildStructuredDevices perCache = (devices, [(''way-pool'', counters)])"
    and "tws = (\<lambda>i. if i \<in> set (CacheIDs info) then Some (NumWays info) else None)"
  shows "(\<forall>dev \<in> set devices. \<exists>d k. parseCacheWayDeviceName (dev_name dev) = Inr (d, k) \<and>
      dev_consumes dev = [(''way-pool'', [''cache'' @ show_int d \<mapsto> k])] \<and>
      counters (''cache'' @ show_int d) = Some (NumWays info) \<and>
      is_ok (fst (WayAllocate d k (NewWayAllocator tws)))) \<and>
    (\<forall>d \<in> set (CacheIDs info). \<forall>k \<in> {1..NumWays info}.
      \<exists>dev \<in> set devices. parseCacheWayDeviceName (dev_name dev) = Inr (d, k))"
proof -
  note heads = domain_heads [OF assms(1,2,4)]
  let ?mk = "head_of info specs n z c"
  have dev: "devices = way_devices perCache" "counters = build_counters perCache Map.empty"
    using assms(5) by (auto simp: buildStructuredDevices_def split: if_splits)
  have mk: "TotalWays (?mk d) = NumWays info" for d by simp
  note facts = head_device_name [OF assms(3)] domain_counter [OF assms(1,2,4), folded dev(2)]
    empty_domain_allocates [OF assms(6)]
  have "\<exists>d k. parseCacheWayDeviceName (dev_name dv) = Inr (d, k) \<and>
      dev_consumes dv = [(''way-pool'', [''cache'' @ show_int d \<mapsto> k])] \<and>
      counters (''cache'' @ show_int d) = Some (NumWays info) \<and>
      is_ok (fst (WayAllocate d k (NewWayAllocator tws)))"
    if dv: "dv \<in> set devices" for dv
  proof -
    obtain d k where d: "d \<in> set (CacheIDs info)" "1 \<le> k" "k \<le> NumWays info" "dv = way_device (?mk d) k"
      using dv heads(1) mk unfolding dev(1) way_devices_in by metis
    moreover have "dev_consumes dv = [(''way-pool'', [''cache'' @ show_int d \<mapsto> k])]"
      by (simp add: d(4) way_device_def counter_key_def)
    ultimately show ?thesis using facts by blast
  qed
  moreover have "\<exists>dv \<in> set devices. parseCacheWayDeviceName (dev_name dv) = Inr (d, k)"
    if d: "d \<in> set (CacheIDs info)" "1 \<le> k" "k \<le> NumWays info" for d k
  proof -
    obtain parts where "parts \<in> set perCache" "hd parts = ?mk d" using heads(2) [OF d(1)] by blast
    then have "way_device (?mk d) k \<in> set devices"
      using heads(1) d mk unfolding dev(1) way_devices_in by metis
    then show ?thesis using facts(1) [OF d] by blast
  qed
  ultimately show ?thesis by simp
qed

theorem structured_devices_deliverable_witness:
  "\<exists>perCache. PartitionCache example_info example_specs None None None = Inr perCache \<and>
     (\<exists>dev \<in> set (fst (buildStructuredDevices perCache)). parseCacheWayDeviceName (dev_name dev) = Inr (1, 20))"
proof -
  obtain perCache where p: "PartitionCache example_info example_specs None None None = Inr perCache"
    "length perCache = 2"
    using example_accepted by blast
  have b: "buildStructuredDevices perCache =
      (way_devices perCache, [(''way-pool'', build_counters perCache Map.empty)])"
    using p(2) by (auto simp: buildStructuredDevices_def)
  have l: "layout example_specs \<noteq> []" by (simp add: example_specs_def layout_def)
  note d = structured_devices_deliverable [OF p(1) example_well_sized example_cache_ids l b refl]
  have "1 \<in> set (CacheIDs example_info)" by (simp add: example_info_def)
  with d have "\<exists>dev \<in> set (way_devices perCache). parseCacheWayDeviceName (dev_name dev) = Inr (1, 20)"
    by simp
  with p b show ?thesis by auto
qed

end
