(* ===== verification/HealthProps.thy ===== *)
theory HealthProps
  imports ConcurrentProps LifecycleProps
begin

text \<open>
  What the liveness endpoint requires and what the driver in structured mode does: the files that the
  threads of the driver write, read off the log of their calls.
\<close>

definition spec_name :: string where
  "spec_name = cdiVendor @ ''-'' @ cdiClass @ ''.json''"

lemma checked_spec_last: "last_elem (checked_spec h) = spec_name"
proof -
  have "last_elem spec_name = spec_name"
    by (rule last_elem_plain) (simp add: spec_name_def cdiVendor_def cdiClass_def)
  then show ?thesis
    using last_elem_slash [of "cdiSpecDir h" spec_name] by (simp add: checked_spec_def spec_name_def)
qed

subsection \<open>Files with other names\<close>

text \<open>The calls from one log to a longer one write no file of that name.\<close>

definition other_files :: "os_call list \<Rightarrow> os_call list \<Rightarrow> bool" where
  "other_files l l' \<longleftrightarrow> (\<exists>new. l' = l @ new \<and> spec_name \<notin> last_elem ` set (written new))"

lemma other_filesI: "spec_name \<notin> last_elem ` set (written new) \<Longrightarrow> other_files l (l @ new)"
  by (auto simp: other_files_def)

lemma other_files_refl [simp]: "other_files l l"
  using other_filesI [of "[]" l] by simp

lemma other_files_trans: "other_files l l' \<Longrightarrow> other_files l' l'' \<Longrightarrow> other_files l l''"
  by (auto simp: other_files_def image_Un)

lemma other_files_snoc:
  "other_files l (l @ [MkdirAll p])" "other_files l (l @ [Remove p])"
  "last_elem p \<noteq> spec_name \<Longrightarrow> other_files l (l @ [WriteFile p d])"
  by (rule other_filesI; simp)+

lemma group_file_names:
  "last_elem (path_join [a, ''schemata'']) \<noteq> spec_name" "last_elem (path_join [a, ''tasks'']) \<noteq> spec_name"
proof -
  have "plain_name (last_elem ''schemata'')" "plain_name (last_elem ''tasks'')" by (simp_all add: plain_name_def)
  from this [THEN path_join_last, of "[a]"]
  show "last_elem (path_join [a, ''schemata'']) \<noteq> spec_name" "last_elem (path_join [a, ''tasks'']) \<noteq> spec_name"
    by (simp_all add: spec_name_def cdiVendor_def cdiClass_def)
qed

text \<open>The name of a claim's spec file, even if the UID has a slash in it.\<close>

lemma claim_file_name:
  assumes "length short = 8"
  shows "last_elem (path_join [dir, cdiVendor @ ''-claim-'' @ short @ ''.json'']) \<noteq> spec_name"
proof (cases "CHR ''/'' \<in> set short")
  case False
  let ?n = "cdiVendor @ ''-claim-'' @ short @ ''.json''"
  have "CHR ''/'' \<notin> set ?n" using False by (simp add: cdiVendor_def)
  then have "last_elem ?n = ?n" "plain_name ?n" by (simp_all add: plain_name_def cdiVendor_def)
  then show ?thesis
    using path_join_last [of ?n "[dir]"] by (simp add: spec_name_def cdiVendor_def cdiClass_def)
next
  case True
  then obtain a b where s: "short = a @ CHR ''/'' # b" "CHR ''/'' \<notin> set b" by (meson split_list_last)
  let ?n = "cdiVendor @ ''-claim-'' @ short @ ''.json''"
  have "last_elem ?n = last_elem (b @ ''.json'')"
    using last_elem_slash [of "cdiVendor @ ''-claim-'' @ a" "b @ ''.json''"] s(1) by simp
  with s(2) have n: "last_elem ?n = b @ ''.json''" by simp
  then have "plain_name (last_elem ?n)" using s(2) by (cases b) (auto simp: plain_name_def)
  then have "last_elem (path_join [dir, ?n]) = b @ ''.json''"
    using path_join_last [of ?n "[dir]"] n by simp
  moreover have "length (b @ ''.json'') \<noteq> length spec_name"
    using assms s(1) by (simp add: spec_name_def cdiVendor_def cdiClass_def)
  ultimately show ?thesis by metis
qed

subsection \<open>The calls of a thread\<close>

abbreviation log_of :: "'w recorded \<Rightarrow> os_call list" where "log_of \<equiv> snd"

lemma CreateGroup_other: "other_files (log_of w) (log_of (snd (CreateGroup (logged os) root g s w)))"
proof (cases w)
  case (Pair v l)
  have "other_files l (l @ [MkdirAll p, WriteFile (path_join [q, ''schemata'']) d])"
    "other_files l (l @ [MkdirAll p, WriteFile (path_join [q, ''schemata'']) d, Remove r])" for p q d r
    using group_file_names(1) [of q] by (intro other_filesI; simp)+
  then show ?thesis
    by (auto simp: Pair CreateGroup_def Let_def other_files_snoc split: prod.splits option.splits)
qed

lemma DeleteGroup_other: "other_files (log_of w) (log_of (snd (DeleteGroup (logged os) root g w)))"
proof (cases w)
  case (Pair v l)
  have "other_files l (l @ [WriteFile (path_join [q, ''tasks'']) d, Remove r])" for q d r
    using group_file_names(2) [of q] by (intro other_filesI) simp
  then show ?thesis
    by (auto simp: Pair DeleteGroup_def Let_def other_files_snoc split: prod.splits option.splits sum.splits)
qed

lemma writeClaimCDISpec_other:
  "other_files (log_of w) (log_of (snd (writeClaimCDISpec (logged os) dir hook uid g c n m w)))"
proof (cases w)
  case (Pair v l)
  have "other_files l (l @ [MkdirAll p, WriteFile (path_join [dir, cdiVendor @ ''-claim-'' @ take 8 uid @ ''.json'']) d])"
    if "8 \<le> length uid" for p d
    using claim_file_name [of "take 8 uid" dir] that by (intro other_filesI) simp
  then show ?thesis
    by (auto simp: Pair writeClaimCDISpec_def uid8_def Let_def other_files_snoc split: prod.splits option.splits if_splits)
qed

lemma removeClaimCDISpec_other: "other_files (log_of w) (log_of (removeClaimCDISpec (logged os) p w))"
  by (cases w) (simp add: removeClaimCDISpec_def other_files_snoc)

lemma thread_step_other:
  assumes "thread_step (logged os) kube root th w d = Some (th', w', d')"
  shows "other_files (log_of w) (log_of w')"
proof (cases "th_pc th")
  case (MakeGroup j)
  with assms CreateGroup_other [of w os root "job_group j"] show ?thesis
    by (auto simp: thread_step_def group_step_def split: prod.splits option.splits) (metis snd_conv)+
next
  case (MakeSpec j)
  with assms writeClaimCDISpec_other [of w os "cdiDir d" "hookBinPath d" "kc_uid (job_claim j)"] show ?thesis
    by (auto simp: thread_step_def spec_step_def split: prod.splits option.splits sum.splits) (metis snd_conv)+
next
  case (UndoGroup j e)
  with assms DeleteGroup_other [of w os root "job_group j"] show ?thesis by (auto simp: thread_step_def)
next
  case (DropGroup a)
  with assms DeleteGroup_other [of w os root "saGroup a"] show ?thesis
    by (auto simp: thread_step_def drop_step_def split: prod.splits)
next
  case (DropSpec a)
  with assms removeClaimCDISpec_other [of w os "saSpecPath a"] show ?thesis by (auto simp: thread_step_def)
qed (use assms in \<open>auto simp: thread_step_def fetch_step_def loop_step_def record_step_def undo_step_def take_step_def
      split: list.splits sum.splits option.splits prod.splits if_splits\<close>)

subsection \<open>The life of a driver\<close>

text \<open>As \<open>sys_reach\<close>, while the environment leaves the log of the driver alone.\<close>

inductive driver_life :: "'w os \<Rightarrow> 'w recorded kube \<Rightarrow> string \<Rightarrow> 'w recorded system \<Rightarrow> 'w recorded system \<Rightarrow> bool"
  for os kube root s0 where
  start: "driver_life os kube root s0 s0"
| step: "driver_life os kube root s0 s \<Longrightarrow> sys_step (logged os) kube root s s' \<Longrightarrow> driver_life os kube root s0 s'"
| arrive: "driver_life os kube root s0 s \<Longrightarrow>
    driver_life os kube root s0 (s\<lparr>sys_threads := sys_threads s @ [request calls]\<rparr>)"
| environment: "driver_life os kube root s0 s \<Longrightarrow>
    driver_life os kube root s0 (s\<lparr>sys_world := (w, log_of (sys_world s))\<rparr>)"

lemma driver_life_other:
  assumes "driver_life os kube root s0 s"
  shows "other_files (log_of (sys_world s0)) (log_of (sys_world s))"
  using assms
proof (induction rule: driver_life.induct)
  case (step s s')
  from step.hyps(2) obtain i th w d where t:
    "thread_step (logged os) kube root (sys_threads s ! i) (sys_world s) (sys_driver s) = Some (th, w, d)"
    "s' = s\<lparr>sys_world := w, sys_driver := d, sys_threads := (sys_threads s)[i := th]\<rparr>"
    by (rule sys_stepE)
  show ?case using other_files_trans [OF step.IH thread_step_other [OF t(1)]] by (simp add: t(2))
qed simp_all

lemma start_structured_logged:
  assumes "start_driver (logged os) (unlogged kube) root node hook cdi info perCache (w, []) = Some (Started d, (w1, l1))"
    and "PartitionableDevices (drvCaps d)"
  shows "l1 = []"
proof -
  obtain caps w' where probe: "ProbeFeatureGates (unlogged kube) mainDriverName node (w, []) = (caps, (w', []))"
    using probe_unlogged [of kube mainDriverName node w "[]"] by blast
  have "PartitionableDevices caps"
    using assms probe
    by (auto simp: start_driver_def Let_def NewDriver_def split: prod.splits option.splits if_splits)
  with assms(1) probe have
    "PublishSlices (unlogged kube) (NewSlicePublisher mainDriverName node caps) perCache (w', []) = (None, (w1, l1))"
    by (auto simp: start_driver_def Let_def split: prod.splits option.splits)
  then show ?thesis
    using publish_unlogged [of kube "NewSlicePublisher mainDriverName node caps" perCache w' "[]"] by (metis Pair_inject)
qed

text \<open>
  C40: In structured mode the liveness probe waits for a file that the driver never writes. From the start of
  the driver on, whatever requests arrive, however their threads interleave and whatever the
  operating system and the API server do, no call of the driver writes the CDI spec file that
  \<open>/healthz\<close> looks at; and as long as nobody else makes it, \<open>/healthz\<close> answers 503.
\<close>

theorem structured_mode_never_healthy:
  assumes "start_driver (logged os) (unlogged kube) root node hook cdi info perCache (w, []) = Some (Started d0, w0)"
    and "PartitionableDevices (drvCaps d0)"
    and "driver_life os (unlogged kube) root \<lparr>sys_world = w0, sys_driver = d0, sys_threads = []\<rparr> s"
  shows "checked_spec (NewHealthServer port) \<notin> set (written (log_of (sys_world s))) \<and>
    (\<forall>e w'. os_stat os w' (checked_spec (NewHealthServer port)) = Inl e \<longrightarrow>
       resp_code (healthz os (NewHealthServer port) w') = 503)"
proof -
  obtain w1 l1 where w0: "w0 = (w1, l1)" by fastforce
  have "l1 = []" using start_structured_logged [OF assms(1) [unfolded w0] assms(2)] .
  with driver_life_other [OF assms(3)] have "spec_name \<notin> last_elem ` set (written (log_of (sys_world s)))"
    by (auto simp: w0 other_files_def)
  then have "checked_spec (NewHealthServer port) \<notin> set (written (log_of (sys_world s)))"
    using checked_spec_last [of "NewHealthServer port"] by (metis image_eqI)
  then show ?thesis
    by (simp add: healthz_def health_result_def cdi_check_def case_prod_unfold Let_def)
qed

subsection \<open>A claim that is prepared\<close>

definition ex_live_kube :: "unit kube" where
  "ex_live_kube = (list_kube [\<lparr>claim_uid = ''uid-0001'', claim_namespace = ''default'', claim_name = ''claim-uid-0001'',
       claim_allocation = Some [\<lparr>res_request = ''cache'', res_driver = mainDriverName, res_pool = ''node1'',
         res_device = ''cache0-5way''\<rparr>]\<rparr>])
     \<lparr>kube_create_slice := (\<lambda>w dry s. (Inr s, w))\<rparr>"

lemma ex_live_start:
  obtains d0 where
    "start_driver (logged ok_os) (unlogged ex_live_kube) ''/r'' ''node1'' ''/hook'' ''/cdi'' example_info [] ((), []) =
       Some (Started d0, ((), []))"
    "PartitionableDevices (drvCaps d0)" "driverName d0 = mainDriverName" "nodeName d0 = ''node1''"
    "wayAlloc d0 = NewWayAllocator (ways_per_domain example_info)"
proof -
  have probe: "ProbeFeatureGates (unlogged ex_live_kube) mainDriverName ''node1'' ((), []) =
      (\<lparr>PartitionableDevices = True, ConsumableCapacity = True\<rparr>, ((), []))"
    by (simp add: ProbeFeatureGates_def probePartitionableDevices_def probeConsumableCapacity_def Let_def)
      (simp add: ex_live_kube_def probe_slice_def)
  have pub: "PublishSlices (unlogged ex_live_kube) sp [] ((), []) = (None, ((), []))" for sp
    by (simp add: PublishSlices_def Let_def) (simp add: ex_live_kube_def)
  let ?d = "NewDriver mainDriverName ''node1'' (NewAllocationState [])
    \<lparr>PartitionableDevices = True, ConsumableCapacity = True\<rparr>
    (NewWayAllocator (ways_per_domain example_info)) (Some example_info) ''/hook'' ''/cdi''"
  have rec: "RecoverStructuredAllocs (logged ok_os) ''/r'' ((), []) ?d = ?d"
    by (simp add: RecoverStructuredAllocs_def RebuildFromResctrl_def NewDriver_def) (simp add: ok_os_def)
  show thesis
  proof (rule that [of ?d])
    show "start_driver (logged ok_os) (unlogged ex_live_kube) ''/r'' ''node1'' ''/hook'' ''/cdi'' example_info [] ((), []) =
       Some (Started ?d, ((), []))"
      by (simp add: start_driver_def probe pub rec Let_def)
  qed (simp_all add: NewDriver_def)
qed

lemma driver_life_run:
  assumes "driver_life os kube root s0 s" "i < length (sys_threads s)"
    and "thread_step (logged os) kube root (sys_threads s ! i) (sys_world s) (sys_driver s) = Some (th, w, d)"
  shows "driver_life os kube root s0 \<lparr>sys_world = w, sys_driver = d, sys_threads = (sys_threads s)[i := th]\<rparr>"
  using driver_life.step [OF assms(1) sys_step.run [OF assms(2,3)]] by (cases s) simp

theorem structured_mode_never_healthy_witness:
  "\<exists>d0 s. start_driver (logged ok_os) (unlogged ex_live_kube) ''/r'' ''node1'' ''/hook'' ''/cdi'' example_info [] ((), []) =
       Some (Started d0, ((), [])) \<and>
     driver_life ok_os (unlogged ex_live_kube) ''/r'' \<lparr>sys_world = ((), []), sys_driver = d0, sys_threads = []\<rparr> s \<and>
     written (log_of (sys_world s)) = [path_join [path_join [''/r'', claim_group 0 ''uid-0001''], ''schemata'']] \<and>
     checked_spec (NewHealthServer 8081) \<notin> set (written (log_of (sys_world s))) \<and>
     resp_code (healthz ok_os (NewHealthServer 8081) ()) = 503"
proof -
  obtain d0 where st: "start_driver (logged ok_os) (unlogged ex_live_kube) ''/r'' ''node1'' ''/hook'' ''/cdi'' example_info [] ((), []) =
      Some (Started d0, ((), []))" "PartitionableDevices (drvCaps d0)"
    and d0: "driverName d0 = mainDriverName" "nodeName d0 = ''node1''"
      "wayAlloc d0 = NewWayAllocator (ways_per_domain example_info)"
    by (rule ex_live_start)
  have tw: "ways_per_domain example_info 0 = Some 20"
    by (simp add: ways_per_domain_def) (simp add: example_info_def)
  obtain a1 where al: "WayAllocate 0 5 (wayAlloc d0) = (Inr 0x1f, a1)"
    using tw by (simp add: d0(3) way_evals)
  let ?c = "ex_kclaim ''uid-0001''"
  let ?r = "\<lparr>res_request = ''cache'', res_driver = mainDriverName, res_pool = ''node1'', res_device = ''cache0-5way''\<rparr>"
  let ?j = "\<lparr>job_claim = ?c, job_result = ?r, job_cache = 0, job_ways = 5, job_cbm = 0x1f, job_rest = [], job_devices = []\<rparr>"
  let ?th = "\<lambda>p. \<lparr>th_pc = p, th_calls = [], th_resp = Map.empty\<rparr>"
  let ?step = "thread_step (logged ok_os) (unlogged ex_live_kube) ''/r''"
  let ?d1 = "d0\<lparr>wayAlloc := a1\<rparr>"
  let ?s0 = "\<lparr>sys_world = ((), []), sys_driver = d0, sys_threads = []\<rparr>"
  let ?life = "driver_life ok_os (unlogged ex_live_kube) ''/r'' ?s0"
  have s1: "?step (request [PrepareCall ?c]) ((), []) d0 = Some (?th (Fetch ?c), ((), []), d0)"
    by (simp add: thread_step_def request_def)
  have s2: "?step (?th (Fetch ?c)) ((), []) d0 = Some (?th (Loop ?c [?r] []), ((), []), d0)"
    by (simp add: thread_step_def fetch_step_def unlogged_def ex_live_kube_def list_kube_def ex_kclaim_def)
  have s3: "?step (?th (Loop ?c [?r] [])) ((), []) d0 = Some (?th (MakeGroup ?j), ((), []), ?d1)"
    by (simp add: thread_step_def loop_step_def d0 ex_names al [unfolded d0(3)])
  obtain th w d2 where s4: "?step (?th (MakeGroup ?j)) ((), []) ?d1 = Some (th, w, d2)"
    "written (log_of w) = [path_join [path_join [''/r'', claim_group 0 ''uid-0001''], ''schemata'']]"
    by (simp add: thread_step_def group_step_def CreateGroup_def buildStructuredSchemata_def job_group_def ex_kclaim_def Let_def)
      (simp add: ok_os_def)
  have "?life \<lparr>sys_world = ((), []), sys_driver = d0, sys_threads = [request [PrepareCall ?c]]\<rparr>"
    using driver_life.arrive [OF driver_life.start, of ok_os "unlogged ex_live_kube" "''/r''" ?s0 "[PrepareCall ?c]"] by simp
  from driver_life_run [OF this, of 0] s1
  have "?life \<lparr>sys_world = ((), []), sys_driver = d0, sys_threads = [?th (Fetch ?c)]\<rparr>" by simp
  from driver_life_run [OF this, of 0] s2
  have "?life \<lparr>sys_world = ((), []), sys_driver = d0, sys_threads = [?th (Loop ?c [?r] [])]\<rparr>" by simp
  from driver_life_run [OF this, of 0] s3
  have "?life \<lparr>sys_world = ((), []), sys_driver = ?d1, sys_threads = [?th (MakeGroup ?j)]\<rparr>" by simp
  from driver_life_run [OF this, of 0] s4(1)
  have life: "?life \<lparr>sys_world = w, sys_driver = d2, sys_threads = [th]\<rparr>" by simp
  have none: "os_stat ok_os () p = Inl ''none''" for p by (simp add: ok_os_def)
  from structured_mode_never_healthy [OF st life, of 8081] none st(1) life s4(2) show ?thesis
    by (intro exI [of _ d0] exI [of _ "\<lparr>sys_world = w, sys_driver = d2, sys_threads = [th]\<rparr>"]) simp
qed

end
