(* ===== verification/ResctrlProps.thy ===== *)
theory ResctrlProps
  imports Resctrl Monitor
begin

text \<open>
  The readers of the resctrl file system on files as the kernel prints them, and the guards of the
  monitoring scrape.
\<close>

subsection \<open>Capabilities\<close>

text \<open>
  The root schemata: one line per resource, padded by blanks as the kernel aligns them, none of the
  lines before the \<open>prefix\<close> line starting with that prefix.
\<close>

definition schemata_has ::
  "'w os \<Rightarrow> string \<Rightarrow> 'w \<Rightarrow> string \<Rightarrow> (int \<times> string) list \<Rightarrow> bool" where
  "schemata_has os root w prefix kvs \<longleftrightarrow>
     (\<exists>data pre l post. os_read_file os w (path_join [root, ''schemata'']) = Inr data \<and>
        str_split newline (trim_space data) = pre @ l # post \<and>
        (\<forall>x \<in> set pre. \<not> has_prefix (prefix @ '':'') (trim_space x)) \<and>
        trim_space l = domain_line prefix kvs)"

lemma discoverDomainIDs_line:
  assumes "schemata_has os root w prefix kvs" "line_values kvs"
  shows "discoverDomainIDs os root w prefix = Inr (map fst kvs)"
proof -
  obtain data pre l post where *: "os_read_file os w (path_join [root, ''schemata'']) = Inr data"
    "str_split newline (trim_space data) = pre @ l # post"
    "\<forall>x \<in> set pre. \<not> has_prefix (prefix @ '':'') (trim_space x)" "trim_space l = domain_line prefix kvs"
    using assms(1) unfolding schemata_has_def by blast
  have "scan_domain_lines (prefix @ '':'') (pre @ l # post) = map fst kvs"
    by (rule scan_domain_lines_found [OF *(3,4) assms(2)])
  then show ?thesis by (simp add: discoverDomainIDs_def readTrimmedFile_def *(1,2))
qed

definition int_file :: "'w os \<Rightarrow> 'w \<Rightarrow> string \<Rightarrow> int \<Rightarrow> bool" where
  "int_file os w path i \<longleftrightarrow> in_int i \<and> os_read_file os w path = Inr (show_int i @ [newline])"

lemma hex_line_trim: "trim_space (show_hex m @ [newline]) = show_hex m"
proof (rule trim_space_newline)
  have "graphic c" if "c \<in> set (show_hex m)" for c
    using show_hex_chars [OF that] by (rule is_hex_graphic)
  then show "show_hex m = [] \<or> graphic (hd (show_hex m)) \<and> graphic (last (show_hex m))"
    by (cases "show_hex m = []") simp_all
qed

lemma readIntFile_int_file: "int_file os w path i \<Longrightarrow> readIntFile os w path = Inr i"
  by (simp add: int_file_def readIntFile_line)

lemma Info_reads:
  assumes "\<exists>fi. os_stat os w (path_join [root, ''info'', ''L3'']) = Inr fi"
    and "int_file os w (path_join [path_join [root, ''info'', ''L3''], ''num_closids'']) closids"
    and "os_read_file os w (path_join [path_join [root, ''info'', ''L3''], ''cbm_mask'']) = Inr (show_hex m @ [newline])"
    and "int_file os w (path_join [path_join [root, ''info'', ''L3''], ''min_cbm_bits'']) bits"
    and "schemata_has os root w ''L3'' kvs" "line_values kvs"
  shows "Info os root w =
    Inr \<lparr>NumCLOSIDs = closids, CBMMask = m, MinCBMBits = bits, CacheIDs = map fst kvs\<rparr>"
proof -
  obtain fi where fi: "os_stat os w (path_join [root, ''info'', ''L3'']) = Inr fi"
    using assms(1) by blast
  have "readTrimmedFile os w (path_join [path_join [root, ''info'', ''L3''], ''cbm_mask'']) = Inr (show_hex m)"
    by (simp add: readTrimmedFile_def assms(3) hex_line_trim)
  then show ?thesis
    by (simp add: Info_def Let_def fi readIntFile_int_file [OF assms(2)] readIntFile_int_file [OF assms(4)]
        parse_show_hex discoverCacheIDs_def discoverDomainIDs_line [OF assms(5,6)])
qed

text \<open>
  The capabilities of the hardware are read back as the kernel prints them: from the three
  files below \<open>info/L3\<close> and the \<open>L3\<close> line of the root schemata, \<open>Info\<close> returns the number of
  classes of service, the full mask, the minimum mask length and the cache domains in the order
  of the line.
\<close>

theorem Info_reads_capabilities:
  assumes "\<exists>fi. os_stat os w (path_join [root, ''info'', ''L3'']) = Inr fi"
    and "int_file os w (path_join [path_join [root, ''info'', ''L3''], ''num_closids'']) closids"
    and "os_read_file os w (path_join [path_join [root, ''info'', ''L3''], ''cbm_mask'']) = Inr (show_hex m @ [newline])"
    and "int_file os w (path_join [path_join [root, ''info'', ''L3''], ''min_cbm_bits'']) bits"
    and "schemata_has os root w ''L3'' kvs" "line_values kvs"
  shows "Info os root w =
    Inr \<lparr>NumCLOSIDs = closids, CBMMask = m, MinCBMBits = bits, CacheIDs = map fst kvs\<rparr>"
  by (rule Info_reads [OF assms])

definition cap_fs :: memfs where
  "cap_fs =
     \<lparr>mem_dirs = [''/r/info/L3'', ''/r/info/L2''],
      mem_files =
       [(''/r/info/L3/num_closids'', show_int 16 @ [newline]), (''/r/info/L3/cbm_mask'', show_hex 0xfffff @ [newline]),
        (''/r/info/L3/min_cbm_bits'', show_int 1 @ [newline]), (''/r/info/L2/num_closids'', show_int 8 @ [newline]),
        (''/r/info/L2/cbm_mask'', show_hex 0xff @ [newline]), (''/r/info/L2/min_cbm_bits'', show_int 1 @ [newline]),
        (''/r/schemata'', ''L3:0=fffff;1=fffff'' @ [newline])]\<rparr>"

lemma cap_paths:
  "path_join [''/r'', ''info'', ''L3''] = ''/r/info/L3''" "path_join [''/r'', ''info'', ''L2''] = ''/r/info/L2''"
  "path_join [''/r'', ''schemata''] = ''/r/schemata''"
  "path_join [''/r/info/L3'', ''num_closids''] = ''/r/info/L3/num_closids''"
  "path_join [''/r/info/L3'', ''cbm_mask''] = ''/r/info/L3/cbm_mask''"
  "path_join [''/r/info/L3'', ''min_cbm_bits''] = ''/r/info/L3/min_cbm_bits''"
  "path_join [''/r/info/L2'', ''num_closids''] = ''/r/info/L2/num_closids''"
  "path_join [''/r/info/L2'', ''cbm_mask''] = ''/r/info/L2/cbm_mask''"
  "path_join [''/r/info/L2'', ''min_cbm_bits''] = ''/r/info/L2/min_cbm_bits''"
  by (simp_all add: path_join_def path_clean_def render_path_def)

lemma cap_files:
  "os_read_file mem_os cap_fs ''/r/info/L3/num_closids'' = Inr (show_int 16 @ [newline])"
  "os_read_file mem_os cap_fs ''/r/info/L3/cbm_mask'' = Inr (show_hex 0xfffff @ [newline])"
  "os_read_file mem_os cap_fs ''/r/info/L3/min_cbm_bits'' = Inr (show_int 1 @ [newline])"
  "os_read_file mem_os cap_fs ''/r/info/L2/num_closids'' = Inr (show_int 8 @ [newline])"
  "os_read_file mem_os cap_fs ''/r/info/L2/cbm_mask'' = Inr (show_hex 0xff @ [newline])"
  "os_read_file mem_os cap_fs ''/r/info/L2/min_cbm_bits'' = Inr (show_int 1 @ [newline])"
  "os_read_file mem_os cap_fs ''/r/schemata'' = Inr (''L3:0=fffff;1=fffff'' @ [newline])"
  by (simp_all add: mem_os_def mem_read_file_def cap_fs_def)

lemma cap_dirs: "os_stat mem_os cap_fs ''/r/info/L3'' = Inr \<lparr>fi_dir = True, fi_size = 0\<rparr>"
  "os_stat mem_os cap_fs ''/r/info/L2'' = Inr \<lparr>fi_dir = True, fi_size = 0\<rparr>"
  by (simp_all add: mem_os_def mem_stat_def cap_fs_def)

lemma cap_trim:
  "trim_space (''L3:0=fffff;1=fffff'' @ [newline]) = ''L3:0=fffff;1=fffff''"
  "trim_space ''L3:0=fffff;1=fffff'' = ''L3:0=fffff;1=fffff''"
  by (rule trim_space_newline, simp add: graphic_def) (rule trim_space_id, simp add: graphic_def)

lemma cap_int_files:
  "int_file mem_os cap_fs ''/r/info/L3/num_closids'' 16" "int_file mem_os cap_fs ''/r/info/L3/min_cbm_bits'' 1"
  "int_file mem_os cap_fs ''/r/info/L2/num_closids'' 8" "int_file mem_os cap_fs ''/r/info/L2/min_cbm_bits'' 1"
  by (simp_all add: int_file_def cap_files in_int_small)

lemma cap_schemata: "schemata_has mem_os ''/r'' cap_fs ''L3'' [(0, ''fffff''), (1, ''fffff'')]"
proof -
  have "str_split newline ''L3:0=fffff;1=fffff'' = [] @ ''L3:0=fffff;1=fffff'' # []"
    by (simp add: str_split_none)
  moreover have "domain_line ''L3'' [(0, ''fffff''), (1, ''fffff'')] = ''L3:0=fffff;1=fffff''"
    by (simp add: domain_line_def show_evals)
  ultimately show ?thesis
    unfolding schemata_has_def cap_paths
    by (intro exI [of _ "''L3:0=fffff;1=fffff'' @ [newline]"] exI [of _ "[]"] exI [of _ "''L3:0=fffff;1=fffff''"])
      (use cap_trim cap_files in simp)
qed

lemma cap_Info:
  "Info mem_os ''/r'' cap_fs = Inr \<lparr>NumCLOSIDs = 16, CBMMask = 0xfffff, MinCBMBits = 1, CacheIDs = [0, 1]\<rparr>"
proof -
  have st: "\<exists>fi. os_stat mem_os cap_fs (path_join [''/r'', ''info'', ''L3'']) = Inr fi"
    by (simp add: cap_paths cap_dirs)
  have v: "line_values [(0, ''fffff''), (1, ''fffff'')]" by (simp add: line_values_def)
  show ?thesis
    using Info_reads [OF st _ _ _ cap_schemata v] cap_int_files(1,2) cap_files(2)
    by (simp add: cap_paths)
qed

theorem Info_reads_capabilities_witness:
  "Info mem_os ''/r'' cap_fs = Inr \<lparr>NumCLOSIDs = 16, CBMMask = 0xfffff, MinCBMBits = 1, CacheIDs = [0, 1]\<rparr>"
proof -
  have st: "\<exists>fi. os_stat mem_os cap_fs (path_join [''/r'', ''info'', ''L3'']) = Inr fi"
    by (simp add: cap_paths cap_dirs)
  have v: "line_values [(0, ''fffff''), (1, ''fffff'')]" by (simp add: line_values_def)
  show ?thesis
    using Info_reads_capabilities [OF st _ _ _ cap_schemata v] cap_int_files(1,2) cap_files(2)
    by (simp add: cap_paths)
qed

lemma scan_domain_lines_absent:
  "\<forall>l \<in> set ls. \<not> has_prefix p (trim_space l) \<Longrightarrow> scan_domain_lines p ls = [0]"
  using scan_domain_lines_skip [of ls p "[]"] by simp

text \<open>
  A schemata file without an \<open>L2\<close> line does not make \<open>InfoL2\<close> use the \<open>L3\<close> domains: if the
  file can be read and no line starts with \<open>L2:\<close>, the L2 domains are always reported as the single
  domain \<open>0\<close>; the fallback to the \<open>L3\<close> domains is reached only when the file cannot be read at all,
  and then finds no domain.
\<close>

theorem InfoL2_ignores_L3_domains:
  assumes "InfoL2 os root w = Inr info"
  shows "(case os_read_file os w (path_join [root, ''schemata'']) of
      Inl _ \<Rightarrow> CacheIDs info = []
    | Inr data \<Rightarrow>
        (if \<forall>l \<in> set (str_split newline (trim_space data)). \<not> has_prefix ''L2:'' (trim_space l)
         then CacheIDs info = [0] else True))"
proof (cases "os_read_file os w (path_join [root, ''schemata''])")
  case (Inl e)
  then have "discoverDomainIDs os root w p = Inl (Wrapf ''reading root schemata: %w'' [] (OsError e))" for p
    by (simp add: discoverDomainIDs_def readTrimmedFile_def)
  with assms Inl show ?thesis
    by (auto simp: InfoL2_def Let_def split: sum.splits option.splits)
next
  case (Inr data)
  show ?thesis
  proof (cases "\<forall>l \<in> set (str_split newline (trim_space data)). \<not> has_prefix ''L2:'' (trim_space l)")
    case True
    then have "discoverDomainIDs os root w ''L2'' = Inr [0]"
      using scan_domain_lines_absent [OF True] Inr by (simp add: discoverDomainIDs_def readTrimmedFile_def)
    with assms Inr True show ?thesis
      by (auto simp: InfoL2_def Let_def split: sum.splits option.splits)
  qed (use Inr in auto)
qed

theorem InfoL2_ignores_L3_domains_witness:
  "\<exists>info. InfoL2 mem_os ''/r'' cap_fs = Inr info \<and> CacheIDs info = [0] \<and>
     discoverDomainIDs mem_os ''/r'' cap_fs ''L3'' = Inr [0, 1]"
proof -
  have "readTrimmedFile mem_os cap_fs ''/r/info/L2/cbm_mask'' = Inr (show_hex 0xff)"
    by (simp add: readTrimmedFile_def cap_files hex_line_trim)
  then obtain info where i: "InfoL2 mem_os ''/r'' cap_fs = Inr info"
    using readIntFile_int_file [OF cap_int_files(3)] readIntFile_int_file [OF cap_int_files(4)]
    by (simp add: InfoL2_def cap_paths cap_dirs parse_show_hex Let_def)
  have "\<forall>l \<in> set (str_split newline ''L3:0=fffff;1=fffff''). \<not> has_prefix ''L2:'' (trim_space l)"
    using cap_trim(2) by (simp add: str_split_none)
  then have "CacheIDs info = [0]"
    using InfoL2_ignores_L3_domains [OF i] cap_trim(1) cap_files(7) by (simp add: cap_paths)
  moreover have "discoverDomainIDs mem_os ''/r'' cap_fs ''L3'' = Inr [0, 1]"
    using discoverDomainIDs_line [OF cap_schemata] by (simp add: line_values_def)
  ultimately show ?thesis using i by blast
qed

subsection \<open>Monitoring\<close>

lemma rate_event_iff:
  "GaugeRate name ls b t \<in> set (rate_event name' ls' cur prev e) \<longleftrightarrow>
     name = name' \<and> ls = ls' \<and> t = e \<and> uint prev \<le> uint cur \<and> b = uint cur - uint prev"
  by (auto simp: rate_event_def word_le_def uint_sub_lem)

text \<open>
  C37: Bandwidth rates are sound: a scrape reports a rate exactly when there is an earlier sample of
  the same group and domain, time has passed since, and the counter has not gone backwards; the
  bytes are then the exact, non-negative difference of that counter's two values. The samples of
  other groups and domains are kept.
\<close>

theorem scrape_rates_exact:
  assumes "scrape_target os root w now t prev = (es, prev')"
  shows "(GaugeRate name labels b e \<in> set es \<longleftrightarrow>
      (\<exists>s data. prev (sample_key t) = Some s \<and> ReadMonData os root w (TargetGroup t) (CacheGroupID t) = Inr data \<and>
         labels = [PartitionName t, show_int (CacheGroupID t)] \<and> e = now - mbm_time s \<and> 0 < e \<and> 0 \<le> b \<and>
         (name = MemBandwidthLocalBytesPerSec \<and> b = uint (MBMLocalBytes data) - uint (mbm_local s) \<or>
          name = MemBandwidthTotalBytesPerSec \<and> b = uint (MBMTotalBytes data) - uint (mbm_total s)))) \<and>
    (key \<noteq> sample_key t \<longrightarrow> prev' key = prev key)"
proof (cases "ReadMonData os root w (TargetGroup t) (CacheGroupID t)")
  case (Inl e)
  then show ?thesis using assms by (auto simp: scrape_target_def)
next
  case (Inr data)
  show ?thesis
  proof (cases "prev (sample_key t)")
    case None
    then show ?thesis using assms Inr by (auto simp: scrape_target_def Let_def)
  next
    case (Some s)
    show ?thesis
    proof (cases "now - mbm_time s \<le> 0")
      case True
      then show ?thesis using assms Inr Some by (auto simp: scrape_target_def Let_def)
    next
      case False
      then have es: "es = GaugeSet CacheOccupancyBytes [PartitionName t, show_int (CacheGroupID t)] (uint (LLCOccupancy data))
          # rate_event MemBandwidthLocalBytesPerSec [PartitionName t, show_int (CacheGroupID t)]
              (MBMLocalBytes data) (mbm_local s) (now - mbm_time s)
          @ rate_event MemBandwidthTotalBytesPerSec [PartitionName t, show_int (CacheGroupID t)]
              (MBMTotalBytes data) (mbm_total s) (now - mbm_time s)"
        and "prev' = prev(sample_key t \<mapsto>
          \<lparr>mbm_local = MBMLocalBytes data, mbm_total = MBMTotalBytes data, mbm_time = now\<rparr>)"
        using assms Inr Some by (simp_all add: scrape_target_def Let_def)
      then show ?thesis using Inr Some False by (auto simp: rate_event_iff)
    qed
  qed
qed

definition mon_fs :: memfs where
  "mon_fs =
     \<lparr>mem_dirs = [''/r/g/mon_data/mon_L3_0''],
      mem_files = [(''/r/g/mon_data/mon_L3_0/mbm_local_bytes'', ''700'' @ [newline]),
                   (''/r/g/mon_data/mon_L3_0/mbm_total_bytes'', ''50'' @ [newline])]\<rparr>"

definition mon_target :: MonitorTarget where
  "mon_target = \<lparr>PartitionName = ''p'', TargetGroup = ''g'', CacheGroupID = 0\<rparr>"

lemma mon_trims: "trim_space (''700'' @ [newline]) = ''700''" "trim_space (''50'' @ [newline]) = ''50''"
  by (rule trim_space_newline, simp add: graphic_def)+

lemma mon_numbers: "parse_uint_dec ''700'' = Some 700" "parse_uint_dec ''50'' = Some 50"
  by (simp_all add: parse_uint_dec_def parse_uint64_def parse_nat_def dec_val_def is_dec_def)

lemma mon_data:
  "ReadMonData mem_os ''/r'' mon_fs ''g'' 0 = Inr \<lparr>LLCOccupancy = 0, MBMLocalBytes = 700, MBMTotalBytes = 50\<rparr>"
  using mon_trims
  by (simp add: ReadMonData_def path_join_def path_clean_def render_path_def mon_fs_def go_eval Let_def
      show_evals readUint64File_def readTrimmedFile_def mon_numbers counter_or_zero_def)

theorem scrape_rates_exact_witness:
  "\<exists>es prev'. scrape_target mem_os ''/r'' mon_fs 9 mon_target
      [''g/0'' \<mapsto> \<lparr>mbm_local = 200, mbm_total = 60, mbm_time = 4\<rparr>] = (es, prev') \<and>
    GaugeRate MemBandwidthLocalBytesPerSec [''p'', ''0''] 500 5 \<in> set es \<and>
    (\<forall>b. GaugeRate MemBandwidthTotalBytesPerSec [''p'', ''0''] b 5 \<notin> set es)"
proof -
  let ?prev = "[''g/0'' \<mapsto> \<lparr>mbm_local = 200, mbm_total = 60, mbm_time = 4\<rparr>]"
  obtain es prev' where e: "scrape_target mem_os ''/r'' mon_fs 9 mon_target ?prev = (es, prev')"
    by fastforce
  have k: "sample_key mon_target = ''g/0''" by (simp add: sample_key_def mon_target_def show_evals)
  have d: "ReadMonData mem_os ''/r'' mon_fs (TargetGroup mon_target) (CacheGroupID mon_target) =
      Inr \<lparr>LLCOccupancy = 0, MBMLocalBytes = 700, MBMTotalBytes = 50\<rparr>"
    by (simp add: mon_target_def mon_data)
  have l: "[PartitionName mon_target, show_int (CacheGroupID mon_target)] = [''p'', ''0'']"
    by (simp add: mon_target_def show_evals)
  have "MemBandwidthLocalBytesPerSec \<noteq> MemBandwidthTotalBytesPerSec"
    by (simp add: MemBandwidthLocalBytesPerSec_def MemBandwidthTotalBytesPerSec_def)
  then have "GaugeRate MemBandwidthLocalBytesPerSec [''p'', ''0''] 500 5 \<in> set es"
    "\<And>b. GaugeRate MemBandwidthTotalBytesPerSec [''p'', ''0''] b 5 \<notin> set es"
    using scrape_rates_exact [OF e, of MemBandwidthLocalBytesPerSec "[''p'', ''0'']" 500 5]
      scrape_rates_exact [OF e, of MemBandwidthTotalBytesPerSec "[''p'', ''0'']" _ 5]
    by (simp_all add: k d l)
  with e show ?thesis by blast
qed

end
