(* ===== verification/InventoryProps.thy ===== *)
theory InventoryProps
  imports Lifecycle PartitionProps ResctrlProps
begin

text \<open>
  The inventory that \<open>main\<close> builds from the flags and the hardware, end to end: the masks in the
  partitions after the bandwidth and L2 settings.
\<close>

subsection \<open>The settings keep the masks\<close>

text \<open>\<open>q\<close> is the partition \<open>p\<close> up to bandwidth and L2 settings.\<close>

definition same_mask :: "CachePartition \<Rightarrow> CachePartition \<Rightarrow> bool" where
  "same_mask p q \<longleftrightarrow> CBM q = CBM p \<and> Ways q = Ways p \<and> CacheID q = CacheID p \<and> ID q = ID p \<and>
     ResctrlGroup q = ResctrlGroup p \<and> Index q = Index p"

definition same_masks :: "CachePartition list list \<Rightarrow> CachePartition list list \<Rightarrow> bool" where
  "same_masks = list_all2 (list_all2 same_mask)"

lemma same_mask_refl: "same_mask p p" by (simp add: same_mask_def)

lemma same_masks_refl: "same_masks pc pc"
  by (simp add: same_masks_def list_all2_refl same_mask_refl)

lemma same_mask_trans: "same_mask p q \<Longrightarrow> same_mask q r \<Longrightarrow> same_mask p r"
  by (simp add: same_mask_def)

lemma same_masks_trans: "same_masks a b \<Longrightarrow> same_masks b c \<Longrightarrow> same_masks a c"
  unfolding same_masks_def by (rule list_all2_trans [OF list_all2_trans [OF same_mask_trans]])

lemma same_masks_map: "(\<And>p. same_mask p (f p)) \<Longrightarrow> same_masks pc (map (map f) pc)"
  by (simp add: same_masks_def list_all2_map2 list_all2_refl)

lemma same_masks_configure:
  "same_masks pc (configure_mba os root w bw pc)" "same_masks pc (configure_smba os root w bw pc)"
  "same_masks pc (configure_l2 os root w pc)"
  by (auto simp: configure_mba_def configure_smba_def configure_l2_def ApplyMBA_def ApplySMBA_def ApplyL2_def Let_def
      same_mask_def intro!: same_masks_map same_masks_refl split: sum.splits)

lemma same_mask_ways: "same_mask p q \<Longrightarrow> partition_ways q = partition_ways p"
  by (simp add: same_mask_def partition_ways_def)

text \<open>What a started inventory is: an accepted partitioning of the detected cache, up to the settings.\<close>

lemma build_inventory_started:
  assumes "build_inventory os root count sizes mba smba w = Some (Started (info, perCache))"
  obtains specs n z c pc where
    "(if sizes = [] then specs = SpecsFromCount count (NumWays info) else ParsePartitionSizes sizes = Inr specs)"
    "Info os root w = Inr info" "PartitionCache info specs n z c = Inr pc" "same_masks pc perCache"
proof -
  have "\<exists>specs n z c pc. (if sizes = [] then specs = SpecsFromCount count (NumWays info) else ParsePartitionSizes sizes = Inr specs) \<and>
    Info os root w = Inr info \<and> PartitionCache info specs n z c = Inr pc \<and>
    perCache = configure_l2 os root w (configure_smba os root w smba (configure_mba os root w mba pc))"
    using assms by (auto simp: build_inventory_def Let_def split: if_splits sum.splits option.splits)
  then show thesis using that same_masks_configure same_masks_trans by metis
qed

text \<open>
  C13: The inventory of \<open>--partition-count\<close>, end to end from the hardware files: whatever the operating
  system reports, if the inventory is built then every cache domain has exactly that many
  partitions, no two of them share a way, their sizes differ by at most one way, and together they
  cover every way of the detected cache, also after the bandwidth and L2 settings.
\<close>

theorem inventory_splits_the_cache:
  assumes "build_inventory os root count [] mba smba w = Some (Started (info, perCache))"
    and "in_int count" "parts \<in> set perCache"
  shows "Info os root w = Inr info \<and> int (length parts) = count \<and>
    (\<Union>p \<in> set parts. partition_ways p) = {..<nat (NumWays info)} \<and>
    (\<forall>i < length parts. \<forall>j < length parts. i \<noteq> j \<longrightarrow> partition_ways (parts ! i) \<inter> partition_ways (parts ! j) = {}) \<and>
    (\<forall>p \<in> set parts. \<forall>q \<in> set parts. Ways p \<le> Ways q + 1)"
proof -
  let ?specs = "SpecsFromCount count (NumWays info)"
  obtain n z c pc where info: "Info os root w = Inr info"
    and pc: "PartitionCache info ?specs n z c = Inr pc" "same_masks pc perCache"
    by (rule build_inventory_started [OF assms(1)]) simp
  obtain ps where ps: "ps \<in> set pc" "list_all2 same_mask ps parts"
    using pc(2) assms(3) unfolding same_masks_def list_all2_conv_all_nth in_set_conv_nth by metis
  have len: "length parts = length ps" by (rule list_all2_lengthD [OF ps(2), symmetric])
  have nth: "same_mask (ps ! i) (parts ! i)" if "i < length parts" for i
    using list_all2_nthD2 [OF ps(2) that] .
  have "?specs \<noteq> []" using pc(1) by (auto simp: PartitionCache_def validate_specs_def)
  then have "0 < count" by (auto simp: SpecsFromCount_def split: if_splits)
  from SpecsFromCount_facts(3) [OF this NumWays_bounds(1) assms(2) in_int_NumWays]
  have ws: "well_sized ?specs" .
  note eq = equal_split_covers [OF pc(1) assms(2) ps(1)]
  have "partition_ways (parts ! i) \<inter> partition_ways (parts ! j) = {}"
    if "i < length parts" "j < length parts" "i \<noteq> j" for i j
    using partitions_disjoint [OF pc(1) ws ps(1)] that len same_mask_ways [OF nth] by simp
  moreover have "(\<Union>p \<in> set parts. partition_ways p) = (\<Union>p \<in> set ps. partition_ways p)"
  proof -
    have "map partition_ways parts = map partition_ways ps"
      by (rule nth_equalityI) (simp_all add: len same_mask_ways [OF nth])
    then have "partition_ways ` set parts = partition_ways ` set ps" by (metis image_set)
    then show ?thesis by simp
  qed
  moreover have "Ways p \<le> Ways q + 1" if "p \<in> set parts" "q \<in> set parts" for p q
    using that eq nth len unfolding in_set_conv_nth same_mask_def by (metis nth_mem)
  ultimately show ?thesis using eq info len by simp
qed

definition cap_info :: CATInfo where
  "cap_info = \<lparr>NumCLOSIDs = 16, CBMMask = 0xfffff, MinCBMBits = 1, CacheIDs = [0, 1]\<rparr>"

lemma NumWays_cap: "NumWays cap_info = 20"
  using NumWays_example by (simp add: cap_info_def NumWays_def example_info_def)

lemma cap_inventory:
  "\<exists>perCache. build_inventory mem_os ''/r'' 3 [] (- 1) (- 1) cap_fs = Some (Started (cap_info, perCache)) \<and> perCache \<noteq> []"
proof -
  have i: "in_int 3" "in_int 20" by (simp_all add: in_int_def)
  have w: "well_sized (SpecsFromCount 3 20)" using SpecsFromCount_facts(3) [of 3 20] i by simp
  have "specs_fit cap_info (SpecsFromCount 3 20)"
    using SpecsFromCount_nonneg [of 3 20] i
    by (simp add: specs_fit_def NumWays_cap) (simp add: cap_info_def in_int_def)
  then obtain pc where p: "PartitionCache cap_info (SpecsFromCount 3 20) None None None = Inr pc"
    using PartitionCache_ok_iff [OF w] by (metis is_ok_iff)
  then have ne: "pc \<noteq> []" using PartitionCache_layout(1) [OF p w] by (auto simp: cap_info_def)
  have av: "IsAvailable mem_os ''/r'' cap_fs" by (simp add: IsAvailable_def info_dir_exists_def cap_paths cap_dirs)
  have dirs: "os_read_dir mem_os cap_fs defaultSysNodePath = Inl ''no such file or directory''"
    "os_read_dir mem_os cap_fs defaultSysCPUPath = Inl ''no such file or directory''"
    by (simp_all add: mem_os_def mem_read_dir_def cap_fs_def defaultSysNodePath_def defaultSysCPUPath_def)
  have l: "\<exists>e. LookupCacheNUMA mem_os cap_fs [] [] = Some (Inl e)" "\<exists>e. LookupCacheSizes mem_os cap_fs [] = Inl e"
    "\<exists>e. LookupCacheCPUList mem_os cap_fs [] = Inl e"
    by (simp_all add: LookupCacheNUMA_def LookupCacheSizes_def LookupCacheCPUList_def buildCPUToNUMA_def dirs)
  let ?pc = "configure_l2 mem_os ''/r'' cap_fs (configure_smba mem_os ''/r'' cap_fs (- 1) (configure_mba mem_os ''/r'' cap_fs (- 1) pc))"
  have "build_inventory mem_os ''/r'' 3 [] (- 1) (- 1) cap_fs = Some (Started (cap_info, ?pc))"
    using av l p by (auto simp: build_inventory_def cap_Info [folded cap_info_def] NumWays_cap)
  moreover have "same_masks pc ?pc"
    by (rule same_masks_trans [OF same_masks_trans [OF same_masks_configure(1) same_masks_configure(2)] same_masks_configure(3)])
  then have "length ?pc = length pc" unfolding same_masks_def by (rule list_all2_lengthD [symmetric])
  with ne have "?pc \<noteq> []" by (metis length_0_conv)
  ultimately show ?thesis by blast
qed

theorem inventory_splits_the_cache_witness:
  "\<exists>parts perCache. build_inventory mem_os ''/r'' 3 [] (- 1) (- 1) cap_fs = Some (Started (cap_info, parts # perCache)) \<and>
     length parts = 3 \<and> (\<Union>p \<in> set parts. partition_ways p) = {..<20} \<and>
     partition_ways (parts ! 0) \<inter> partition_ways (parts ! 2) = {}"
proof -
  obtain parts perCache where b: "build_inventory mem_os ''/r'' 3 [] (- 1) (- 1) cap_fs = Some (Started (cap_info, parts # perCache))"
    using cap_inventory by (metis neq_Nil_conv)
  have "in_int 3" by (simp add: in_int_def)
  from inventory_splits_the_cache [OF b this, of parts]
  have "length parts = 3" "(\<Union>p \<in> set parts. partition_ways p) = {..<20}"
    "\<forall>i < length parts. \<forall>j < length parts. i \<noteq> j \<longrightarrow> partition_ways (parts ! i) \<inter> partition_ways (parts ! j) = {}"
    by (simp_all add: NumWays_cap)
  with b show ?thesis by simp
qed

end
