(* ===== verification/Kernel.thy ===== *)
theory Kernel
  imports WayAllocProps
begin

text \<open>
  What the kernel enforces. The driver confines a workload by writing files below the resctrl mount;
  whether the workload is confined is decided by the kernel, which keeps a schemata table for each
  group. The kernel is not under \<open>src/\<close>, so its tables are a parameter: \<open>view w\<close> is the table of
  groups in the world \<open>w\<close>, each with its L3 mask per cache domain, and \<open>resctrl_kernel\<close> states what
  the kernel documentation says of \<open>mkdir\<close>, \<open>rmdir\<close> and the \<open>schemata\<close> file:

  \<^item> making the directory of a new group gives a group with the masks \<open>fresh\<close>, and making one that
    exists leaves the masks; a failed call leaves everything;
  \<^item> writing lines to the \<open>schemata\<close> file of a group touches only that group, and of its L3 masks only
    the domain that the L3 line names; if the write succeeds, that domain has the written mask;
  \<^item> removing the directory removes the group, if it succeeds;
  \<^item> moving tasks, and any call on a path outside of the mount, leaves all masks.

  \<open>kfs\<close> below is one concrete kernel of this kind, on which runs are evaluated.
\<close>

type_synonym schemata = "int \<rightharpoonup> 64 word"

type_synonym 'w kernel_view = "'w \<Rightarrow> string \<rightharpoonup> schemata"

definition group_name :: "string \<Rightarrow> bool" where
  "group_name g \<longleftrightarrow> plain_name g \<and> has_prefix ''dra-c'' g"

definition outside :: "string \<Rightarrow> string \<Rightarrow> bool" where
  "outside root p \<longleftrightarrow> p \<noteq> root \<and> \<not> has_prefix (root @ ''/'') p"

definition schemata_path :: "string \<Rightarrow> string \<Rightarrow> string" where
  "schemata_path root g = path_join [path_join [root, g], ''schemata'']"

text \<open>The text of an L3 line for one domain, and text without any L3 line.\<close>

definition l3_line :: "int \<Rightarrow> 64 word \<Rightarrow> string" where
  "l3_line c m = ''L3:'' @ show_int c @ ''='' @ show_hex m"

definition no_l3_line :: "string \<Rightarrow> bool" where
  "no_l3_line s \<longleftrightarrow> (\<forall>l \<in> set (str_split newline s). \<not> has_prefix ''L3:'' l)"

definition mkdir_law :: "'w os \<Rightarrow> string \<Rightarrow> 'w kernel_view \<Rightarrow> schemata \<Rightarrow> bool" where
  "mkdir_law os root view fresh \<longleftrightarrow>
     (\<forall>g w e w'. group_name g \<longrightarrow> os_mkdir_all os w (path_join [root, g]) = (e, w') \<longrightarrow>
        view w' = (if e = None \<and> view w g = None then (view w)(g \<mapsto> fresh) else view w))"

definition rmdir_law :: "'w os \<Rightarrow> string \<Rightarrow> 'w kernel_view \<Rightarrow> bool" where
  "rmdir_law os root view \<longleftrightarrow>
     (\<forall>g w e w'. group_name g \<longrightarrow> os_remove os w (path_join [root, g]) = (e, w') \<longrightarrow>
        view w' = (if e = None then (view w)(g := None) else view w))"

definition schemata_law :: "'w os \<Rightarrow> string \<Rightarrow> 'w kernel_view \<Rightarrow> bool" where
  "schemata_law os root view \<longleftrightarrow>
     (\<forall>g c m rest w s e w'. group_name g \<longrightarrow> in_int c \<longrightarrow> no_l3_line rest \<longrightarrow> view w g = Some s \<longrightarrow>
        os_write_file os w (schemata_path root g) (l3_line c m @ newline # rest) = (e, w') \<longrightarrow>
        (\<exists>s'. view w' = (view w)(g \<mapsto> s') \<and> (\<forall>c'. c' \<noteq> c \<longrightarrow> s' c' = s c') \<and> (e = None \<longrightarrow> s' c = Some m)))"

definition frame_law :: "'w os \<Rightarrow> string \<Rightarrow> 'w kernel_view \<Rightarrow> bool" where
  "frame_law os root view \<longleftrightarrow>
     (\<forall>w d. view (snd (os_write_file os w (path_join [root, ''tasks'']) d)) = view w) \<and>
     (\<forall>w p. outside root p \<longrightarrow>
        view (snd (os_mkdir_all os w p)) = view w \<and> view (snd (os_remove os w p)) = view w \<and>
        (\<forall>d. view (snd (os_write_file os w p d)) = view w))"

definition resctrl_kernel :: "'w os \<Rightarrow> string \<Rightarrow> 'w kernel_view \<Rightarrow> schemata \<Rightarrow> bool" where
  "resctrl_kernel os root view fresh \<longleftrightarrow>
     mkdir_law os root view fresh \<and> rmdir_law os root view \<and> schemata_law os root view \<and>
     frame_law os root view"

lemma kernel_mkdir:
  "resctrl_kernel os root view fresh \<Longrightarrow> group_name g \<Longrightarrow>
   os_mkdir_all os w (path_join [root, g]) = (e, w') \<Longrightarrow>
   view w' = (if e = None \<and> view w g = None then (view w)(g \<mapsto> fresh) else view w)"
  unfolding resctrl_kernel_def mkdir_law_def by blast

lemma kernel_rmdir:
  "resctrl_kernel os root view fresh \<Longrightarrow> group_name g \<Longrightarrow>
   os_remove os w (path_join [root, g]) = (e, w') \<Longrightarrow>
   view w' = (if e = None then (view w)(g := None) else view w)"
  unfolding resctrl_kernel_def rmdir_law_def by blast

lemma kernel_schemata:
  assumes "resctrl_kernel os root view fresh" "group_name g" "in_int c" "no_l3_line rest" "view w g = Some s"
    and "os_write_file os w (schemata_path root g) (l3_line c m @ newline # rest) = (e, w')"
  obtains s' where "view w' = (view w)(g \<mapsto> s')" "\<And>c'. c' \<noteq> c \<Longrightarrow> s' c' = s c'" "e = None \<Longrightarrow> s' c = Some m"
  using assms unfolding resctrl_kernel_def schemata_law_def by blast

lemma kernel_tasks:
  "resctrl_kernel os root view fresh \<Longrightarrow> view (snd (os_write_file os w (path_join [root, ''tasks'']) d)) = view w"
  unfolding resctrl_kernel_def frame_law_def by blast

lemma kernel_outside:
  assumes "resctrl_kernel os root view fresh" "outside root p"
  shows "view (snd (os_mkdir_all os w p)) = view w" "view (snd (os_remove os w p)) = view w"
    "view (snd (os_write_file os w p d)) = view w"
  using assms unfolding resctrl_kernel_def frame_law_def by blast+

subsection \<open>What creating and deleting a group does to the tables\<close>

text \<open>The masks of a group that were there before or that a fresh group has.\<close>

definition base_masks :: "schemata \<Rightarrow> schemata option \<Rightarrow> schemata" where
  "base_masks fresh old = (case old of None \<Rightarrow> fresh | Some s \<Rightarrow> s)"

lemma base_masks_simps [simp]: "base_masks fresh None = fresh" "base_masks fresh (Some s) = s"
  by (simp_all add: base_masks_def)

lemma CreateGroup_kernel:
  assumes k: "resctrl_kernel os root view fresh" and g: "group_name g" and c: "in_int c"
    and r: "no_l3_line rest" and sch: "sch @ [newline] = l3_line c m @ newline # rest" "sch \<noteq> []"
    and cg: "CreateGroup os root g sch w = (e, w')"
  shows "h \<noteq> g \<Longrightarrow> view w' h = view w h"
    and "e = None \<Longrightarrow> \<exists>s. view w' g = Some s \<and> s c = Some m"
    and "view w' g = Some s \<Longrightarrow> c' \<noteq> c \<Longrightarrow> s c' = base_masks fresh (view w g) c'"
proof -
  have "(h \<noteq> g \<longrightarrow> view w' h = view w h) \<and> (e = None \<longrightarrow> (\<exists>s. view w' g = Some s \<and> s c = Some m)) \<and>
      (\<forall>s c'. view w' g = Some s \<longrightarrow> c' \<noteq> c \<longrightarrow> s c' = base_masks fresh (view w g) c')"
  proof -
    obtain e1 w1 where mk: "os_mkdir_all os w (path_join [root, g]) = (e1, w1)" by fastforce
    note v1 = kernel_mkdir [OF k g mk]
    show ?thesis
    proof (cases e1)
      case (Some x)
      with cg mk v1 show ?thesis by (auto simp: CreateGroup_def)
    next
      case None
      define s1 where "s1 = base_masks fresh (view w g)"
      have s1: "view w1 g = Some s1" "h \<noteq> g \<Longrightarrow> view w1 h = view w h" for h
        using v1 None by (auto simp: s1_def base_masks_def split: option.splits if_splits)
      obtain e2 w2 where wr: "os_write_file os w1 (schemata_path root g) (sch @ [newline]) = (e2, w2)"
        by fastforce
      obtain s2 where s2: "view w2 = (view w1)(g \<mapsto> s2)" "\<And>c'. c' \<noteq> c \<Longrightarrow> s2 c' = s1 c'"
          "e2 = None \<Longrightarrow> s2 c = Some m"
        using kernel_schemata [OF k g c r s1(1) wr [unfolded sch(1)]] by metis
      show ?thesis
      proof (cases e2)
        case None
        then have "e = None" "w' = w2"
          using cg mk \<open>e1 = None\<close> wr sch(2) by (auto simp: CreateGroup_def Let_def schemata_path_def)
        with s1 s2 None show ?thesis by (auto simp: s1_def [symmetric])
      next
        case (Some x)
        obtain e3 w3 where rm: "os_remove os w2 (path_join [root, g]) = (e3, w3)" by fastforce
        then have "e \<noteq> None" "w' = w3"
          using cg mk \<open>e1 = None\<close> wr sch(2) Some by (auto simp: CreateGroup_def Let_def schemata_path_def)
        with kernel_rmdir [OF k g rm] s1 s2 show ?thesis
          by (auto simp: s1_def [symmetric] split: if_splits)
      qed
    qed
  qed
  then show "h \<noteq> g \<Longrightarrow> view w' h = view w h"
    and "e = None \<Longrightarrow> \<exists>s. view w' g = Some s \<and> s c = Some m"
    and "view w' g = Some s \<Longrightarrow> c' \<noteq> c \<Longrightarrow> s c' = base_masks fresh (view w g) c'" by blast+
qed

lemma DeleteGroup_kernel:
  assumes k: "resctrl_kernel os root view fresh" and g: "group_name g"
    and dg: "DeleteGroup os root g w = (e, w')"
  shows "view w' = (if e = None then (view w)(g := None) else view w)"
proof -
  define w1 where "w1 = (case os_read_file os w (path_join [path_join [root, g], ''tasks'']) of
      Inl _ \<Rightarrow> w
    | Inr data \<Rightarrow> if 0 < length (trim_space data)
                  then snd (os_write_file os w (path_join [root, ''tasks'']) data) else w)"
  have v1: "view w1 = view w"
    using kernel_tasks [OF k] by (simp add: w1_def split: sum.splits)
  obtain e2 w2 where rm: "os_remove os w1 (path_join [root, g]) = (e2, w2)" by fastforce
  then have "w' = w2" "e = None \<longleftrightarrow> e2 = None"
    using dg by (auto simp: DeleteGroup_def Let_def w1_def split: option.splits)
  with kernel_rmdir [OF k g rm] v1 show ?thesis by simp
qed

subsection \<open>A concrete kernel\<close>

text \<open>
  Its state is the list of the groups with their masks; paths are decoded below the mount point \<open>/r\<close>.
  A new group has all twenty ways of the two domains 0 and 1. Text that is not an L3 line is refused.
  Reading a \<open>schemata\<close> file prints both domains.
\<close>

type_synonym groups = "(string \<times> schemata) list"

definition kfs_group :: "string \<Rightarrow> string option" where
  "kfs_group p = child_name ''/r'' p"

definition kfs_schemata :: "string \<Rightarrow> string option" where
  "kfs_schemata p = (if has_suffix ''/schemata'' p then child_name ''/r'' (trim_suffix ''/schemata'' p) else None)"

definition kfs_fresh :: schemata where
  "kfs_fresh = [0 \<mapsto> 0xFFFFF, 1 \<mapsto> 0xFFFFF]"

definition kfs_parse :: "string \<Rightarrow> (int \<times> 64 word) option" where
  "kfs_parse data =
     (case str_split newline data of
        [] \<Rightarrow> None
      | l # _ \<Rightarrow>
          if has_prefix ''L3:'' l then
            (case str_split2 (CHR ''='') (trim_prefix ''L3:'' l) of
               [c, m] \<Rightarrow> (case (atoi c, parse_uint_hex m) of (Some i, Some v) \<Rightarrow> Some (i, v) | _ \<Rightarrow> None)
             | _ \<Rightarrow> None)
          else None)"

definition kfs_print :: "schemata \<Rightarrow> string" where
  "kfs_print s = mask_line (map (\<lambda>c. (c, the (s c))) [0, 1]) @ [newline]"

definition kfs_set :: "string \<Rightarrow> schemata \<Rightarrow> groups \<Rightarrow> groups" where
  "kfs_set g s w = (g, s) # filter (\<lambda>x. fst x \<noteq> g) w"

definition kfs :: "groups os" where
  "kfs =
     \<lparr>os_stat = (\<lambda>w p. Inl ''no such file or directory''),
      os_read_file = (\<lambda>w p. case kfs_schemata p of None \<Rightarrow> Inl ''no such file or directory''
         | Some g \<Rightarrow> (case map_of w g of None \<Rightarrow> Inl ''no such file or directory''
                       | Some s \<Rightarrow> Inr (kfs_print s))),
      os_read_dir = (\<lambda>w p. if p = ''/r'' then Inr (map (\<lambda>(g, _). \<lparr>de_name = g, de_dir = True\<rparr>) (filter (\<lambda>x. plain_name (fst x)) w))
         else Inl ''no such file or directory''),
      os_mkdir_all = (\<lambda>w p. (None, case kfs_group p of None \<Rightarrow> w
         | Some g \<Rightarrow> (case map_of w g of None \<Rightarrow> kfs_set g kfs_fresh w | Some _ \<Rightarrow> w))),
      os_write_file = (\<lambda>w p d. case kfs_schemata p of None \<Rightarrow> (None, w)
         | Some g \<Rightarrow> (case (map_of w g, kfs_parse d) of
              (Some s, Some (c, m)) \<Rightarrow> (None, kfs_set g (s(c \<mapsto> m)) w)
            | _ \<Rightarrow> (Some ''invalid argument'', w))),
      os_remove = (\<lambda>w p. case kfs_group p of None \<Rightarrow> (None, w)
         | Some g \<Rightarrow> (case map_of w g of None \<Rightarrow> (Some ''no such file or directory'', w)
                       | Some _ \<Rightarrow> (None, filter (\<lambda>x. fst x \<noteq> g) w))),
      os_is_not_exist = (\<lambda>e. e = ''no such file or directory'')\<rparr>"

lemma map_of_drop: "map_of (filter (\<lambda>x. fst x \<noteq> g) w) = (map_of w)(g := None)"
  by (induction w) (auto simp: fun_eq_iff)

lemma map_of_kfs_set [simp]: "map_of (kfs_set g s w) = (map_of w)(g \<mapsto> s)"
  by (simp add: kfs_set_def map_of_drop)

lemma kfs_set_set [simp]: "kfs_set g s (kfs_set g t w) = kfs_set g s w"
  by (simp add: kfs_set_def)

lemma path_join_r: "list_all plain_name ns \<Longrightarrow> ns \<noteq> [] \<Longrightarrow> path_join (''/r'' # ns) = ''/r/'' @ str_join ''/'' ns"
  by (cases ns) (simp_all add: path_join_plain render_path_def go_eval)

lemma schemata_plain [simp]: "plain_name ''schemata''" "plain_name ''tasks''"
  by (simp_all add: plain_name_def)


lemma child_name_r: "plain_name g \<Longrightarrow> child_name ''/r'' (''/r/'' @ g) = Some g"
  by (auto simp: child_name_def plain_name_def Let_def)

lemma group_path_r: "plain_name g \<Longrightarrow> path_join [''/r'', g] = ''/r/'' @ g"
  using path_join_r [of "[g]"] by simp

lemma schemata_path_r:
  assumes "plain_name g"
  shows "schemata_path ''/r'' g = (''/r/'' @ g) @ ''/schemata''"
proof -
  have split: "str_split (CHR ''/'') (''/r/'' @ g) = ['''', ''r'', g]"
    using assms by (simp add: plain_name_def str_split_none)
  have "list_all plain_name [g]" using assms by simp
  from clean_elems_plain [OF this, of True "[''r'']"]
  have clean: "clean_elems True [] ['''', ''r'', g] = [''r'', g]" by simp
  have "path_join [''/r/'' @ g, ''schemata''] = render_path True ([''r'', g] @ [''schemata''])"
    using path_join_plain [of "''/r/'' @ g" "[''schemata'']"] split clean by simp
  then show ?thesis by (simp add: schemata_path_def group_path_r [OF assms] render_path_def)
qed

lemma kfs_paths [simp]:
  assumes "plain_name g"
  shows "kfs_group (path_join [''/r'', g]) = Some g" "kfs_schemata (schemata_path ''/r'' g) = Some g"
proof -
  show "kfs_group (path_join [''/r'', g]) = Some g"
    unfolding kfs_group_def group_path_r [OF assms] by (rule child_name_r [OF assms])
  have "has_suffix ''/schemata'' ((''/r/'' @ g) @ ''/schemata'')" by (rule has_suffix_append)
  moreover have "trim_suffix ''/schemata'' ((''/r/'' @ g) @ ''/schemata'') = ''/r/'' @ g"
    by (rule trim_suffix_append)
  ultimately show "kfs_schemata (schemata_path ''/r'' g) = Some g"
    unfolding kfs_schemata_def schemata_path_r [OF assms] using child_name_r [OF assms] by simp
qed

lemma kfs_tasks [simp]: "kfs_schemata (path_join [''/r'', ''tasks'']) = None"
proof -
  have "\<not> has_suffix ''/schemata'' ''/r/tasks''" by (simp add: has_suffix_def has_prefix_def)
  then show ?thesis by (simp add: kfs_schemata_def group_path_r)
qed

lemma kfs_outside:
  assumes "outside ''/r'' p"
  shows "kfs_group p = None" "kfs_schemata p = None"
proof -
  have none: "child_name ''/r'' q = None" if "\<not> has_prefix ''/r/'' q" for q
    using that by (simp add: child_name_def Let_def)
  have np: "\<not> has_prefix ''/r/'' p" using assms by (simp add: outside_def)
  then show "kfs_group p = None" by (simp add: kfs_group_def none)
  have "\<not> has_prefix ''/r/'' (trim_suffix ''/schemata'' p)" if suf: "has_suffix ''/schemata'' p"
  proof
    assume pre: "has_prefix ''/r/'' (trim_suffix ''/schemata'' p)"
    obtain r where p: "p = r @ ''/schemata''" using suf unfolding has_suffix_iff by blast
    have "has_prefix ''/r/'' r" using pre unfolding p trim_suffix_append .
    then have "has_prefix ''/r/'' p" unfolding p has_prefix_iff by auto
    with np show False ..
  qed
  then show "kfs_schemata p = None" by (simp add: kfs_schemata_def none)
qed

lemma kfs_parse_line:
  assumes "in_int c"
  shows "kfs_parse (l3_line c m @ newline # rest) = Some (c, m)"
proof -
  have nl: "newline \<notin> set (l3_line c m)" by (simp add: l3_line_def)
  have "str_split newline (l3_line c m @ newline # rest) = l3_line c m # str_split newline rest"
    using nl by (simp add: str_split_app str_split_none)
  moreover have "has_prefix ''L3:'' (l3_line c m)" unfolding l3_line_def by (rule has_prefix_append)
  moreover have "trim_prefix ''L3:'' (l3_line c m) = show_int c @ CHR ''='' # show_hex m"
    unfolding l3_line_def trim_prefix_append by simp
  moreover have "str_split2 (CHR ''='') (show_int c @ CHR ''='' # show_hex m) = [show_int c, show_hex m]"
    by (rule str_split2_sep) simp
  ultimately show ?thesis
    using assms by (simp add: kfs_parse_def atoi_show_int parse_show_hex)
qed

lemma kfs_kernel: "resctrl_kernel kfs ''/r'' map_of kfs_fresh"
  unfolding resctrl_kernel_def
proof (intro conjI)
  show "mkdir_law kfs ''/r'' map_of kfs_fresh"
    by (auto simp: mkdir_law_def kfs_def group_name_def split: option.splits)
  show "rmdir_law kfs ''/r'' map_of"
    by (auto simp: rmdir_law_def kfs_def group_name_def map_of_drop split: option.splits if_splits)
  show "frame_law kfs ''/r'' map_of"
    by (auto simp: frame_law_def kfs_def kfs_outside)
  show "schemata_law kfs ''/r'' map_of"
    unfolding schemata_law_def
  proof (intro allI impI)
    fix g c m rest w s e w'
    assume "group_name g" "in_int c" "map_of w g = Some s"
      and wr: "os_write_file kfs w (schemata_path ''/r'' g) (l3_line c m @ newline # rest) = (e, w')"
    then have "e = None" "w' = kfs_set g (s(c \<mapsto> m)) w"
      by (auto simp: kfs_def group_name_def kfs_parse_line)
    then show "\<exists>s'. map_of w' = (map_of w)(g \<mapsto> s') \<and> (\<forall>c'. c' \<noteq> c \<longrightarrow> s' c' = s c') \<and> (e = None \<longrightarrow> s' c = Some m)"
      by (intro exI [of _ "s(c \<mapsto> m)"]) simp
  qed
qed

end
