(* ===== verification/KernelProps.thy ===== *)
theory KernelProps
  imports Kernel ConcurrentProps
begin

text \<open>
  The concurrent handlers of structured mode on a resctrl kernel. \<open>kernel_reach\<close> are the states that
  requests reach when the kubelet keeps its side: it has one call for a claim in flight at a time and
  prepares only claims that hold nothing. The invariant \<open>kernel_inv\<close> ties the driver's table to the
  kernel's: the group of every recorded claim exists and has exactly the recorded mask in its domain.
\<close>

subsection \<open>Names of groups\<close>

text \<open>UIDs of claims: no slash, and still distinct without their dashes.\<close>

definition uid_set :: "string set \<Rightarrow> bool" where
  "uid_set U \<longleftrightarrow> (\<forall>u \<in> U. CHR ''/'' \<notin> set u) \<and> inj_on sanitizeUID U"

text \<open>The UIDs that the API server assigns: 36 characters, dashes exactly at four places.\<close>

definition uuid :: "string \<Rightarrow> bool" where
  "uuid u \<longleftrightarrow> length u = 36 \<and> CHR ''/'' \<notin> set u \<and>
     (\<forall>i < 36. u ! i = CHR ''-'' \<longleftrightarrow> i \<in> {8, 13, 18, 23})"

lemma filter_same_places:
  assumes "length u = length v" "\<forall>i < length u. u ! i = c \<longleftrightarrow> v ! i = c"
    and "filter (\<lambda>x. x \<noteq> c) u = filter (\<lambda>x. x \<noteq> c) v"
  shows "u = v"
  using assms
proof (induction u v rule: list_induct2)
  case (Cons x u y v)
  have "x = c \<longleftrightarrow> y = c" using Cons.prems(1) by (auto dest: spec [of _ 0])
  moreover have "\<forall>i < length u. u ! i = c \<longleftrightarrow> v ! i = c" using Cons.prems(1) by (auto dest: spec [of _ "Suc _"])
  ultimately show ?case using Cons.IH Cons.prems(2) by (auto split: if_splits)
qed simp

lemma uuid_uid_set: "uid_set {u. uuid u}"
proof -
  have "u = v" if "uuid u" "uuid v" "sanitizeUID u = sanitizeUID v" for u v
    using that by (intro filter_same_places [of u v "CHR ''-''"]) (simp_all add: uuid_def sanitizeUID_def str_remove_def)
  then show ?thesis unfolding uid_set_def inj_on_def by (auto simp: uuid_def)
qed

lemma sanitizeUID_chars: "CHR ''-'' \<notin> set (sanitizeUID u)" "set (sanitizeUID u) \<subseteq> set u"
  by (auto simp: sanitizeUID_def str_remove_def)

lemma claim_group_name: "CHR ''/'' \<notin> set u \<Longrightarrow> group_name (claim_group k u)"
  using sanitizeUID_chars [of u] by (auto simp: group_name_def plain_name_def claim_group_def has_prefix_def)

lemma last_dash:
  assumes "CHR ''-'' \<notin> set b" "CHR ''-'' \<notin> set b'" "a @ CHR ''-'' # b = a' @ CHR ''-'' # b'"
  shows "b = b'"
proof -
  have "rev b @ CHR ''-'' # rev a = rev b' @ CHR ''-'' # rev a'"
    using arg_cong [OF assms(3), of rev] by simp
  then have "takeWhile (\<lambda>c. c \<noteq> CHR ''-'') (rev b @ CHR ''-'' # rev a) =
      takeWhile (\<lambda>c. c \<noteq> CHR ''-'') (rev b' @ CHR ''-'' # rev a')" by simp
  moreover have "takeWhile (\<lambda>c. c \<noteq> CHR ''-'') (rev x) = rev x" if "CHR ''-'' \<notin> set x" for x
    using that by (simp add: takeWhile_eq_all_conv) blast
  ultimately show ?thesis using assms(1,2) by (simp add: takeWhile_tail)
qed

lemma show_base_dec_inj:
  assumes "show_base 10 m = show_base 10 n"
  shows "m = n"
proof -
  have "Some m = Some n" unfolding parse_nat_show_dec [symmetric] assms ..
  then show ?thesis by simp
qed

lemma show_int_inj: "show_int i = show_int j \<Longrightarrow> i = j"
proof -
  assume eq: "show_int i = show_int j"
  have hd: "show_base 10 n \<noteq> CHR ''-'' # x" for n x
  proof
    assume "show_base 10 n = CHR ''-'' # x"
    then have "CHR ''-'' \<in> set (show_base 10 n)" by (simp only: list.set_intros)
    from show_base_dec_chars [OF this] show False by (simp add: is_dec_def)
  qed
  have hd': "CHR ''-'' # x \<noteq> show_base 10 n" for n x using hd [of n x] by metis
  consider "i < 0" "j < 0" | "i < 0" "0 \<le> j" | "0 \<le> i" "j < 0" | "0 \<le> i" "0 \<le> j" by linarith
  then show "i = j"
  proof cases
    case 1
    then have "nat (- i) = nat (- j)" using eq unfolding show_int_def by (intro show_base_dec_inj) (simp del: show_base.simps)
    with 1 show ?thesis by simp
  next
    case 2
    with eq hd' show ?thesis unfolding show_int_def by (simp del: show_base.simps)
  next
    case 3
    with eq hd show ?thesis unfolding show_int_def by (simp del: show_base.simps)
  next
    case 4
    then have "nat i = nat j" using eq unfolding show_int_def by (intro show_base_dec_inj) (simp del: show_base.simps)
    with 4 show ?thesis by simp
  qed
qed

lemma claim_group_uid:
  assumes "uid_set U" "u \<in> U" "v \<in> U" "claim_group k u = claim_group k' v"
  shows "u = v"
proof -
  have "(''dra-c'' @ show_int k) @ CHR ''-'' # sanitizeUID u = (''dra-c'' @ show_int k') @ CHR ''-'' # sanitizeUID v"
    using assms(4) by (simp add: claim_group_def)
  then have "sanitizeUID u = sanitizeUID v" using sanitizeUID_chars(1) by (blast intro: last_dash)
  with assms show ?thesis by (auto simp: uid_set_def inj_on_def)
qed

subsection \<open>What the kernel holds for a claim\<close>

definition mask_in :: "'w kernel_view \<Rightarrow> 'w \<Rightarrow> int \<Rightarrow> string \<Rightarrow> 64 word \<Rightarrow> bool" where
  "mask_in view w k u m \<longleftrightarrow> (\<exists>s. view w (claim_group k u) = Some s \<and> s k = Some m)"

text \<open>The tables of the groups of a UID after a call: outside of the domain of the group they are as before
  the call, or as the kernel makes them for a new group.\<close>

definition base_kept :: "'w kernel_view \<Rightarrow> schemata \<Rightarrow> string set \<Rightarrow> 'w \<Rightarrow> 'w \<Rightarrow> bool" where
  "base_kept view fresh U w w' \<longleftrightarrow>
     (\<forall>u \<in> U. \<forall>k s c. view w' (claim_group k u) = Some s \<longrightarrow> c \<noteq> k \<longrightarrow>
        s c = base_masks fresh (view w (claim_group k u)) c)"

definition same_groups :: "'w kernel_view \<Rightarrow> 'w \<Rightarrow> 'w \<Rightarrow> string \<Rightarrow> bool" where
  "same_groups view w w' u \<longleftrightarrow> (\<forall>k. view w' (claim_group k u) = view w (claim_group k u))"

lemma same_groups_refl [simp]: "same_groups view w w u"
  by (simp add: same_groups_def)

lemma same_view: "view w' = view w \<Longrightarrow> same_groups view w w' u"
  by (simp add: same_groups_def)

lemma base_kept_same: "(\<And>u. u \<in> U \<Longrightarrow> same_groups view w w' u) \<Longrightarrow> base_kept view fresh U w w'"
  by (auto simp: base_kept_def same_groups_def)

lemma no_l3_line_Nil [simp]: "no_l3_line []"
  by (simp add: no_l3_line_def has_prefix_def)

lemma structured_schemata_text: "buildStructuredSchemata c (show_hex m) 0 = l3_line c m"
  by (simp add: buildStructuredSchemata_def l3_line_def)

lemma claim_group_created:
  assumes k: "resctrl_kernel os root view fresh" and U: "uid_set U" "u \<in> U" and c: "in_int c"
    and cg: "CreateGroup os root (claim_group c u) (buildStructuredSchemata c (show_hex m) 0) w = (e, w')"
  shows "v \<in> U \<Longrightarrow> v \<noteq> u \<Longrightarrow> same_groups view w w' v" "base_kept view fresh U w w'"
    "e = None \<Longrightarrow> mask_in view w' c u m"
proof -
  have g: "group_name (claim_group c u)" using U by (intro claim_group_name) (auto simp: uid_set_def)
  have sch: "l3_line c m @ [newline] = l3_line c m @ newline # []" "l3_line c m \<noteq> []"
    by (simp_all add: l3_line_def)
  note eff = CreateGroup_kernel [OF k g c no_l3_line_Nil sch cg [unfolded structured_schemata_text]]
  show "v \<in> U \<Longrightarrow> v \<noteq> u \<Longrightarrow> same_groups view w w' v"
    using eff(1) claim_group_uid [OF U] unfolding same_groups_def by metis
  show "e = None \<Longrightarrow> mask_in view w' c u m" using eff(2) by (simp add: mask_in_def)
  have "s d = base_masks fresh (view w (claim_group k' v)) d"
    if "v \<in> U" "view w' (claim_group k' v) = Some s" "d \<noteq> k'" for v k' s d
  proof (cases "claim_group k' v = claim_group c u")
    case True
    show ?thesis
    proof (cases "d = c")
      case False
      with eff(3) [of s d] that True show ?thesis by simp
    next
      case True': True
      from True have "v = u" by (rule claim_group_uid [OF U(1) that(1) U(2)])
      with True have "show_int k' = show_int c" by (simp add: claim_group_def)
      then show ?thesis using that(3) True' show_int_inj by metis
    qed
  next
    case False
    with eff(1) that show ?thesis by simp
  qed
  then show "base_kept view fresh U w w'" unfolding base_kept_def by blast
qed


lemma claim_group_deleted:
  assumes k: "resctrl_kernel os root view fresh" and U: "uid_set U" "u \<in> U"
  shows "v \<in> U \<Longrightarrow> v \<noteq> u \<Longrightarrow> same_groups view w (snd (DeleteGroup os root (claim_group c u) w)) v"
    "base_kept view fresh U w (snd (DeleteGroup os root (claim_group c u) w))"
proof -
  have g: "group_name (claim_group c u)" using U by (intro claim_group_name) (auto simp: uid_set_def)
  obtain e w' where dg: "DeleteGroup os root (claim_group c u) w = (e, w')" by fastforce
  note v' = DeleteGroup_kernel [OF k g dg]
  show "v \<in> U \<Longrightarrow> v \<noteq> u \<Longrightarrow> same_groups view w (snd (DeleteGroup os root (claim_group c u) w)) v"
    using v' dg claim_group_uid [OF U(1) _ U(2)] by (auto simp: same_groups_def)
  show "base_kept view fresh U w (snd (DeleteGroup os root (claim_group c u) w))"
    using v' dg by (auto simp: base_kept_def split: if_splits)
qed

text \<open>The directory of the CDI specs is not below the resctrl mount.\<close>

definition cdi_outside :: "string \<Rightarrow> string \<Rightarrow> bool" where
  "cdi_outside root dir \<longleftrightarrow> outside root dir \<and> (\<forall>f. plain_name f \<longrightarrow> outside root (path_join [dir, f]))"

lemma claim_spec_written:
  assumes k: "resctrl_kernel os root view fresh" and dir: "cdi_outside root dir" and uid: "CHR ''/'' \<notin> set uid"
    and wr: "writeClaimCDISpec os dir hook uid grp c n hex w = (r, w')"
  shows "view w' = view w" "r = Some (Inr (i, p)) \<Longrightarrow> outside root p"
proof -
  have "plain_name (cdiVendor @ ''-claim-'' @ take 8 uid @ ''.json'')"
    using uid by (auto simp: plain_name_def cdiVendor_def dest: in_set_takeD)
  with dir have "outside root (path_join [dir, cdiVendor @ ''-claim-'' @ take 8 uid @ ''.json''])"
    unfolding cdi_outside_def by blast
  note out = this and dir_out = dir [unfolded cdi_outside_def, THEN conjunct1]
  obtain e1 w1 where mk: "os_mkdir_all os w dir = (e1, w1)" by fastforce
  with kernel_outside(1) [OF k dir_out, of w] have v1: "view w1 = view w" by simp
  note outw = kernel_outside(3) [OF k out, of w1]
  show "view w' = view w"
    using wr mk v1 outw by (auto simp: writeClaimCDISpec_def uid8_def Let_def
        split: option.splits if_splits prod.splits) (metis snd_conv)+
  show "r = Some (Inr (i, p)) \<Longrightarrow> outside root p"
    using wr mk out by (auto simp: writeClaimCDISpec_def uid8_def Let_def split: option.splits if_splits prod.splits)
qed

lemma claim_spec_removed:
  "resctrl_kernel os root view fresh \<Longrightarrow> p = [] \<or> outside root p \<Longrightarrow> view (removeClaimCDISpec os p w) = view w"
  using kernel_outside(2) by (auto simp: removeClaimCDISpec_def)

subsection \<open>The kubelet's side\<close>

fun call_uid :: "call \<Rightarrow> string" where
  "call_uid (PrepareCall claim) = kc_uid claim"
| "call_uid (UnprepareCall claim) = kc_uid claim"

text \<open>The claims whose groups a thread may still touch.\<close>

fun pc_uids :: "string set \<Rightarrow> pc \<Rightarrow> string set" where
  "pc_uids U (Fetch claim) = {kc_uid claim}"
| "pc_uids U (Loop claim _ _) = {kc_uid claim}"
| "pc_uids U (MakeGroup j) = {kc_uid (job_claim j)}"
| "pc_uids U (MakeSpec j) = {kc_uid (job_claim j)}"
| "pc_uids U (RecordAlloc j _ _) = {kc_uid (job_claim j)}"
| "pc_uids U (UndoGroup j _) = {kc_uid (job_claim j)}"
| "pc_uids U (UndoWays j _) = {kc_uid (job_claim j)}"
| "pc_uids U (Take claim) = {kc_uid claim}"
| "pc_uids U (DropGroup a) = {u \<in> U. \<exists>k. saGroup a = claim_group k u}"
| "pc_uids U _ = {}"

definition th_uids :: "string set \<Rightarrow> thread \<Rightarrow> string set" where
  "th_uids U th = pc_uids U (th_pc th) \<union> call_uid ` set (th_calls th)"

text \<open>A new request: distinct claims that no other thread works on; prepared claims hold nothing.\<close>

definition fair_request :: "string set \<Rightarrow> 'w system \<Rightarrow> call list \<Rightarrow> bool" where
  "fair_request U s calls \<longleftrightarrow> distinct (map call_uid calls) \<and> call_uid ` set calls \<subseteq> U \<and>
     (\<forall>th \<in> set (sys_threads s). th_uids U th \<inter> call_uid ` set calls = {}) \<and>
     (\<forall>claim. PrepareCall claim \<in> set calls \<longrightarrow> structuredAllocs (sys_driver s) (kc_uid claim) = None)"

text \<open>The reachable states; other programs leave the groups of the claims alone.\<close>

inductive kernel_reach ::
  "'w os \<Rightarrow> 'w kube \<Rightarrow> string \<Rightarrow> 'w kernel_view \<Rightarrow> string set \<Rightarrow> 'w system \<Rightarrow> 'w system \<Rightarrow> bool"
  for os kube root view U s0 where
  start: "kernel_reach os kube root view U s0 s0"
| step: "kernel_reach os kube root view U s0 s \<Longrightarrow> sys_step os kube root s s' \<Longrightarrow>
    kernel_reach os kube root view U s0 s'"
| arrive: "kernel_reach os kube root view U s0 s \<Longrightarrow> fair_request U s calls \<Longrightarrow>
    kernel_reach os kube root view U s0 (s\<lparr>sys_threads := sys_threads s @ [request calls]\<rparr>)"
| environment: "kernel_reach os kube root view U s0 s \<Longrightarrow> (\<And>u. u \<in> U \<Longrightarrow> same_groups view (sys_world s) w u) \<Longrightarrow>
    kernel_reach os kube root view U s0 (s\<lparr>sys_world := w\<rparr>)"

lemma kernel_sys_reach: "kernel_reach os kube root view U s0 s \<Longrightarrow> sys_reach os kube root s0 s"
  by (induction rule: kernel_reach.induct) (auto intro: sys_reach.intros)

text \<open>The API server gives a claim at most one device of this driver on this node.\<close>

definition claim_way_results :: "Driver \<Rightarrow> alloc_result list \<Rightarrow> alloc_result list" where
  "claim_way_results d rs = filter (\<lambda>r. is_ok (parseCacheWayDeviceName (res_device r)))
     (filter (\<lambda>r. res_driver r = driverName d \<and> res_pool r = nodeName d) rs)"

definition single_device :: "'w kube \<Rightarrow> Driver \<Rightarrow> bool" where
  "single_device kube d \<longleftrightarrow> (\<forall>w ns n rc. kube_get_claim kube w ns n = Inr rc \<longrightarrow> length (way_results d rc) \<le> 1)"

lemma way_devices_Nil [simp]: "claim_way_results d [] = []"
  by (simp add: claim_way_results_def)

lemma way_devices_Cons:
  "claim_way_results d (r # rs) =
     (if res_driver r = driverName d \<and> res_pool r = nodeName d \<and> is_ok (parseCacheWayDeviceName (res_device r))
      then r # claim_way_results d rs else claim_way_results d rs)"
  by (simp add: claim_way_results_def)

lemma single_way_device:
  "single_device kube d \<Longrightarrow> kube_get_claim kube w ns n = Inr rc \<Longrightarrow> claim_allocation rc = Some rs \<Longrightarrow>
   length (claim_way_results d rs) \<le> 1"
  by (auto simp: single_device_def way_results_def own_results_def claim_way_results_def dest!: spec)

subsection \<open>The invariant\<close>

definition record_ok :: "'w kernel_view \<Rightarrow> string \<Rightarrow> string set \<Rightarrow> 'w \<Rightarrow> string \<Rightarrow> structuredAlloc \<Rightarrow> bool" where
  "record_ok view root U w u a \<longleftrightarrow> u \<in> U \<and> saGroup a = claim_group (saCacheID a) u \<and>
     mask_in view w (saCacheID a) u (saCbm a) \<and> outside root (saSpecPath a)"

fun pc_ok :: "'w kernel_view \<Rightarrow> string \<Rightarrow> string set \<Rightarrow> 'w \<Rightarrow> Driver \<Rightarrow> pc \<Rightarrow> bool" where
  "pc_ok view root U w d (Fetch claim) = (structuredAllocs d (kc_uid claim) = None)"
| "pc_ok view root U w d (Loop claim rs _) =
     (claim_way_results d rs = [] \<or> length (claim_way_results d rs) = 1 \<and> structuredAllocs d (kc_uid claim) = None)"
| "pc_ok view root U w d (MakeGroup j) =
     (structuredAllocs d (kc_uid (job_claim j)) = None \<and> claim_way_results d (job_rest j) = [] \<and> in_int (job_cache j))"
| "pc_ok view root U w d (MakeSpec j) =
     (structuredAllocs d (kc_uid (job_claim j)) = None \<and> claim_way_results d (job_rest j) = [] \<and>
      mask_in view w (job_cache j) (kc_uid (job_claim j)) (job_cbm j))"
| "pc_ok view root U w d (RecordAlloc j _ path) =
     (structuredAllocs d (kc_uid (job_claim j)) = None \<and> claim_way_results d (job_rest j) = [] \<and>
      mask_in view w (job_cache j) (kc_uid (job_claim j)) (job_cbm j) \<and> outside root path)"
| "pc_ok view root U w d (UndoGroup j _) = (structuredAllocs d (kc_uid (job_claim j)) = None)"
| "pc_ok view root U w d (DropGroup a) =
     (outside root (saSpecPath a) \<and>
      (\<exists>k u. u \<in> U \<and> saGroup a = claim_group k u \<and> structuredAllocs d u = None))"
| "pc_ok view root U w d (FreeTaken a) = outside root (saSpecPath a)"
| "pc_ok view root U w d (DropSpec a) = outside root (saSpecPath a)"
| "pc_ok view root U w d _ = True"

definition thread_ok :: "'w kernel_view \<Rightarrow> string \<Rightarrow> string set \<Rightarrow> 'w \<Rightarrow> Driver \<Rightarrow> thread \<Rightarrow> bool" where
  "thread_ok view root U w d th \<longleftrightarrow> pc_ok view root U w d (th_pc th) \<and> th_uids U th \<subseteq> U \<and>
     distinct (map call_uid (th_calls th)) \<and> pc_uids U (th_pc th) \<inter> call_uid ` set (th_calls th) = {} \<and>
     (\<forall>claim. PrepareCall claim \<in> set (th_calls th) \<longrightarrow> structuredAllocs d (kc_uid claim) = None)"

definition same_config :: "Driver \<Rightarrow> Driver \<Rightarrow> bool" where
  "same_config d d' \<longleftrightarrow> driverName d' = driverName d \<and> nodeName d' = nodeName d \<and> cdiDir d' = cdiDir d"

lemma same_config_way_devices: "same_config d d' \<Longrightarrow> claim_way_results d' = claim_way_results d"
  by (simp add: same_config_def claim_way_results_def fun_eq_iff)

text \<open>What a change keeps: nothing that belongs to the claim \<open>u\<close>.\<close>

definition untouched :: "'w kernel_view \<Rightarrow> 'w \<Rightarrow> Driver \<Rightarrow> 'w \<Rightarrow> Driver \<Rightarrow> string \<Rightarrow> bool" where
  "untouched view w d w' d' u \<longleftrightarrow> same_groups view w w' u \<and> structuredAllocs d' u = structuredAllocs d u"

lemma pc_ok_stable:
  assumes "pc_ok view root U w d p" "same_config d d'" "pc_uids U p \<subseteq> U"
    and "\<And>u. u \<in> pc_uids U p \<Longrightarrow> untouched view w d w' d' u"
  shows "pc_ok view root U w' d' p"
proof (cases p)
  case (DropGroup a)
  with assms(1) obtain k u where u: "u \<in> U" "saGroup a = claim_group k u" "structuredAllocs d u = None"
    and path: "outside root (saSpecPath a)" by auto
  with assms(4) [of u] DropGroup have "structuredAllocs d' u = None" by (auto simp: untouched_def)
  with DropGroup u path show ?thesis by auto
qed (use assms in \<open>simp_all add: untouched_def same_groups_def mask_in_def same_config_way_devices\<close>)

lemma thread_ok_stable:
  assumes "thread_ok view root U w d th" "same_config d d'"
    and "\<And>u. u \<in> th_uids U th \<Longrightarrow> untouched view w d w' d' u"
  shows "thread_ok view root U w' d' th"
proof -
  have "pc_ok view root U w' d' (th_pc th)"
  proof (rule pc_ok_stable [OF _ assms(2)])
    show "pc_ok view root U w d (th_pc th)" "pc_uids U (th_pc th) \<subseteq> U"
      using assms(1) unfolding thread_ok_def th_uids_def by blast+
    show "untouched view w d w' d' u" if "u \<in> pc_uids U (th_pc th)" for u
      using that unfolding th_uids_def by (intro assms(3)) (simp add: th_uids_def)
  qed
  moreover have "structuredAllocs d' (kc_uid claim) = None" if "PrepareCall claim \<in> set (th_calls th)" for claim
  proof -
    have "kc_uid claim \<in> th_uids U th" using that call_uid.simps(1) [of claim] unfolding th_uids_def by (metis UnCI image_eqI)
    with assms(3) [of "kc_uid claim"] assms(1) that show ?thesis by (auto simp: thread_ok_def untouched_def)
  qed
  ultimately show ?thesis using assms(1) by (simp add: thread_ok_def)
qed


subsection \<open>One step\<close>

text \<open>What a step of a thread keeps, for itself and for the others.\<close>

definition step_sound ::
  "'w kernel_view \<Rightarrow> schemata \<Rightarrow> string \<Rightarrow> string set \<Rightarrow> thread \<times> 'w \<times> Driver \<Rightarrow> thread \<times> 'w \<times> Driver \<Rightarrow> bool" where
  "step_sound view fresh root U \<equiv> \<lambda>(th, w, d) (th', w', d').
     same_config d d' \<and> thread_ok view root U w' d' th' \<and> th_uids U th' \<subseteq> th_uids U th \<and>
     (\<forall>u \<in> U. u \<notin> pc_uids U (th_pc th) \<longrightarrow> untouched view w d w' d' u) \<and>
     (\<forall>u a. structuredAllocs d' u = Some a \<longrightarrow> record_ok view root U w' u a) \<and>
     base_kept view fresh U w w'"

lemma step_soundI:
  assumes ok: "thread_ok view root U w d th"
    and recs: "\<And>u a. structuredAllocs d u = Some a \<Longrightarrow> record_ok view root U w u a"
    and config: "same_config d d'" and calls: "th_calls th' = th_calls th"
    and uids: "pc_uids U (th_pc th') \<subseteq> pc_uids U (th_pc th)" and pc: "pc_ok view root U w' d' (th_pc th')"
    and groups: "\<And>u. u \<in> U \<Longrightarrow> u \<notin> pc_uids U (th_pc th) \<Longrightarrow> same_groups view w w' u"
    and table: "\<And>u. u \<notin> pc_uids U (th_pc th) \<Longrightarrow> structuredAllocs d' u = structuredAllocs d u"
    and own: "\<And>u a. u \<in> pc_uids U (th_pc th) \<Longrightarrow> structuredAllocs d' u = Some a \<Longrightarrow> record_ok view root U w' u a"
    and base: "base_kept view fresh U w w'"
  shows "step_sound view fresh root U (th, w, d) (th', w', d')"
proof -
  have "structuredAllocs d' (kc_uid claim) = None" if c: "PrepareCall claim \<in> set (th_calls th)" for claim
  proof -
    have "kc_uid claim \<in> call_uid ` set (th_calls th)" using c by (metis call_uid.simps(1) image_eqI)
    then have "kc_uid claim \<notin> pc_uids U (th_pc th)" using ok unfolding thread_ok_def by blast
    with table ok c show ?thesis by (simp add: thread_ok_def)
  qed
  moreover have sub: "th_uids U th' \<subseteq> th_uids U th" using uids calls by (auto simp: th_uids_def)
  moreover have "pc_uids U (th_pc th') \<inter> call_uid ` set (th_calls th) = {}" "th_uids U th \<subseteq> U"
    "distinct (map call_uid (th_calls th))"
    using ok uids unfolding thread_ok_def by blast+
  ultimately have "thread_ok view root U w' d' th'"
    using pc calls unfolding thread_ok_def by auto
  moreover have "record_ok view root U w' u a" if a: "structuredAllocs d' u = Some a" for u a
  proof (cases "u \<in> pc_uids U (th_pc th)")
    case False
    with table a have r: "record_ok view root U w u a" by (intro recs) simp
    with groups [of u] False show ?thesis by (simp add: record_ok_def same_groups_def mask_in_def)
  qed (use own a in blast)
  ultimately show ?thesis using config sub groups table base by (simp add: step_sound_def untouched_def)
qed

text \<open>A step that leaves the groups and the table.\<close>

lemma step_sound_quiet:
  assumes ok: "thread_ok view root U w d th"
    and recs: "\<And>u a. structuredAllocs d u = Some a \<Longrightarrow> record_ok view root U w u a"
    and config: "same_config d d'" and calls: "th_calls th' = th_calls th"
    and uids: "pc_uids U (th_pc th') \<subseteq> pc_uids U (th_pc th)" and pc: "pc_ok view root U w' d' (th_pc th')"
    and v: "view w' = view w" and t: "structuredAllocs d' = structuredAllocs d"
  shows "step_sound view fresh root U (th, w, d) (th', w', d')"
proof (rule step_soundI [OF ok recs config calls uids pc])
  show "record_ok view root U w' u a" if "structuredAllocs d' u = Some a" for u a
    using recs [of u a] that v t by (simp add: record_ok_def mask_in_def)
qed (simp_all add: t same_view [OF v] base_kept_same)

lemma same_config_simps [simp]:
  "same_config d d" "same_config d (d\<lparr>wayAlloc := x\<rparr>)" "same_config d (d\<lparr>structuredAllocs := t\<rparr>)"
  "same_config d (report e d') = same_config d d'"
  by (simp_all add: same_config_def)

lemma device_name_in_int: "parseCacheWayDeviceName s = Inr (c, n) \<Longrightarrow> in_int c"
  by (auto simp: parseCacheWayDeviceName_def Let_def split: if_splits list.splits option.splits dest: atoi_range)

lemma fetch_sound:
  assumes ok: "thread_ok view root U w d th"
    and recs: "\<And>u a. structuredAllocs d u = Some a \<Longrightarrow> record_ok view root U w u a"
    and single: "single_device kube d" and pc: "th_pc th = Fetch claim"
    and st: "fetch_step kube claim th w d = (th', w', d')"
  shows "step_sound view fresh root U (th, w, d) (th', w', d')"
proof -
  have none: "structuredAllocs d (kc_uid claim) = None" using ok pc by (simp add: thread_ok_def)
  consider (idle) "th_pc th' = Idle" | (loop) rs where "th_pc th' = Loop claim rs []" "length (claim_way_results d rs) \<le> 1"
    using st single_way_device [OF single]
    by (fastforce simp: fetch_step_def split: sum.splits option.splits)
  then have p: "pc_ok view root U w' d' (th_pc th') \<and> pc_uids U (th_pc th') \<subseteq> pc_uids U (th_pc th)"
  proof cases
    case (loop rs)
    have "w' = w" "d' = d" using st loop(1) by (auto simp: fetch_step_def split: sum.splits option.splits)
    with loop none pc show ?thesis
      by (auto simp: le_Suc_eq)
  qed simp
  have r: "w' = w" "same_config d d'" "structuredAllocs d' = structuredAllocs d" "th_calls th' = th_calls th"
    using st by (auto simp: fetch_step_def split: sum.splits option.splits)
  then show ?thesis by (intro step_sound_quiet [OF ok recs r(2,4) p [THEN conjunct2] p [THEN conjunct1]]) simp_all
qed

lemma loop_sound:
  assumes ok: "thread_ok view root U w d th"
    and recs: "\<And>u a. structuredAllocs d u = Some a \<Longrightarrow> record_ok view root U w u a"
    and pc: "th_pc th = Loop claim results devices"
    and st: "loop_step claim results devices th w d = (th', w', d')"
  shows "step_sound view fresh root U (th, w, d) (th', w', d')"
proof -
  have left: "claim_way_results d results = [] \<or> length (claim_way_results d results) = 1 \<and> structuredAllocs d (kc_uid claim) = None"
    using ok pc by (simp add: thread_ok_def)
  have r: "w' = w" "same_config d d'" "structuredAllocs d' = structuredAllocs d" "th_calls th' = th_calls th"
    using st by (auto simp: loop_step_def split: list.splits if_splits sum.splits prod.splits)
  consider (idle) "th_pc th' = Idle"
    | (skip) r rs where "results = r # rs" "th_pc th' = Loop claim rs devices"
        "\<not> (res_driver r = driverName d \<and> res_pool r = nodeName d \<and> is_ok (parseCacheWayDeviceName (res_device r)))"
    | (make) r rs c n m where "results = r # rs" "res_driver r = driverName d" "res_pool r = nodeName d"
        "parseCacheWayDeviceName (res_device r) = Inr (c, n)"
        "th_pc th' = MakeGroup \<lparr>job_claim = claim, job_result = r, job_cache = c, job_ways = n, job_cbm = m,
           job_rest = rs, job_devices = devices\<rparr>"
    using st by (fastforce simp: loop_step_def is_ok_def split: list.splits if_splits sum.splits prod.splits)
  then have p: "pc_ok view root U w' d' (th_pc th') \<and> pc_uids U (th_pc th') \<subseteq> pc_uids U (th_pc th)"
  proof cases
    case (make r rs c n m)
    then have "claim_way_results d results = r # claim_way_results d rs" by (simp add: way_devices_Cons is_ok_def)
    with make left r pc show ?thesis
      by (auto simp: same_config_way_devices [OF r(2)] device_name_in_int)
  next
    case (skip r rs)
    then have "claim_way_results d results = claim_way_results d rs" by (auto simp: way_devices_Cons)
    with skip left r pc show ?thesis
      by (auto simp: same_config_way_devices [OF r(2)])
  qed simp
  then show ?thesis using r by (intro step_sound_quiet [OF ok recs r(2,4) p [THEN conjunct2] p [THEN conjunct1]]) simp_all
qed


lemma thread_uid:
  assumes "thread_ok view root U w d th" "u \<in> pc_uids U (th_pc th)"
  shows "u \<in> U"
  using assms unfolding thread_ok_def th_uids_def by blast

lemma group_sound:
  assumes k: "resctrl_kernel os root view fresh" and U: "uid_set U"
    and ok: "thread_ok view root U w d th"
    and recs: "\<And>u a. structuredAllocs d u = Some a \<Longrightarrow> record_ok view root U w u a"
    and pc: "th_pc th = MakeGroup j" and st: "group_step os root j th w d = (th', w', d')"
  shows "step_sound view fresh root U (th, w, d) (th', w', d')"
proof -
  let ?u = "kc_uid (job_claim j)"
  have u: "?u \<in> U" using thread_uid [OF ok] pc by simp
  have j: "structuredAllocs d ?u = None" "claim_way_results d (job_rest j) = []" "in_int (job_cache j)"
    using ok pc by (simp_all add: thread_ok_def)
  obtain e w1 where cg: "CreateGroup os root (claim_group (job_cache j) ?u)
      (buildStructuredSchemata (job_cache j) (show_hex (job_cbm j)) 0) w = (e, w1)" by fastforce
  note eff = claim_group_created [OF k U u j(3) cg]
  have w': "w' = w1" and t: "structuredAllocs d' = structuredAllocs d" and c: "same_config d d'"
    and calls: "th_calls th' = th_calls th"
    using st cg by (auto simp: group_step_def job_group_def split: option.splits)
  have "e = None \<Longrightarrow> th_pc th' = MakeSpec j" "e \<noteq> None \<Longrightarrow> \<exists>x. th_pc th' = UndoWays j x"
    using st cg by (auto simp: group_step_def job_group_def split: option.splits)
  then have "pc_ok view root U w' d' (th_pc th')" "pc_uids U (th_pc th') \<subseteq> pc_uids U (th_pc th)"
    using eff(3) j t pc w' same_config_way_devices [OF c] by (cases e; auto)+
  then show ?thesis
    using t j pc eff(1,2) w' by (intro step_soundI [OF ok recs c calls]) auto
qed

lemma spec_sound:
  assumes k: "resctrl_kernel os root view fresh" and U: "uid_set U" and dir: "cdi_outside root (cdiDir d)"
    and ok: "thread_ok view root U w d th"
    and recs: "\<And>u a. structuredAllocs d u = Some a \<Longrightarrow> record_ok view root U w u a"
    and pc: "th_pc th = MakeSpec j" and st: "spec_step os j th w d = (th', w', d')"
  shows "step_sound view fresh root U (th, w, d) (th', w', d')"
proof -
  let ?u = "kc_uid (job_claim j)"
  have u: "CHR ''/'' \<notin> set ?u" using thread_uid [OF ok] pc U by (auto simp: uid_set_def)
  obtain r w1 where wr: "writeClaimCDISpec os (cdiDir d) (hookBinPath d) ?u (job_group j) (job_cache j) (job_ways j)
      (show_hex (job_cbm j)) w = (r, w1)" by fastforce
  have w': "w' = w1" and d': "d' = d" and calls: "th_calls th' = th_calls th"
    using st wr by (auto simp: spec_step_def split: option.splits sum.splits)
  have v: "view w' = view w" using claim_spec_written(1) [OF k dir u wr] w' by simp
  consider "th_pc th' = Crashed" | x where "th_pc th' = UndoGroup j x"
    | i p where "th_pc th' = RecordAlloc j i p" "r = Some (Inr (i, p))"
    using st wr by (auto simp: spec_step_def split: option.splits sum.splits)
  then have "pc_ok view root U w' d' (th_pc th') \<and> pc_uids U (th_pc th') \<subseteq> pc_uids U (th_pc th)"
    using ok pc d' v claim_spec_written(2) [OF k dir u wr]
    by cases (auto simp: thread_ok_def mask_in_def)
  then show ?thesis using d' v by (intro step_sound_quiet [OF ok recs _ calls]) simp_all
qed

lemma record_sound:
  assumes ok: "thread_ok view root U w d th"
    and recs: "\<And>u a. structuredAllocs d u = Some a \<Longrightarrow> record_ok view root U w u a"
    and pc: "th_pc th = RecordAlloc j i p" and st: "record_step j i p th w d = (th', w', d')"
  shows "step_sound view fresh root U (th, w, d) (th', w', d')"
proof -
  let ?u = "kc_uid (job_claim j)"
  have u: "?u \<in> U" using thread_uid [OF ok] pc by simp
  have j: "claim_way_results d (job_rest j) = []" "mask_in view w (job_cache j) ?u (job_cbm j)" "outside root p"
    using ok pc by (simp_all add: thread_ok_def)
  have r: "w' = w" "d' = d\<lparr>structuredAllocs := (structuredAllocs d)(?u \<mapsto> job_alloc j p)\<rparr>"
    "th' = th\<lparr>th_pc := Loop (job_claim j) (job_rest j) (job_devices j @ [job_device j i])\<rparr>"
    using st by (auto simp: record_step_def)
  have c: "same_config d d'" by (simp add: r)
  have "record_ok view root U w ?u (job_alloc j p)"
    using u j by (simp add: record_ok_def job_alloc_def job_group_def)
  then show ?thesis
    using pc j same_config_way_devices [OF c]
    by (intro step_soundI [OF ok recs c]) (auto simp: r base_kept_same)
qed

lemma take_sound:
  assumes U: "uid_set U" and ok: "thread_ok view root U w d th"
    and recs: "\<And>u a. structuredAllocs d u = Some a \<Longrightarrow> record_ok view root U w u a"
    and pc: "th_pc th = Take claim" and st: "take_step claim th w d = (th', w', d')"
  shows "step_sound view fresh root U (th, w, d) (th', w', d')"
proof (cases "structuredAllocs d (kc_uid claim)")
  case None
  with st show ?thesis by (intro step_sound_quiet [OF ok recs]) (auto simp: take_step_def)
next
  case (Some a)
  let ?u = "kc_uid claim"
  have r: "w' = w" "d' = d\<lparr>structuredAllocs := (structuredAllocs d)(?u := None)\<rparr>" "th' = th\<lparr>th_pc := DropGroup a\<rparr>"
    using st Some by (auto simp: take_step_def)
  have a: "?u \<in> U" "saGroup a = claim_group (saCacheID a) ?u" "outside root (saSpecPath a)"
    using recs [OF Some] by (simp_all add: record_ok_def)
  have "v = ?u" if "v \<in> U" "saGroup a = claim_group k v" for v k
    by (rule claim_group_uid [OF U that(1) a(1)]) (rule trans [OF that(2) [symmetric] a(2)])
  then have uids: "pc_uids U (th_pc th') \<subseteq> pc_uids U (th_pc th)" using pc r by auto
  show ?thesis
    using pc a by (intro step_soundI [OF ok recs _ _ uids]) (auto simp: r base_kept_same)
qed

lemma delete_sound:
  assumes k: "resctrl_kernel os root view fresh" and U: "uid_set U" and ok: "thread_ok view root U w d th"
    and recs: "\<And>u a. structuredAllocs d u = Some a \<Longrightarrow> record_ok view root U w u a"
    and u: "u \<in> U" "structuredAllocs d u = None" "pc_uids U (th_pc th) = {u}"
    and w': "w' = snd (DeleteGroup os root (claim_group c u) w)"
    and r: "same_config d d'" "structuredAllocs d' = structuredAllocs d" "th_calls th' = th_calls th"
      "pc_ok view root U w' d' (th_pc th')" "pc_uids U (th_pc th') \<subseteq> {u}"
  shows "step_sound view fresh root U (th, w, d) (th', w', d')"
  using u r claim_group_deleted [OF k U u(1)] unfolding w'
  by (intro step_soundI [OF ok recs r(1,3)]) auto

lemma start_sound:
  assumes ok: "thread_ok view root U w d th"
    and recs: "\<And>u a. structuredAllocs d u = Some a \<Longrightarrow> record_ok view root U w u a"
    and pc: "th_pc th = Idle" "th_calls th = c # cs"
  shows "step_sound view fresh root U (th, w, d) (th\<lparr>th_pc := start_call c, th_calls := cs\<rparr>, w, d)"
proof -
  have "pc_uids U (start_call c) = {call_uid c}" "pc_ok view root U w d (start_call c)"
    using ok pc by (cases c; simp add: thread_ok_def)+
  then have "thread_ok view root U w d (th\<lparr>th_pc := start_call c, th_calls := cs\<rparr>)"
    "th_uids U (th\<lparr>th_pc := start_call c, th_calls := cs\<rparr>) = th_uids U th"
    using ok pc by (auto simp: thread_ok_def th_uids_def)
  then show ?thesis using recs by (simp add: step_sound_def untouched_def base_kept_same)
qed

lemma thread_step_sound:
  assumes k: "resctrl_kernel os root view fresh" and U: "uid_set U" and dir: "cdi_outside root (cdiDir d)"
    and single: "single_device kube d" and ok: "thread_ok view root U w d th"
    and recs: "\<And>u a. structuredAllocs d u = Some a \<Longrightarrow> record_ok view root U w u a"
    and st: "thread_step os kube root th w d = Some (th', w', d')"
  shows "step_sound view fresh root U (th, w, d) (th', w', d')"
proof (cases "th_pc th")
  case Idle
  then obtain c cs where "th_calls th = c # cs" using st by (auto simp: thread_step_def split: list.splits)
  with start_sound [OF ok recs Idle this] st Idle show ?thesis by (simp add: thread_step_def)
next
  case (Fetch claim)
  with st show ?thesis by (intro fetch_sound [OF ok recs single]) (simp_all add: thread_step_def)
next
  case (Loop claim rs devs)
  with st show ?thesis by (intro loop_sound [OF ok recs]) (simp_all add: thread_step_def)
next
  case (MakeGroup j)
  with st show ?thesis by (intro group_sound [OF k U ok recs]) (simp_all add: thread_step_def)
next
  case (MakeSpec j)
  with st show ?thesis by (intro spec_sound [OF k U dir ok recs]) (simp_all add: thread_step_def)
next
  case (RecordAlloc j i p)
  with st show ?thesis by (intro record_sound [OF ok recs]) (simp_all add: thread_step_def)
next
  case (UndoGroup j e)
  with st ok thread_uid [OF ok] show ?thesis
    by (intro delete_sound [OF k U ok recs, of "kc_uid (job_claim j)" _ "job_cache j"])
      (auto simp: thread_step_def thread_ok_def job_group_def)
next
  case (UndoWays j e)
  with st show ?thesis by (intro step_sound_quiet [OF ok recs]) (auto simp: thread_step_def undo_step_def)
next
  case (Take claim)
  with st show ?thesis by (intro take_sound [OF U ok recs]) (simp_all add: thread_step_def)
next
  case (DropGroup a)
  with ok obtain c u where u: "u \<in> U" "saGroup a = claim_group c u" "structuredAllocs d u = None"
    and path: "outside root (saSpecPath a)" by (auto simp: thread_ok_def)
  have "v = u" if "v \<in> U" "claim_group c u = claim_group k' v" for v k'
    by (rule claim_group_uid [OF U that(1) u(1)]) (rule that(2) [symmetric])
  then have uids: "pc_uids U (th_pc th) = {u}" using DropGroup u by auto
  show ?thesis
    using st DropGroup u(2) path
    by (intro delete_sound [OF k U ok recs u(1,3) uids, of _ c])
      (auto simp: thread_step_def drop_step_def split: prod.splits)
next
  case (FreeTaken a)
  with st ok show ?thesis
    by (intro step_sound_quiet [OF ok recs]) (auto simp: thread_step_def thread_ok_def)
next
  case (DropSpec a)
  with ok have "outside root (saSpecPath a)" by (simp add: thread_ok_def)
  then have "view (removeClaimCDISpec os (saSpecPath a) w) = view w" by (intro claim_spec_removed [OF k]) simp
  with st DropSpec show ?thesis
    by (intro step_sound_quiet [OF ok recs]) (auto simp: thread_step_def)
next
  case Crashed
  with st show ?thesis by (simp add: thread_step_def)
qed

subsection \<open>The invariant of the system\<close>

definition base_ok :: "'w kernel_view \<Rightarrow> schemata \<Rightarrow> string set \<Rightarrow> 'w \<Rightarrow> bool" where
  "base_ok view fresh U w \<longleftrightarrow>
     (\<forall>u \<in> U. \<forall>k s c. view w (claim_group k u) = Some s \<longrightarrow> c \<noteq> k \<longrightarrow> s c = fresh c)"

definition kernel_inv :: "'w kernel_view \<Rightarrow> string \<Rightarrow> string set \<Rightarrow> 'w system \<Rightarrow> bool" where
  "kernel_inv view root U s \<longleftrightarrow>
     list_all (thread_ok view root U (sys_world s) (sys_driver s)) (sys_threads s) \<and>
     (\<forall>i < length (sys_threads s). \<forall>j < length (sys_threads s). i \<noteq> j \<longrightarrow>
        th_uids U (sys_threads s ! i) \<inter> th_uids U (sys_threads s ! j) = {}) \<and>
     (\<forall>u a. structuredAllocs (sys_driver s) u = Some a \<longrightarrow> record_ok view root U (sys_world s) u a)"

lemma base_ok_kept: "base_ok view fresh U w \<Longrightarrow> base_kept view fresh U w w' \<Longrightarrow> base_ok view fresh U w'"
proof -
  assume a: "base_ok view fresh U w" "base_kept view fresh U w w'"
  have "s c = fresh c" if "u \<in> U" "view w' (claim_group k u) = Some s" "c \<noteq> k" for u k s c
  proof -
    have "s c = base_masks fresh (view w (claim_group k u)) c"
      using a(2) that unfolding base_kept_def by blast
    with a(1) that show ?thesis
      by (cases "view w (claim_group k u)") (auto simp: base_ok_def)
  qed
  then show ?thesis unfolding base_ok_def by blast
qed

lemma kernel_inv_step:
  assumes k: "resctrl_kernel os root view fresh" and U: "uid_set U"
    and dir: "cdi_outside root (cdiDir (sys_driver s))" and single: "single_device kube (sys_driver s)"
    and inv: "kernel_inv view root U s" and st: "sys_step os kube root s s'"
  shows "kernel_inv view root U s' \<and> same_config (sys_driver s) (sys_driver s') \<and>
    base_kept view fresh U (sys_world s) (sys_world s')"
proof -
  from st obtain i th w d where i: "i < length (sys_threads s)"
    and run: "thread_step os kube root (sys_threads s ! i) (sys_world s) (sys_driver s) = Some (th, w, d)"
    and s': "s' = s\<lparr>sys_world := w, sys_driver := d, sys_threads := (sys_threads s)[i := th]\<rparr>"
    by (rule sys_stepE)
  let ?ts = "sys_threads s" and ?w = "sys_world s" and ?d = "sys_driver s"
  have oks: "thread_ok view root U ?w ?d (?ts ! j)" if "j < length ?ts" for j
    using inv that by (simp add: kernel_inv_def list_all_length)
  have disj: "th_uids U (?ts ! j) \<inter> th_uids U (?ts ! l) = {}" if "j < length ?ts" "l < length ?ts" "j \<noteq> l" for j l
    using inv that by (simp add: kernel_inv_def)
  have recs: "record_ok view root U ?w u a" if "structuredAllocs ?d u = Some a" for u a
    using inv that by (simp add: kernel_inv_def)
  have sound: "step_sound view fresh root U (?ts ! i, ?w, ?d) (th, w, d)"
    by (rule thread_step_sound [OF k U dir single oks [OF i] recs run])
  then have conf: "same_config ?d d" and th: "thread_ok view root U w d th"
    and sub: "th_uids U th \<subseteq> th_uids U (?ts ! i)"
    and frame: "\<And>u. u \<in> U \<Longrightarrow> u \<notin> pc_uids U (th_pc (?ts ! i)) \<Longrightarrow> untouched view ?w ?d w d u"
    and rec': "\<And>u a. structuredAllocs d u = Some a \<Longrightarrow> record_ok view root U w u a"
    and base: "base_kept view fresh U ?w w"
    by (auto simp: step_sound_def)
  have "thread_ok view root U w d (?ts ! j)" if j: "j < length ?ts" "j \<noteq> i" for j
  proof (rule thread_ok_stable [OF oks [OF j(1)] conf])
    fix u
    assume u: "u \<in> th_uids U (?ts ! j)"
    moreover have "u \<in> U" using oks [OF j(1)] u by (auto simp: thread_ok_def)
    moreover have "u \<notin> pc_uids U (th_pc (?ts ! i))" using disj [OF j(1) i j(2)] u by (auto simp: th_uids_def)
    ultimately show "untouched view ?w ?d w d u" by (intro frame)
  qed
  then have "list_all (thread_ok view root U w d) (?ts[i := th])"
    using th i by (simp add: list_all_length nth_list_update)
  moreover have "th_uids U (?ts[i := th] ! j) \<inter> th_uids U (?ts[i := th] ! l) = {}"
    if "j < length ?ts" "l < length ?ts" "j \<noteq> l" for j l
    using disj [OF that] disj [OF that(1) i] disj [OF i that(2)] sub that(3) i
    by (auto simp: nth_list_update)
  ultimately show ?thesis using rec' conf base by (simp add: kernel_inv_def s')
qed

lemma kernel_inv_arrive:
  assumes inv: "kernel_inv view root U s" and fair: "fair_request U s calls"
  shows "kernel_inv view root U (s\<lparr>sys_threads := sys_threads s @ [request calls]\<rparr>)"
proof -
  have uids: "th_uids U (request calls) = call_uid ` set calls" by (simp add: th_uids_def request_def)
  have "thread_ok view root U (sys_world s) (sys_driver s) (request calls)"
    using fair uids by (simp add: thread_ok_def fair_request_def request_def)
  moreover have "th_uids U (sys_threads s ! j) \<inter> th_uids U (request calls) = {}" if "j < length (sys_threads s)" for j
    using fair that uids by (simp add: fair_request_def)
  ultimately show ?thesis using inv
    by (auto simp: kernel_inv_def nth_append less_Suc_eq Int_commute)
qed

lemma kernel_inv_environment:
  assumes inv: "kernel_inv view root U s" and w: "\<And>u. u \<in> U \<Longrightarrow> same_groups view (sys_world s) w u"
  shows "kernel_inv view root U (s\<lparr>sys_world := w\<rparr>)"
proof -
  have "thread_ok view root U w (sys_driver s) th" if "thread_ok view root U (sys_world s) (sys_driver s) th" for th
    using that w by (rule_tac thread_ok_stable [OF that]) (auto simp: untouched_def thread_ok_def)
  then have "list_all (thread_ok view root U w (sys_driver s)) (sys_threads s)"
    using inv by (simp add: kernel_inv_def list_all_iff)
  moreover have "record_ok view root U w u a" if "structuredAllocs (sys_driver s) u = Some a" for u a
  proof -
    have "record_ok view root U (sys_world s) u a" using inv that by (simp add: kernel_inv_def)
    with w [of u] show ?thesis by (simp add: record_ok_def mask_in_def same_groups_def)
  qed
  ultimately show ?thesis using inv by (simp add: kernel_inv_def)
qed

lemma kernel_reach_inv:
  assumes "kernel_reach os kube root view U s0 s" "resctrl_kernel os root view fresh" "uid_set U"
    and "cdi_outside root (cdiDir (sys_driver s0))" "single_device kube (sys_driver s0)" "kernel_inv view root U s0"
  shows "kernel_inv view root U s \<and> same_config (sys_driver s0) (sys_driver s) \<and>
    (base_ok view fresh U (sys_world s0) \<longrightarrow> base_ok view fresh U (sys_world s))"
  using assms
proof (induction rule: kernel_reach.induct)
  case (step s s')
  note ih = step.IH [OF step.prems]
  then have same: "driverName (sys_driver s) = driverName (sys_driver s0)" "nodeName (sys_driver s) = nodeName (sys_driver s0)"
    "cdiDir (sys_driver s) = cdiDir (sys_driver s0)" by (simp_all add: same_config_def)
  then have "way_results (sys_driver s) = way_results (sys_driver s0)" by (simp add: way_results_def fun_eq_iff)
  with step.prems(4) have single: "single_device kube (sys_driver s)" by (simp add: single_device_def)
  have dir: "cdi_outside root (cdiDir (sys_driver s))" using step.prems(3) same by simp
  from kernel_inv_step [OF step.prems(1,2) dir single conjunct1 [OF ih] step.hyps(2)] ih show ?case
    by (auto simp: same_config_def dest: base_ok_kept)
next
  case (arrive s calls)
  then show ?case using kernel_inv_arrive [OF _ arrive.hyps(2)] by simp
next
  case (environment s w)
  note ih = environment.IH [OF environment.prems]
  have "base_kept view fresh U (sys_world s) w" by (rule base_kept_same) (rule environment.hyps(2))
  with ih kernel_inv_environment [OF conjunct1 [OF ih] environment.hyps(2)] show ?case
    by (auto dest: base_ok_kept)
qed simp

lemma kernel_inv_start:
  "structuredAllocs d = Map.empty \<Longrightarrow> kernel_inv view root U \<lparr>sys_world = w, sys_driver = d, sys_threads = []\<rparr>"
  by (simp add: kernel_inv_def)

end
