(* ===== verification/KernelIsolation.thy ===== *)
theory KernelIsolation
  imports KernelProps Startup
begin

text \<open>
  From a started driver to the kernel: the theorems about what the claims of structured mode, and
  the partitions of basic mode, get from the kernel once the driver of \<open>Startup\<close> runs.
\<close>

subsection \<open>The started driver\<close>

lemma ways_per_domain_Some:
  "ways_per_domain info c = Some n \<longleftrightarrow> c \<in> set (CacheIDs info) \<and> n = NumWays info"
proof -
  have "fold (\<lambda>cacheID m. m(cacheID \<mapsto> NumWays info)) ids m c =
      (if c \<in> set ids then Some (NumWays info) else m c)" for ids m
    by (induction ids arbitrary: m) auto
  then show ?thesis by (auto simp: ways_per_domain_def)
qed

lemma ways_per_domain_inv: "way_inv (NewWayAllocator (ways_per_domain info))"
  using NumWays_bounds [of info] by (intro way_inv_new) (simp add: ways_per_domain_Some)

lemma start_driver_structured:
  assumes "start_driver os kube root node hook cdi info perCache w = Some (Started d0, w0)"
    and "PartitionableDevices (drvCaps d0)"
  shows "structured_inv d0" "totalWays (wayAlloc d0) = ways_per_domain info"
proof -
  obtain caps w1 where probe: "ProbeFeatureGates kube mainDriverName node w = (caps, w1)" by fastforce
  let ?d = "NewDriver mainDriverName node (NewAllocationState []) caps
    (NewWayAllocator (ways_per_domain info)) (Some info) hook cdi"
  have caps: "PartitionableDevices caps"
    using assms probe
    by (auto simp: start_driver_def Let_def NewDriver_def RecoverStructuredAllocs_def
        split: prod.splits option.splits if_splits)
  with assms(1) probe obtain w2 where d0: "d0 = RecoverStructuredAllocs os root w2 ?d"
    by (auto simp: start_driver_def Let_def split: prod.splits option.splits)
  have "structured_inv ?d"
    by (rule structured_inv_fresh) (simp_all add: NewDriver_def ways_per_domain_inv)
  then show "structured_inv d0" unfolding d0 by (rule RecoverStructuredAllocs_inv)
  show "totalWays (wayAlloc d0) = ways_per_domain info"
    unfolding d0 RecoverStructuredAllocs_facts by (simp add: NewDriver_def NewWayAllocator_def)
qed

lemma started_fields:
  assumes "start_driver os kube root node hook cdi info perCache w = Some (Started d0, w0)"
    and "PartitionableDevices (drvCaps d0)"
  shows "structuredAllocs d0 = Map.empty" "cdiDir d0 = cdi"
  using assms
  by (auto simp: start_driver_def Let_def NewDriver_def RecoverStructuredAllocs_def
      split: prod.splits option.splits if_splits)

text \<open>Everything that is known of a recorded claim, in the driver and in the kernel.\<close>

lemma started_claim:
  assumes "start_driver os kube root node hook cdi info perCache w = Some (Started d0, w0)"
    and "PartitionableDevices (drvCaps d0)"
    and "resctrl_kernel os root view fresh" "uid_set U" "cdi_outside root cdi" "single_device kube d0"
    and "kernel_reach os kube root view U \<lparr>sys_world = w0, sys_driver = d0, sys_threads = []\<rparr> s"
    and "structuredAllocs (sys_driver s) u = Some a"
  shows "record_ok view root U (sys_world s) u a" "good_mask (ways_per_domain info) (saCacheID a) (saCbm a)"
    "base_ok view fresh U w0 \<Longrightarrow> base_ok view fresh U (sys_world s)"
    "structuredAllocs (sys_driver s) u' = Some a' \<Longrightarrow> u' \<noteq> u \<Longrightarrow> saCacheID a' = saCacheID a \<Longrightarrow>
       way_set (saCbm a) \<inter> way_set (saCbm a') = {}"
proof -
  let ?s0 = "\<lparr>sys_world = w0, sys_driver = d0, sys_threads = []\<rparr>"
  have "kernel_inv view root U s \<and> same_config (sys_driver ?s0) (sys_driver s) \<and>
      (base_ok view fresh U (sys_world ?s0) \<longrightarrow> base_ok view fresh U (sys_world s))"
    by (rule kernel_reach_inv [OF assms(7,3,4)])
      (simp_all add: assms(5,6) started_fields [OF assms(1,2)] kernel_inv_start)
  then show "record_ok view root U (sys_world s) u a" "base_ok view fresh U w0 \<Longrightarrow> base_ok view fresh U (sys_world s)"
    using assms(8) by (simp_all add: kernel_inv_def)
  note reach = kernel_sys_reach [OF assms(7)]
  have inv: "sys_inv s"
    using sys_reach_inv [OF reach sys_inv_start] start_driver_structured(1) [OF assms(1,2)] .
  have tot: "totalWays (wayAlloc (sys_driver s)) = ways_per_domain info"
    using sys_reach_total [OF reach] start_driver_structured(2) [OF assms(1,2)] by simp
  have h: "sys_held s (Inr v) = Some (saCacheID b, saCbm b)" if "structuredAllocs (sys_driver s) v = Some b" for v b
    using that by (simp add: held_def)
  from inv h [OF assms(8)] tot show "good_mask (ways_per_domain info) (saCacheID a) (saCbm a)"
    unfolding sys_inv_def by metis
  show "way_set (saCbm a) \<inter> way_set (saCbm a') = {}"
    if "structuredAllocs (sys_driver s) u' = Some a'" "u' \<noteq> u" "saCacheID a' = saCacheID a"
  proof -
    have "Inr u \<noteq> (Inr u' :: nat + string)" using that(2) by simp
    with inv h [OF assms(8)] h [OF that(1)] that(3) show ?thesis unfolding sys_inv_def holds_def by metis
  qed
qed


text \<open>
  C3: Outside of its own domain a claim is not confined. The schemata that the driver writes name one
  domain only, and the kernel gives a new group all ways elsewhere: if the kernel had no group of
  a claim when the driver started, the group of a claim may still use, in the domain of any claim of another
  domain, every way that the other claim holds there exclusively.
\<close>

theorem claims_overlap_across_domains:
  assumes "start_driver os kube root node hook cdi info perCache w = Some (Started d0, w0)"
    and "PartitionableDevices (drvCaps d0)"
    and "resctrl_kernel os root view fresh" "uid_set U" "cdi_outside root cdi" "single_device kube d0"
    and "\<forall>u \<in> U. \<forall>c. view w0 (claim_group c u) = None"
    and "kernel_reach os kube root view U \<lparr>sys_world = w0, sys_driver = d0, sys_threads = []\<rparr> s"
    and "structuredAllocs (sys_driver s) u = Some a" "structuredAllocs (sys_driver s) u' = Some a'"
    and "saCacheID a \<noteq> saCacheID a'"
    and "fresh (saCacheID a') = Some full" "way_set full = run_set 0 (NumWays info)"
  shows "\<exists>t. view (sys_world s) (saGroup a) = Some t \<and> t (saCacheID a') = Some full \<and>
    way_set (saCbm a') \<noteq> {} \<and> way_set (saCbm a') \<subseteq> way_set full"
proof -
  note k = started_claim [OF assms(1-6,8)]
  have "base_ok view fresh U w0" using assms(7) by (simp add: base_ok_def)
  then have base: "base_ok view fresh U (sys_world s)" by (rule k(3) [OF assms(9)])
  have r: "record_ok view root U (sys_world s) u a" using k(1) [OF assms(9)] .
  then obtain t where t: "view (sys_world s) (saGroup a) = Some t" by (auto simp: record_ok_def mask_in_def)
  moreover have "t (saCacheID a') = fresh (saCacheID a')"
    using base r t assms(11) by (auto simp: base_ok_def record_ok_def)
  moreover obtain start n where m: "0 \<le> start" "0 < n" "start + n \<le> NumWays info" "way_set (saCbm a') = run_set start n"
    using k(2) [OF assms(10)] by (auto simp: good_mask_def ways_per_domain_Some)
  then have "nat start \<in> way_set (saCbm a')" "way_set (saCbm a') \<subseteq> way_set full"
    using assms(13) by (auto simp: run_set_def)
  ultimately show ?thesis using assms(12) by auto
qed

subsection \<open>A run on a concrete kernel\<close>

text \<open>Three claims: two of domain 0 and one of domain 1.\<close>

definition kfs_claim :: "string \<Rightarrow> string \<Rightarrow> ResourceClaim" where
  "kfs_claim uid device =
     \<lparr>claim_uid = uid, claim_namespace = ''default'', claim_name = ''claim-'' @ uid,
      claim_allocation = Some [\<lparr>res_request = ''cache'', res_driver = mainDriverName, res_pool = ''node1'',
                                res_device = device\<rparr>]\<rparr>"

definition kfs_kube :: "groups kube" where
  "kfs_kube = (list_kube [kfs_claim ''uid-0001'' ''cache0-5way'', kfs_claim ''uid-0002'' ''cache0-3way'',
      kfs_claim ''uid-0003'' ''cache1-4way''])
     \<lparr>kube_create_slice := (\<lambda>w dry s. (Inr s, w))\<rparr>"

definition kfs_driver :: Driver where
  "kfs_driver = NewDriver mainDriverName ''node1'' (NewAllocationState [])
     \<lparr>PartitionableDevices = True, ConsumableCapacity = True\<rparr>
     (NewWayAllocator (ways_per_domain example_info)) (Some example_info) ''/hook'' ''/cdi''"

lemma kfs_start:
  "start_driver kfs kfs_kube ''/r'' ''node1'' ''/hook'' ''/cdi'' example_info [] [] = Some (Started kfs_driver, [])"
proof -
  have probe: "ProbeFeatureGates kfs_kube mainDriverName ''node1'' [] =
      (\<lparr>PartitionableDevices = True, ConsumableCapacity = True\<rparr>, [])"
    by (simp add: ProbeFeatureGates_def probePartitionableDevices_def probeConsumableCapacity_def
        kfs_kube_def probe_slice_def Let_def)
  have pub: "PublishSlices kfs_kube sp [] [] = (None, [])" for sp
    by (simp add: PublishSlices_def kfs_kube_def Let_def)
  have rec: "RecoverStructuredAllocs kfs ''/r'' [] kfs_driver = kfs_driver"
    by (simp add: RecoverStructuredAllocs_def RebuildFromResctrl_def kfs_driver_def NewDriver_def kfs_def Let_def)
  show ?thesis by (simp add: start_driver_def probe pub rec [unfolded kfs_driver_def] kfs_driver_def Let_def)
qed

lemma kfs_get:
  "kube_get_claim kfs_kube w ns n = Inr rc \<Longrightarrow> length (way_results d rc) \<le> 1"
  by (auto simp: kfs_kube_def list_kube_def way_results_def own_results_def kfs_claim_def
      split: option.splits if_splits intro: order_trans [OF length_filter_le])

lemma kfs_single: "single_device kfs_kube d"
  unfolding single_device_def using kfs_get by blast

lemma kfs_uids: "uid_set {''uid-0001'', ''uid-0002'', ''uid-0003''}"
  by (simp add: uid_set_def sanitizeUID_def str_remove_def)

lemma kfs_cdi: "cdi_outside ''/r'' ''/cdi''"
proof -
  have "path_join [''/cdi'', f] = ''/cdi/'' @ f" if "plain_name f" for f
    using path_join_plain [of "''/cdi''" "[f]"] that by (simp add: render_path_def go_eval)
  then show ?thesis by (simp add: cdi_outside_def outside_def has_prefix_def)
qed

lemma kfs_create:
  assumes "group_name g" "in_int c" "map_of w g = None"
  shows "CreateGroup kfs ''/r'' g (l3_line c m) w = (None, kfs_set g (kfs_fresh(c \<mapsto> m)) w)"
proof -
  have p: "plain_name g" using assms(1) by (simp add: group_name_def)
  have mk: "os_mkdir_all kfs w (path_join [''/r'', g]) = (None, kfs_set g kfs_fresh w)"
    using p assms(3) by (simp add: kfs_def)
  have "os_write_file kfs (kfs_set g kfs_fresh w) (schemata_path ''/r'' g) (l3_line c m @ newline # []) =
      (None, kfs_set g (kfs_fresh(c \<mapsto> m)) w)"
    using p assms(2) kfs_parse_line [of c m "[]"] by (simp add: kfs_def)
  moreover have "l3_line c m \<noteq> []" by (simp add: l3_line_def)
  ultimately show ?thesis using mk by (simp add: CreateGroup_def schemata_path_def [symmetric] Let_def)
qed

lemma kfs_spec:
  assumes "8 \<le> length uid" "CHR ''/'' \<notin> set uid"
  shows "\<exists>i p. writeClaimCDISpec kfs ''/cdi'' hook uid g c n hex w = (Some (Inr (i, p)), w)"
proof -
  have "plain_name (cdiVendor @ ''-claim-'' @ take 8 uid @ ''.json'')"
    using assms(2) by (auto simp: plain_name_def cdiVendor_def dest: in_set_takeD)
  with kfs_cdi have "kfs_schemata (path_join [''/cdi'', cdiVendor @ ''-claim-'' @ take 8 uid @ ''.json'']) = None"
    by (intro kfs_outside) (auto simp: cdi_outside_def)
  moreover have "kfs_group ''/cdi'' = None" using kfs_cdi by (intro kfs_outside) (simp add: cdi_outside_def)
  ultimately show ?thesis using assms(1) by (simp add: writeClaimCDISpec_def uid8_def kfs_def Let_def)
qed

lemma kfs_prepare:
  assumes "kube_get_claim kfs_kube w (kc_namespace (ex_kclaim uid)) (kc_name (ex_kclaim uid)) = Inr (kfs_claim uid dev)"
    and "parseCacheWayDeviceName dev = Inr (c, n)" "WayAllocate c n (wayAlloc d) = (Inr m, a)"
    and "8 \<le> length uid" "CHR ''/'' \<notin> set uid" "map_of w (claim_group c uid) = None"
    and d: "driverName d = mainDriverName" "nodeName d = ''node1''" "cdiDir d = ''/cdi''"
  obtains r d' p where "prepareClaimStructured kfs kfs_kube ''/r'' (ex_kclaim uid) w d =
      (Some r, kfs_set (claim_group c uid) (kfs_fresh(c \<mapsto> m)) w, d')"
    "wayAlloc d' = a" "same_config d d'" "drvCaps d' = drvCaps d"
    "structuredAllocs d' = (structuredAllocs d)(uid \<mapsto>
       \<lparr>saCacheID = c, saWays = n, saCbm = m, saGroup = claim_group c uid, saSpecPath = p\<rparr>)"
proof -
  let ?w1 = "kfs_set (claim_group c uid) (kfs_fresh(c \<mapsto> m)) w"
  have cg: "CreateGroup kfs ''/r'' (claim_group c uid) (buildStructuredSchemata c (show_hex m) 0) w = (None, ?w1)"
    unfolding structured_schemata_text
    using claim_group_name [OF assms(5)] device_name_in_int [OF assms(2)] assms(6) by (rule kfs_create)
  obtain i p where wr: "writeClaimCDISpec kfs ''/cdi'' (hookBinPath d) uid (claim_group c uid) c n (show_hex m) ?w1 =
      (Some (Inr (i, p)), ?w1)"
    using kfs_spec [OF assms(4,5)] by blast
  have uid: "kc_uid (ex_kclaim uid) = uid" by (simp add: ex_kclaim_def)
  let ?a = "\<lparr>saCacheID = c, saWays = n, saCbm = m, saGroup = claim_group c uid, saSpecPath = p\<rparr>"
  let ?d' = "report (Inc PrepareTotal [''success'']) (report (Inc ResctrlGroupCreateTotal [''success''])
      (d\<lparr>wayAlloc := a, structuredAllocs := (structuredAllocs d)(uid \<mapsto> ?a)\<rparr>))"
  show thesis
  proof (rule that)
    show "prepareClaimStructured kfs kfs_kube ''/r'' (ex_kclaim uid) w d =
        (Some \<lparr>pr_devices = [\<lparr>pd_requests = [''cache''], pd_pool = ''node1'', pd_device = dev, pd_cdi_ids = [i]\<rparr>], pr_error = None\<rparr>,
         ?w1, ?d')"
      unfolding prepareClaimStructured_def assms(1) uid
      using cg wr by (simp add: kfs_claim_def structured_step_def d assms(2,3) Let_def)
  qed (simp_all add: report_def same_config_def)
qed

lemma kernel_reach_solo:
  assumes "solo os kube root (th, w, d) (th', w', d')"
    and "kernel_reach os kube root view U s0 \<lparr>sys_world = w, sys_driver = d, sys_threads = ts @ [th]\<rparr>"
  shows "kernel_reach os kube root view U s0 \<lparr>sys_world = w', sys_driver = d', sys_threads = ts @ [th']\<rparr>"
  using assms
proof (induction "(th, w, d)" "(th', w', d')" arbitrary: th w d rule: solo.induct)
  case (go th w d s')
  obtain t1 w1 d1 where s': "s' = (t1, w1, d1)" using prod_cases3 by blast
  let ?s = "\<lparr>sys_world = w, sys_driver = d, sys_threads = ts @ [th]\<rparr>"
  have "sys_step os kube root ?s \<lparr>sys_world = w1, sys_driver = d1, sys_threads = ts @ [t1]\<rparr>"
    using sys_step.run [of "length ts" ?s os kube root t1 w1 d1] go.hyps(1) s' by simp
  with go.prems have "kernel_reach os kube root view U s0 \<lparr>sys_world = w1, sys_driver = d1, sys_threads = ts @ [t1]\<rparr>"
    by (rule kernel_reach.step)
  then show ?case by (rule go.hyps(3) [OF s'])
qed simp

text \<open>A request with one claim that runs on its own.\<close>

definition served :: "thread \<Rightarrow> bool" where
  "served th \<longleftrightarrow> th_calls th = [] \<and> th_pc th = Idle"

lemma served_uids: "served th \<Longrightarrow> th_uids U th = {}"
  by (simp add: served_def th_uids_def)

lemma kernel_reach_prepare:
  assumes reach: "kernel_reach os kube root view U s0 \<lparr>sys_world = w, sys_driver = d, sys_threads = ts\<rparr>"
    and ts: "list_all served ts" and caps: "PartitionableDevices (drvCaps d)"
    and new: "kc_uid claim \<in> U" "structuredAllocs d (kc_uid claim) = None"
    and p: "prepareClaimStructured os kube root claim w d = (Some r, w', d')"
  shows "\<exists>th. served th \<and>
    kernel_reach os kube root view U s0 \<lparr>sys_world = w', sys_driver = d', sys_threads = ts @ [th]\<rparr>"
proof -
  let ?s = "\<lparr>sys_world = w, sys_driver = d, sys_threads = ts\<rparr>"
  have "fair_request U ?s [PrepareCall claim]"
    using ts new by (auto simp: fair_request_def list_all_iff served_uids)
  from kernel_reach.arrive [OF reach this]
  have at_start: "kernel_reach os kube root view U s0
      \<lparr>sys_world = w, sys_driver = d, sys_threads = ts @ [request [PrepareCall claim]]\<rparr>" by simp
  have "prepare_claims os kube root [] [claim] Map.empty w d = (Some [kc_uid claim \<mapsto> r], w', d')"
    using caps p by simp
  from solo_prepare_claims [OF caps this]
  have "solo os kube root (request [PrepareCall claim], w, d)
      (\<lparr>th_pc = Idle, th_calls = [], th_resp = [kc_uid claim \<mapsto> r]\<rparr>, w', d')"
    by (auto simp: request_def)
  from kernel_reach_solo [OF this at_start] show ?thesis
    by (intro exI [of _ "\<lparr>th_pc = Idle, th_calls = [], th_resp = [kc_uid claim \<mapsto> r]\<rparr>"]) (simp add: served_def)
qed

lemma kfs_names:
  "parseCacheWayDeviceName ''cache0-5way'' = Inr (0, 5)" "parseCacheWayDeviceName ''cache0-3way'' = Inr (0, 3)"
  "parseCacheWayDeviceName ''cache1-4way'' = Inr (1, 4)"
  using device_name_parse [of 0 5] device_name_parse [of 0 3] device_name_parse [of 1 4]
  by (simp_all add: in_int_def show_evals)

lemma kfs_claims:
  "kube_get_claim kfs_kube w (kc_namespace (ex_kclaim ''uid-0001'')) (kc_name (ex_kclaim ''uid-0001'')) =
     Inr (kfs_claim ''uid-0001'' ''cache0-5way'')"
  "kube_get_claim kfs_kube w (kc_namespace (ex_kclaim ''uid-0002'')) (kc_name (ex_kclaim ''uid-0002'')) =
     Inr (kfs_claim ''uid-0002'' ''cache0-3way'')"
  "kube_get_claim kfs_kube w (kc_namespace (ex_kclaim ''uid-0003'')) (kc_name (ex_kclaim ''uid-0003'')) =
     Inr (kfs_claim ''uid-0003'' ''cache1-4way'')"
  by (simp_all add: kfs_kube_def list_kube_def ex_kclaim_def kfs_claim_def)

lemma kfs_groups:
  "claim_group 0 ''uid-0001'' = ''dra-c0-uid0001''" "claim_group 0 ''uid-0002'' = ''dra-c0-uid0002''"
  "claim_group 1 ''uid-0003'' = ''dra-c1-uid0003''"
  by (simp_all add: claim_group_def sanitizeUID_def str_remove_def show_evals)

text \<open>The three claims are prepared one after the other.\<close>

lemma kfs_run:
  obtains s a1 a2 a3 where
    "kernel_reach kfs kfs_kube ''/r'' map_of {''uid-0001'', ''uid-0002'', ''uid-0003''}
       \<lparr>sys_world = [], sys_driver = kfs_driver, sys_threads = []\<rparr> s"
    "structuredAllocs (sys_driver s) ''uid-0001'' = Some a1" "saCacheID a1 = 0" "saCbm a1 = 0x1f"
    "structuredAllocs (sys_driver s) ''uid-0002'' = Some a2" "saCacheID a2 = 0" "saCbm a2 = 0xe0"
    "structuredAllocs (sys_driver s) ''uid-0003'' = Some a3" "saCacheID a3 = 1" "saCbm a3 = 0xf"
    "saGroup a1 = ''dra-c0-uid0001''"
proof -
  let ?U = "{''uid-0001'', ''uid-0002'', ''uid-0003''}"
  let ?s0 = "\<lparr>sys_world = [], sys_driver = kfs_driver, sys_threads = []\<rparr>"
  have tw: "ways_per_domain example_info 0 = Some 20" "ways_per_domain example_info 1 = Some 20"
    by (simp_all add: ways_per_domain_Some) (simp_all add: example_info_def)
  have d0: "driverName kfs_driver = mainDriverName" "nodeName kfs_driver = ''node1''" "cdiDir kfs_driver = ''/cdi''"
    "PartitionableDevices (drvCaps kfs_driver)" "structuredAllocs kfs_driver = Map.empty"
    and wa: "wayAlloc kfs_driver = NewWayAllocator (ways_per_domain example_info)"
    by (simp_all add: kfs_driver_def NewDriver_def)
  obtain x1 x2 x3 where al: "WayAllocate 0 5 (wayAlloc kfs_driver) = (Inr 0x1f, x1)"
      "WayAllocate 0 3 x1 = (Inr 0xe0, x2)" "WayAllocate 1 4 x2 = (Inr 0xf, x3)"
    using tw by (simp add: wa way_evals)
  let ?w1 = "kfs_set (claim_group 0 ''uid-0001'') (kfs_fresh(0 \<mapsto> 0x1f)) []"
  obtain r1 d1 p1 where 1: "prepareClaimStructured kfs kfs_kube ''/r'' (ex_kclaim ''uid-0001'') [] kfs_driver =
        (Some r1, ?w1, d1)" "wayAlloc d1 = x1" "same_config kfs_driver d1" "drvCaps d1 = drvCaps kfs_driver"
      "structuredAllocs d1 = (structuredAllocs kfs_driver)(''uid-0001'' \<mapsto>
       \<lparr>saCacheID = 0, saWays = 5, saCbm = 0x1f, saGroup = claim_group 0 ''uid-0001'', saSpecPath = p1\<rparr>)"
    by (rule kfs_prepare [OF kfs_claims(1) [of "[]"] kfs_names(1) al(1)]) (simp_all add: d0)
  have d1: "driverName d1 = mainDriverName" "nodeName d1 = ''node1''" "cdiDir d1 = ''/cdi''" "PartitionableDevices (drvCaps d1)"
    using 1(3,4) d0 by (simp_all add: same_config_def)
  let ?w2 = "kfs_set (claim_group 0 ''uid-0002'') (kfs_fresh(0 \<mapsto> 0xe0)) ?w1"
  obtain r2 d2 p2 where 2: "prepareClaimStructured kfs kfs_kube ''/r'' (ex_kclaim ''uid-0002'') ?w1 d1 = (Some r2, ?w2, d2)"
      "wayAlloc d2 = x2" "same_config d1 d2" "drvCaps d2 = drvCaps d1"
      "structuredAllocs d2 = (structuredAllocs d1)(''uid-0002'' \<mapsto>
       \<lparr>saCacheID = 0, saWays = 3, saCbm = 0xe0, saGroup = claim_group 0 ''uid-0002'', saSpecPath = p2\<rparr>)"
    by (rule kfs_prepare [OF kfs_claims(2) [of ?w1] kfs_names(2) al(2) [folded 1(2)]]) (simp_all add: d1 kfs_groups)
  have d2: "driverName d2 = mainDriverName" "nodeName d2 = ''node1''" "cdiDir d2 = ''/cdi''" "PartitionableDevices (drvCaps d2)"
    using 2(3,4) d1 by (simp_all add: same_config_def)
  let ?w3 = "kfs_set (claim_group 1 ''uid-0003'') (kfs_fresh(1 \<mapsto> 0xf)) ?w2"
  obtain r3 d3 p3 where 3: "prepareClaimStructured kfs kfs_kube ''/r'' (ex_kclaim ''uid-0003'') ?w2 d2 = (Some r3, ?w3, d3)"
      "structuredAllocs d3 = (structuredAllocs d2)(''uid-0003'' \<mapsto>
       \<lparr>saCacheID = 1, saWays = 4, saCbm = 0xf, saGroup = claim_group 1 ''uid-0003'', saSpecPath = p3\<rparr>)"
    by (rule kfs_prepare [OF kfs_claims(3) [of ?w2] kfs_names(3) al(3) [folded 2(2)]]) (simp_all add: d2 kfs_groups)
  have uids: "kc_uid (ex_kclaim u) = u" for u by (simp add: ex_kclaim_def)
  obtain t1 where "served t1" "kernel_reach kfs kfs_kube ''/r'' map_of ?U ?s0
      \<lparr>sys_world = ?w1, sys_driver = d1, sys_threads = [] @ [t1]\<rparr>"
    using kernel_reach_prepare [OF kernel_reach.start _ d0(4) _ _ 1(1), where U = ?U and view = map_of and ts = "[]"] by (auto simp: uids d0(5))
  note t1 = this
  obtain t2 where "served t2" "kernel_reach kfs kfs_kube ''/r'' map_of ?U ?s0
      \<lparr>sys_world = ?w2, sys_driver = d2, sys_threads = ([] @ [t1]) @ [t2]\<rparr>"
    using kernel_reach_prepare [OF t1(2) _ d1(4) _ _ 2(1)] t1(1) by (auto simp: uids 1(5) d0(5))
  note t2 = this
  obtain t3 where "kernel_reach kfs kfs_kube ''/r'' map_of ?U ?s0
      \<lparr>sys_world = ?w3, sys_driver = d3, sys_threads = (([] @ [t1]) @ [t2]) @ [t3]\<rparr>"
    using kernel_reach_prepare [OF t2(2) _ d2(4) _ _ 3(1)] t1(1) t2(1) by (auto simp: uids 2(5) 1(5) d0(5))
  from that [OF this] show thesis by (simp add: 3(2) 2(5) 1(5) d0(5) kfs_groups)
qed


theorem claims_overlap_across_domains_witness:
  "\<exists>d0 s t. start_driver kfs kfs_kube ''/r'' ''node1'' ''/hook'' ''/cdi'' example_info [] [] =
       Some (Started d0, []) \<and>
     kernel_reach kfs kfs_kube ''/r'' map_of {''uid-0001'', ''uid-0002'', ''uid-0003''}
       \<lparr>sys_world = [], sys_driver = d0, sys_threads = []\<rparr> s \<and>
     map_of (sys_world s) ''dra-c0-uid0001'' = Some t \<and> t 1 = Some 0xFFFFF \<and> way_set (0xf :: 64 word) \<subseteq> way_set 0xFFFFF"
proof -
  obtain s a1 a2 a3 where r: "kernel_reach kfs kfs_kube ''/r'' map_of {''uid-0001'', ''uid-0002'', ''uid-0003''}
       \<lparr>sys_world = [], sys_driver = kfs_driver, sys_threads = []\<rparr> s"
    "structuredAllocs (sys_driver s) ''uid-0001'' = Some a1" "saCacheID a1 = 0"
    "structuredAllocs (sys_driver s) ''uid-0003'' = Some a3" "saCacheID a3 = 1" "saCbm a3 = 0xf"
    "saGroup a1 = ''dra-c0-uid0001''"
    by (rule kfs_run)
  have caps: "PartitionableDevices (drvCaps kfs_driver)" by (simp add: kfs_driver_def NewDriver_def)
  have "way_set (0xFFFFF :: 64 word) = run_set 0 (NumWays example_info)"
    using way_set_mask_loop [of 20 0] by (simp add: mask_loop.simps shl1_def)
  then have "\<exists>t. map_of (sys_world s) (saGroup a1) = Some t \<and> t (saCacheID a3) = Some 0xFFFFF \<and>
      way_set (saCbm a3) \<noteq> {} \<and> way_set (saCbm a3) \<subseteq> way_set 0xFFFFF"
    using r(3,5) by (intro claims_overlap_across_domains
      [OF kfs_start caps kfs_kernel kfs_uids kfs_cdi kfs_single _ r(1,2,4)]) (simp_all add: kfs_fresh_def)
  with kfs_start r show ?thesis by (intro exI [of _ kfs_driver] exI [of _ s]) auto
qed

end
