(* ===== verification/KernelBasic.thy ===== *)
theory KernelBasic
  imports KernelIsolation InventoryProps
begin

text \<open>
  Basic mode on a resctrl kernel: what the groups of the partitions have once the driver has started, and
  what the default group, with all tasks that no partition owns, still has. The kernel's table of the
  default group is at the name \<open>[]\<close>.
\<close>

subsection \<open>The schemata of a partition\<close>

definition written_mask :: "CachePartition \<Rightarrow> 64 word \<Rightarrow> bool" where
  "written_mask p m \<longleftrightarrow> CBM p = show_hex m \<and> newline \<notin> set (L2CBM p)"

lemma no_l3_lines:
  assumes "\<forall>l \<in> set ls. newline \<notin> set l \<and> \<not> has_prefix ''L3:'' l" "ls \<noteq> []"
  shows "no_l3_line (str_join [newline] ls @ [newline])"
proof -
  have "str_split newline (str_join [newline] ls) = ls" using assms by (intro str_split_join) auto
  then have "str_split newline (str_join [newline] ls @ newline # []) = ls @ [[]]" by (simp add: str_split_app)
  then show ?thesis using assms(1) by (auto simp: no_l3_line_def has_prefix_def)
qed

lemma combined_schemata_text:
  assumes "written_mask p m"
  obtains rest where "FormatCombinedSchemata p @ [newline] = l3_line (CacheID p) m @ newline # rest" "no_l3_line rest"
proof -
  define ls where "ls = (if L2CBM p \<noteq> [] then [''L2:'' @ show_int (CacheID p) @ ''='' @ L2CBM p] else [])
        @ (if 0 < MBAThrottle p then [FormatMBASchemata (CacheID p) (MBAThrottle p)] else [])
        @ (if 0 < SMBAThrottle p then [FormatSMBASchemata (CacheID p) (SMBAThrottle p)] else [])"
  have head: "FormatCombinedSchemata p = str_join [newline] (l3_line (CacheID p) m # ls)"
    using assms by (simp add: FormatCombinedSchemata_def FormatSchemata_def written_mask_def l3_line_def ls_def)
  have ok: "\<forall>l \<in> set ls. newline \<notin> set l \<and> \<not> has_prefix ''L3:'' l"
    using assms by (auto simp: FormatMBASchemata_def FormatSMBASchemata_def written_mask_def has_prefix_def ls_def)
  show thesis
  proof (cases "ls = []")
    case True
    then show thesis by (intro that [of "[]"]) (simp_all add: head)
  next
    case False
    then show thesis using no_l3_lines [OF ok False]
      by (intro that [of "str_join [newline] ls @ [newline]"]) (simp_all add: head str_join_Cons)
  qed
qed

subsection \<open>Creating the groups\<close>

definition creatable :: "CachePartition \<Rightarrow> bool" where
  "creatable p \<longleftrightarrow> group_name (ResctrlGroup p) \<and> in_int (CacheID p) \<and> (\<exists>m. written_mask p m)"

lemma create_groups_kernel:
  assumes k: "resctrl_kernel os root view fresh"
    and ps: "\<forall>p \<in> set ps. creatable p" "distinct (map ResctrlGroup ps)"
    and cg: "create_groups os root ps w = (None, w')"
  shows "(\<forall>p \<in> set ps. \<exists>t m. view w' (ResctrlGroup p) = Some t \<and> t (CacheID p) = Some m \<and> CBM p = show_hex m) \<and>
    (\<forall>g. g \<notin> ResctrlGroup ` set ps \<longrightarrow> view w' g = view w g)"
  using ps cg
proof (induction ps arbitrary: w)
  case (Cons p ps)
  obtain m where p: "group_name (ResctrlGroup p)" "in_int (CacheID p)" "written_mask p m"
    using Cons.prems(1) by (auto simp: creatable_def)
  obtain rest where sch: "FormatCombinedSchemata p @ [newline] = l3_line (CacheID p) m @ newline # rest" "no_l3_line rest"
    by (rule combined_schemata_text [OF p(3)])
  then have ne: "FormatCombinedSchemata p \<noteq> []" by (auto simp: l3_line_def)
  obtain w1 where c: "CreateGroup os root (ResctrlGroup p) (FormatCombinedSchemata p) w = (None, w1)"
    and cs: "create_groups os root ps w1 = (None, w')"
    using Cons.prems(3) by (auto split: prod.splits option.splits)
  note eff = CreateGroup_kernel [OF k p(1,2) sch(2,1) ne c]
  have ih: "\<forall>p \<in> set ps. \<exists>t m. view w' (ResctrlGroup p) = Some t \<and> t (CacheID p) = Some m \<and> CBM p = show_hex m"
    "\<forall>g. g \<notin> ResctrlGroup ` set ps \<longrightarrow> view w' g = view w1 g"
    using Cons.IH [OF _ _ cs] Cons.prems(1,2) by simp_all
  have "view w' (ResctrlGroup p) = view w1 (ResctrlGroup p)" using ih(2) Cons.prems(2) by simp
  then have "\<exists>t m. view w' (ResctrlGroup p) = Some t \<and> t (CacheID p) = Some m \<and> CBM p = show_hex m"
    using eff(2) p(3) by (auto simp: written_mask_def)
  with ih eff(1) show ?case by auto
qed simp

text \<open>The partitions of an inventory can be created, and the settings of bandwidth and L2 keep that.\<close>

definition all_creatable :: "CachePartition list list \<Rightarrow> bool" where
  "all_creatable pc \<longleftrightarrow> (\<forall>p \<in> set (AllPartitions pc). creatable p)"

lemma all_creatable_map: "(\<And>p. creatable p \<Longrightarrow> creatable (f p)) \<Longrightarrow> all_creatable pc \<Longrightarrow> all_creatable (map (map f) pc)"
  by (auto simp: all_creatable_def AllPartitions_def)

lemma all_creatable_configure:
  "all_creatable pc \<Longrightarrow> all_creatable (configure_mba os root w bw pc)"
  "all_creatable pc \<Longrightarrow> all_creatable (configure_smba os root w bw pc)"
  "all_creatable pc \<Longrightarrow> all_creatable (configure_l2 os root w pc)"
  by (auto simp: configure_mba_def configure_smba_def configure_l2_def ApplyMBA_def ApplySMBA_def ApplyL2_def Let_def
      creatable_def written_mask_def intro!: all_creatable_map split: sum.splits)

lemma PartitionCache_creatable:
  assumes "PartitionCache info specs n z c = Inr pc" "well_sized specs" "valid_cache_ids (CacheIDs info)"
  shows "all_creatable pc"
proof -
  have "creatable (make_partition info n z c d s (int k) w)" if "d \<in> set (CacheIDs info)" for d s k w
  proof -
    let ?p = "make_partition info n z c d s (int k) w"
    have "has_prefix ''dra-c'' (''dra-c'' @ ''ache'' @ show_int d @ ''-part'' @ show_int (int k))"
      by (rule has_prefix_append)
    then have "group_name (ResctrlGroup ?p)"
      by (auto simp: group_name_def plain_name_def make_partition_def Let_def)
    moreover have "written_mask ?p (buildCBM s w)"
      by (simp add: written_mask_def make_partition_def Let_def)
    moreover have "in_int (CacheID ?p)"
      using assms(3) that by (simp add: valid_cache_ids_def make_partition_def Let_def)
    ultimately show ?thesis unfolding creatable_def by blast
  qed
  then show ?thesis unfolding all_creatable_def AllPartitions_eq [OF assms(1,2)] by auto
qed

lemma same_masks_groups: "same_masks pc pc' \<Longrightarrow> map ResctrlGroup (AllPartitions pc') = map ResctrlGroup (AllPartitions pc)"
proof -
  assume "same_masks pc pc'"
  then have "list_all2 same_mask (AllPartitions pc) (AllPartitions pc')"
    unfolding same_masks_def AllPartitions_def by (induction rule: list_all2_induct) (auto intro: list_all2_appendI)
  then show ?thesis by (induction rule: list_all2_induct) (auto simp: same_mask_def)
qed

lemma PartitionCache_groups:
  assumes "PartitionCache info specs n z c = Inr pc" "well_sized specs" "valid_cache_ids (CacheIDs info)"
  shows "distinct (map ResctrlGroup (AllPartitions pc))"
  by (rule distinct_names [OF assms, where prefix = "''dra-cache''"]) (simp add: part_name_def)

text \<open>The sizes that the flags ask for have totals in the range of an \<open>int\<close>.\<close>

definition sane_flags :: "int \<Rightarrow> string \<Rightarrow> bool" where
  "sane_flags count sizes \<longleftrightarrow> in_int count \<and> (\<forall>specs. ParsePartitionSizes sizes = Inr specs \<longrightarrow> well_sized specs)"

lemma inventory_groups:
  assumes "build_inventory os root count sizes mba smba w = Some (Started (info, perCache))"
    and "sane_flags count sizes" "valid_cache_ids (CacheIDs info)"
  obtains specs n z c pc where "PartitionCache info specs n z c = Inr pc" "well_sized specs" "same_masks pc perCache"
    "all_creatable perCache" "distinct (map ResctrlGroup (AllPartitions perCache))"
proof -
  obtain specs n z c pc where
    specs: "if sizes = [] then specs = SpecsFromCount count (NumWays info) else ParsePartitionSizes sizes = Inr specs"
    and pc: "PartitionCache info specs n z c = Inr pc"
    and eq: "perCache = configure_l2 os root w (configure_smba os root w smba (configure_mba os root w mba pc))"
    using assms(1) by (auto simp: build_inventory_def Let_def split: if_splits sum.splits option.splits)
  have ws: "well_sized specs"
  proof (cases "sizes = []")
    case True
    with specs have s: "specs = SpecsFromCount count (NumWays info)" by simp
    have "specs \<noteq> []" using pc by (auto simp: PartitionCache_def validate_specs_def)
    then have "0 < count" by (auto simp: s SpecsFromCount_def split: if_splits)
    then show ?thesis
      using SpecsFromCount_facts(3) [of count "NumWays info"] NumWays_bounds [of info] assms(2)
      by (simp add: s sane_flags_def in_int_NumWays)
  qed (use specs assms(2) in \<open>simp add: sane_flags_def\<close>)
  have same: "same_masks pc perCache"
    unfolding eq by (rule same_masks_trans [OF same_masks_trans [OF same_masks_configure(1) same_masks_configure(2)] same_masks_configure(3)])
  have "all_creatable perCache"
    unfolding eq by (intro all_creatable_configure PartitionCache_creatable [OF pc ws assms(3)])
  moreover have "distinct (map ResctrlGroup (AllPartitions perCache))"
    using PartitionCache_groups [OF pc ws assms(3)] same_masks_groups [OF same] by simp
  ultimately show thesis using that pc ws same by blast
qed

subsection \<open>The rest of the startup\<close>

text \<open>Calls to the API server do not change the kernel.\<close>

definition kube_outside :: "'w kube \<Rightarrow> 'w kernel_view \<Rightarrow> bool" where
  "kube_outside kube view \<longleftrightarrow>
     (\<forall>w dry s. view (snd (kube_create_slice kube w dry s)) = view w) \<and>
     (\<forall>w s. view (snd (kube_update_slice kube w s)) = view w)"

lemma kube_create_view: "kube_outside kube view \<Longrightarrow> kube_create_slice kube w dry s = (r, w') \<Longrightarrow> view w' = view w"
  unfolding kube_outside_def by (metis snd_conv)

lemma kube_update_view: "kube_outside kube view \<Longrightarrow> kube_update_slice kube w s = (r, w') \<Longrightarrow> view w' = view w"
  unfolding kube_outside_def by (metis snd_conv)

lemma probe_view: "kube_outside kube view \<Longrightarrow> ProbeFeatureGates kube drv node w = (caps, w') \<Longrightarrow> view w' = view w"
proof -
  assume k: "kube_outside kube view" and p: "ProbeFeatureGates kube drv node w = (caps, w')"
  obtain b1 w1 where 1: "probePartitionableDevices kube drv node w = (b1, w1)" by fastforce
  then obtain b2 where 2: "probeConsumableCapacity kube drv node w1 = (b2, w')"
    using p by (auto simp: ProbeFeatureGates_def split: prod.splits)
  have "view w1 = view w"
    using 1 unfolding probePartitionableDevices_def
    by (auto dest!: kube_create_view [OF k] split: prod.splits sum.splits)
  moreover have "view w' = view w1"
    using 2 unfolding probeConsumableCapacity_def
    by (auto dest!: kube_create_view [OF k] split: prod.splits sum.splits list.splits option.splits)
  ultimately show ?thesis by simp
qed

lemma publish_view: "kube_outside kube view \<Longrightarrow> PublishSlices kube sp pc w = (e, w') \<Longrightarrow> view w' = view w"
proof -
  assume k: "kube_outside kube view" and p: "PublishSlices kube sp pc w = (e, w')"
  then show ?thesis unfolding PublishSlices_def Let_def
    by (auto dest!: kube_create_view [OF k] kube_update_view [OF k]
        split: prod.splits sum.splits option.splits if_splits)
qed

lemma specs_view:
  assumes k: "resctrl_kernel os root view fresh" and dir: "cdi_outside root cdi"
    and wr: "WriteCDISpecs os cdi bin pc w = (e, w')"
  shows "view w' = view w"
proof -
  have "plain_name (cdiVendor @ ''-'' @ cdiClass @ ''.json'')" by (simp add: plain_name_def cdiVendor_def cdiClass_def)
  with dir have out: "outside root (node_spec_path cdi)" "outside root cdi"
    unfolding cdi_outside_def node_spec_path_def by blast+
  obtain e1 w1 where mk: "os_mkdir_all os w cdi = (e1, w1)" by fastforce
  obtain e2 w2 where w2: "os_write_file os w1 (node_spec_path cdi) (MarshalSpec (node_spec bin pc)) = (e2, w2)" by fastforce
  have "view w1 = view w" "view w2 = view w1"
    using kernel_outside(1) [OF k out(2), of w] kernel_outside(3) [OF k out(1), of w1] mk w2 by (metis snd_conv)+
  with wr mk w2 show ?thesis by (auto simp: WriteCDISpecs_def split: option.splits)
qed

lemma basic_start_view:
  assumes k: "resctrl_kernel os root view fresh" and dir: "cdi_outside root cdi" and kube: "kube_outside kube view"
    and st: "start_driver os kube root node hook cdi info perCache w = Some (Started d0, w0)"
    and basic: "\<not> PartitionableDevices (drvCaps d0)"
  obtains w1 w2 where "create_groups os root (AllPartitions perCache) w1 = (None, w2)" "view w1 = view w" "view w0 = view w2"
proof -
  obtain caps w1 where probe: "ProbeFeatureGates kube mainDriverName node w = (caps, w1)" by fastforce
  have caps: "\<not> PartitionableDevices caps"
    using basic st probe
    by (auto simp: start_driver_def Let_def NewDriver_def RecoverStructuredAllocs_def
        split: prod.splits option.splits if_splits)
  obtain w2 w3 where cg: "create_groups os root (AllPartitions perCache) w1 = (None, w2)"
    and sp: "WriteCDISpecs os cdi hook perCache w2 = (None, w3)"
    and pub: "PublishSlices kube (NewSlicePublisher mainDriverName node caps) perCache w3 = (None, w0)"
    using st probe caps by (auto simp: start_driver_def Let_def split: prod.splits option.splits)
  show thesis
    by (rule that [OF cg probe_view [OF kube probe]])
      (simp add: publish_view [OF kube pub] specs_view [OF k dir sp])
qed

subsection \<open>Partitions in the kernel\<close>

lemma partition_in_kernel:
  assumes "resctrl_kernel os root view fresh" "all_creatable perCache" "distinct (map ResctrlGroup (AllPartitions perCache))"
    and "create_groups os root (AllPartitions perCache) w = (None, w')"
    and "p \<in> set parts" "parts \<in> set perCache"
  shows "\<exists>t m. view w' (ResctrlGroup p) = Some t \<and> t (CacheID p) = Some m \<and> way_set m = partition_ways p"
proof -
  have "p \<in> set (AllPartitions perCache)" using assms(5,6) by (auto simp: AllPartitions_def)
  moreover have "\<forall>p \<in> set (AllPartitions perCache). creatable p" using assms(2) by (simp add: all_creatable_def)
  ultimately obtain t m where "view w' (ResctrlGroup p) = Some t" "t (CacheID p) = Some m" "CBM p = show_hex m"
    using create_groups_kernel [OF assms(1) _ assms(3,4)] by blast
  then show ?thesis by (auto simp: partition_ways_def parse_show_hex)
qed

text \<open>
  C14: In basic mode the kernel has the partitions when the driver starts to serve. Let the inventory be
  built from the flags and the hardware, and let the driver start on any resctrl kernel. Then for
  any two partitions of a cache domain the kernel has a group with, in that domain, exactly the ways of
  the partition, also when bandwidth and L2 lines are written with the mask, and the two groups share no way.
\<close>

theorem kernel_has_partitions:
  assumes "build_inventory os root count sizes mba smba w = Some (Started (info, perCache))"
    and "sane_flags count sizes" "valid_cache_ids (CacheIDs info)"
    and "start_driver os kube root node hook cdi info perCache w1 = Some (Started d0, w0)"
    and "\<not> PartitionableDevices (drvCaps d0)"
    and "resctrl_kernel os root view fresh" "cdi_outside root cdi" "kube_outside kube view"
    and "parts \<in> set perCache" "i < length parts" "j < length parts" "i \<noteq> j"
  shows "\<exists>t t' m m'. view w0 (ResctrlGroup (parts ! i)) = Some t \<and> view w0 (ResctrlGroup (parts ! j)) = Some t' \<and>
    CacheID (parts ! i) = CacheID (parts ! j) \<and>
    t (CacheID (parts ! i)) = Some m \<and> way_set m = partition_ways (parts ! i) \<and>
    t' (CacheID (parts ! i)) = Some m' \<and> way_set m' = partition_ways (parts ! j) \<and> way_set m \<inter> way_set m' = {}"
proof -
  obtain specs n z c pc where pc: "PartitionCache info specs n z c = Inr pc" "well_sized specs" "same_masks pc perCache"
    and cr: "all_creatable perCache" "distinct (map ResctrlGroup (AllPartitions perCache))"
    by (rule inventory_groups [OF assms(1-3)])
  obtain v1 v2 where cg: "create_groups os root (AllPartitions perCache) v1 = (None, v2)" "view w0 = view v2"
    by (rule basic_start_view [OF assms(6-8,4,5)])
  obtain ps where ps: "ps \<in> set pc" "list_all2 same_mask ps parts"
    using pc(3) assms(9) unfolding same_masks_def list_all2_conv_all_nth in_set_conv_nth by metis
  have len: "length parts = length ps" by (rule list_all2_lengthD [OF ps(2), symmetric])
  have same: "same_mask (ps ! k) (parts ! k)" if "k < length parts" for k
    using list_all2_nthD2 [OF ps(2) that] .
  obtain d where "\<And>k. k < length ps \<Longrightarrow>
      ps ! k = make_partition info n z c d (way_start specs k) (int k) (layout specs ! k)"
    using PartitionCache_parts [OF pc(1,2) ps(1)] by blast
  then have d: "CacheID (parts ! k) = d" if "k < length parts" for k
    using same [OF that] that len by (simp add: same_mask_def make_partition_def Let_def)
  have "partition_ways (parts ! i) \<inter> partition_ways (parts ! j) = {}"
    using partitions_disjoint [OF pc(1,2) ps(1), of i j] same_mask_ways [OF same] assms(10-12) len by simp
  moreover note partition_in_kernel [OF assms(6) cr cg(1) nth_mem assms(9)]
  from this [OF assms(10)] this [OF assms(11)] obtain t m t' m' where
    "view v2 (ResctrlGroup (parts ! i)) = Some t" "t (CacheID (parts ! i)) = Some m" "way_set m = partition_ways (parts ! i)"
    "view v2 (ResctrlGroup (parts ! j)) = Some t'" "t' (CacheID (parts ! j)) = Some m'" "way_set m' = partition_ways (parts ! j)"
    by blast
  ultimately show ?thesis using d [OF assms(10)] d [OF assms(11)] cg(2) by auto
qed

text \<open>
  C15: The default group keeps all ways. Starting in basic mode changes nothing in the kernel's table of the
  default group, where all tasks without a partition run. If it had every way of a domain before,
  then every partition of that domain shares all of its ways with it afterwards, although the partitions
  cover the cache so that no way is left to the default group.
\<close>

theorem default_group_shares_partitions:
  assumes "build_inventory os root count sizes mba smba w = Some (Started (info, perCache))"
    and "sane_flags count sizes" "valid_cache_ids (CacheIDs info)"
    and "start_driver os kube root node hook cdi info perCache w1 = Some (Started d0, w0)"
    and "\<not> PartitionableDevices (drvCaps d0)"
    and "resctrl_kernel os root view fresh" "cdi_outside root cdi" "kube_outside kube view"
    and "parts \<in> set perCache" "p \<in> set parts"
    and "view w1 [] = Some t0" "t0 (CacheID p) = Some full" "way_set full = run_set 0 (NumWays info)"
  shows "\<exists>t t' m. view w0 [] = Some t \<and> t (CacheID p) = Some full \<and>
    view w0 (ResctrlGroup p) = Some t' \<and> t' (CacheID p) = Some m \<and> way_set m \<subseteq> way_set full"
proof -
  obtain specs n z c pc where pc: "PartitionCache info specs n z c = Inr pc" "well_sized specs" "same_masks pc perCache"
    and cr: "all_creatable perCache" "distinct (map ResctrlGroup (AllPartitions perCache))"
    by (rule inventory_groups [OF assms(1-3)])
  obtain v1 v2 where cg: "create_groups os root (AllPartitions perCache) v1 = (None, v2)" "view v1 = view w1" "view w0 = view v2"
    by (rule basic_start_view [OF assms(6-8,4,5)])
  have creatable: "\<forall>p \<in> set (AllPartitions perCache). creatable p" using cr(1) by (simp add: all_creatable_def)
  then have "[] \<notin> ResctrlGroup ` set (AllPartitions perCache)"
    by (auto simp: creatable_def group_name_def plain_name_def)
  then have "view w0 [] = view w1 []"
    using create_groups_kernel [OF assms(6) creatable cr(2) cg(1)] cg(2,3) by simp
  moreover obtain ps k where ps: "ps \<in> set pc" "list_all2 same_mask ps parts" and k: "k < length parts" "p = parts ! k"
    using pc(3) assms(9,10) unfolding same_masks_def list_all2_conv_all_nth in_set_conv_nth by metis
  have "partition_ways p \<subseteq> way_set full"
  proof -
    have len: "k < length ps" using list_all2_lengthD [OF ps(2)] k(1) by simp
    have lay: "length ps = length (layout specs)" using PartitionCache_parts [OF pc(1,2) ps(1)] by metis
    have "partition_ways p = run_set (way_start specs k) (layout specs ! k)"
      using same_mask_ways [OF list_all2_nthD2 [OF ps(2) k(1)]] k(2) partition_ways_nth(1) [OF pc(1,2) ps(1) len] by simp
    with way_start_fits(1,3) [OF pc(1,2), of k] lay len assms(13) show ?thesis by (auto simp: run_set_def)
  qed
  moreover obtain t' m where "view v2 (ResctrlGroup p) = Some t'" "t' (CacheID p) = Some m" "way_set m = partition_ways p"
    using partition_in_kernel [OF assms(6) cr cg(1) assms(10,9)] by blast
  ultimately show ?thesis using assms(11,12) cg(3) by auto
qed

subsection \<open>A run on a concrete kernel\<close>

text \<open>The concrete kernel with the capability files of \<open>cap_fs\<close>, and an API server without the feature gates.\<close>

definition kfs_cap :: "groups os" where
  "kfs_cap = kfs\<lparr>os_stat := (\<lambda>w. mem_stat cap_fs), os_read_file := (\<lambda>w. mem_read_file cap_fs),
     os_read_dir := (\<lambda>w. mem_read_dir cap_fs)\<rparr>"

definition kfs_basic_kube :: "groups kube" where
  "kfs_basic_kube = (list_kube [])\<lparr>kube_create_slice := (\<lambda>w dry s. (if dry then Inl ''no'' else Inr s, w))\<rparr>"

lemma kfs_cap_calls:
  "os_stat kfs_cap w = os_stat mem_os cap_fs" "os_read_file kfs_cap w = os_read_file mem_os cap_fs"
  "os_read_dir kfs_cap w = os_read_dir mem_os cap_fs"
  "os_mkdir_all kfs_cap = os_mkdir_all kfs" "os_write_file kfs_cap = os_write_file kfs" "os_remove kfs_cap = os_remove kfs"
  by (simp_all add: kfs_cap_def mem_os_def)

lemma kfs_cap_kernel: "resctrl_kernel kfs_cap ''/r'' map_of kfs_fresh"
  using kfs_kernel
  by (simp add: resctrl_kernel_def mkdir_law_def rmdir_law_def schemata_law_def frame_law_def kfs_cap_calls)

lemma kfs_cap_reads:
  "readTrimmedFile kfs_cap w p = readTrimmedFile mem_os cap_fs p" "readIntFile kfs_cap w p = readIntFile mem_os cap_fs p"
  "discoverCacheIDs kfs_cap root w = discoverCacheIDs mem_os root cap_fs"
  by (simp_all add: readIntFile_def readTrimmedFile_def discoverCacheIDs_def discoverDomainIDs_def kfs_cap_calls)

lemma kfs_cap_Info: "Info kfs_cap ''/r'' w = Inr cap_info"
proof -
  have "Info kfs_cap ''/r'' w = Info mem_os ''/r'' cap_fs"
    unfolding Info_def kfs_cap_reads kfs_cap_calls ..
  then show ?thesis by (simp add: cap_Info cap_info_def)
qed

lemma kfs_cap_inventory:
  "\<exists>parts perCache. build_inventory kfs_cap ''/r'' 3 [] (- 1) (- 1) w = Some (Started (cap_info, parts # perCache)) \<and>
     length parts = 3"
proof -
  have i: "in_int 3" "in_int 20" by (simp_all add: in_int_def)
  have w: "well_sized (SpecsFromCount 3 20)" using SpecsFromCount_facts(3) [of 3 20] i by simp
  have "specs_fit cap_info (SpecsFromCount 3 20)"
    using SpecsFromCount_nonneg [of 3 20] i
    by (simp add: specs_fit_def NumWays_cap) (simp add: cap_info_def in_int_def)
  then obtain pc where p: "PartitionCache cap_info (SpecsFromCount 3 20) None None None = Inr pc"
    using PartitionCache_ok_iff [OF w] by (metis is_ok_iff)
  have av: "IsAvailable kfs_cap ''/r'' w"
    by (simp add: IsAvailable_def info_dir_exists_def kfs_cap_calls cap_paths cap_dirs)
  have dirs: "os_read_dir kfs_cap w defaultSysNodePath = Inl ''no such file or directory''"
    "os_read_dir kfs_cap w defaultSysCPUPath = Inl ''no such file or directory''"
    by (simp_all add: kfs_cap_calls mem_os_def mem_read_dir_def cap_fs_def defaultSysNodePath_def defaultSysCPUPath_def)
  have l: "\<exists>e. LookupCacheNUMA kfs_cap w [] [] = Some (Inl e)" "\<exists>e. LookupCacheSizes kfs_cap w [] = Inl e"
    "\<exists>e. LookupCacheCPUList kfs_cap w [] = Inl e"
    by (simp_all add: LookupCacheNUMA_def LookupCacheSizes_def LookupCacheCPUList_def buildCPUToNUMA_def dirs)
  let ?pc = "configure_l2 kfs_cap ''/r'' w (configure_smba kfs_cap ''/r'' w (- 1) (configure_mba kfs_cap ''/r'' w (- 1) pc))"
  have b: "build_inventory kfs_cap ''/r'' 3 [] (- 1) (- 1) w = Some (Started (cap_info, ?pc))"
    using av l p by (auto simp: build_inventory_def kfs_cap_Info NumWays_cap)
  have same: "same_masks pc ?pc"
    by (rule same_masks_trans [OF same_masks_trans [OF same_masks_configure(1) same_masks_configure(2)] same_masks_configure(3)])
  have "length (CacheIDs cap_info) = 2" by (simp add: cap_info_def)
  then have "pc \<noteq> []" using PartitionCache_layout(1) [OF p w] by auto
  then obtain ps pcs where pc: "pc = ps # pcs" by (cases pc) auto
  from same obtain parts perCache where pc': "?pc = parts # perCache" "list_all2 same_mask ps parts"
    unfolding same_masks_def pc list_all2_Cons1 by blast
  have "ps \<in> set pc" by (simp add: pc)
  from equal_split_covers [OF p [folded NumWays_cap] i(1) this] have "length parts = 3"
    using list_all2_lengthD [OF pc'(2)] by simp
  with b pc'(1) show ?thesis by metis
qed

lemma kfs_cap_create:
  assumes "creatable p"
  shows "\<exists>w'. CreateGroup kfs_cap ''/r'' (ResctrlGroup p) (FormatCombinedSchemata p) w = (None, w')"
proof -
  obtain m where p: "plain_name (ResctrlGroup p)" "in_int (CacheID p)" "written_mask p m"
    using assms by (auto simp: creatable_def group_name_def)
  obtain rest where sch: "FormatCombinedSchemata p @ [newline] = l3_line (CacheID p) m @ newline # rest"
    by (rule combined_schemata_text [OF p(3)])
  then have ne: "FormatCombinedSchemata p \<noteq> []" by (auto simp: l3_line_def)
  obtain w1 t where mk: "os_mkdir_all kfs w (path_join [''/r'', ResctrlGroup p]) = (None, w1)" "map_of w1 (ResctrlGroup p) = Some t"
    using p(1) by (cases "map_of w (ResctrlGroup p)") (simp_all add: kfs_def)
  have "\<exists>w2. os_write_file kfs w1 (schemata_path ''/r'' (ResctrlGroup p)) (FormatCombinedSchemata p @ [newline]) = (None, w2)"
    using p(1) mk(2) kfs_parse_line [OF p(2)] unfolding sch by (simp add: kfs_def)
  then show ?thesis using mk(1) ne
    by (auto simp: CreateGroup_def schemata_path_def kfs_cap_calls Let_def)
qed

lemma kfs_cap_create_all:
  "\<forall>p \<in> set ps. creatable p \<Longrightarrow> \<exists>w'. create_groups kfs_cap ''/r'' ps w = (None, w')"
proof (induction ps arbitrary: w)
  case (Cons p ps)
  then obtain w1 where "CreateGroup kfs_cap ''/r'' (ResctrlGroup p) (FormatCombinedSchemata p) w = (None, w1)"
    using kfs_cap_create [of p w] by auto
  moreover obtain w2 where "create_groups kfs_cap ''/r'' ps w1 = (None, w2)" using Cons by fastforce
  ultimately show ?case by simp
qed simp

lemma kfs_cap_kube: "kube_outside kfs_basic_kube map_of"
  by (simp add: kube_outside_def kfs_basic_kube_def list_kube_def)

lemma kfs_cap_start:
  assumes "all_creatable perCache"
  obtains d0 w0 where
    "start_driver kfs_cap kfs_basic_kube ''/r'' ''node1'' ''/hook'' ''/cdi'' cap_info perCache w = Some (Started d0, w0)"
    "\<not> PartitionableDevices (drvCaps d0)"
proof -
  have probe: "ProbeFeatureGates kfs_basic_kube mainDriverName ''node1'' w =
      (\<lparr>PartitionableDevices = False, ConsumableCapacity = False\<rparr>, w)"
    by (simp add: ProbeFeatureGates_def probePartitionableDevices_def probeConsumableCapacity_def kfs_basic_kube_def)
  obtain w2 where cg: "create_groups kfs_cap ''/r'' (AllPartitions perCache) w = (None, w2)"
    using kfs_cap_create_all assms unfolding all_creatable_def by blast
  have np: "plain_name (cdiVendor @ ''-'' @ cdiClass @ ''.json'')" by (simp add: plain_name_def cdiVendor_def cdiClass_def)
  have "outside ''/r'' ''/cdi''" "outside ''/r'' (node_spec_path ''/cdi'')"
    using kfs_cdi np unfolding cdi_outside_def node_spec_path_def by blast+
  then have "kfs_group ''/cdi'' = None" "kfs_schemata (node_spec_path ''/cdi'') = None" by (simp_all add: kfs_outside)
  then have sp: "WriteCDISpecs kfs_cap ''/cdi'' ''/hook'' perCache w2 = (None, w2)"
    unfolding WriteCDISpecs_def kfs_cap_calls by (simp add: kfs_def)
  have rec: "RecoverAllocations kfs_basic_kube w2 drv node s = Some (0, None, s)" for drv node s
    unfolding RecoverAllocations_def
    by (subst recover_pages.simps) (simp add: kfs_basic_kube_def list_kube_def)
  have pub: "PublishSlices kfs_basic_kube sp perCache w2 = (None, w2)" for sp
    by (simp add: PublishSlices_def Let_def) (simp add: kfs_basic_kube_def)
  let ?d = "fold report (startup_events perCache 0) (NewDriver mainDriverName ''node1'' (NewAllocationState perCache)
    \<lparr>PartitionableDevices = False, ConsumableCapacity = False\<rparr> (NewWayAllocator Map.empty) (Some cap_info) ''/hook'' ''/cdi'')"
  have "start_driver kfs_cap kfs_basic_kube ''/r'' ''node1'' ''/hook'' ''/cdi'' cap_info perCache w = Some (Started ?d, w2)"
    by (simp add: start_driver_def probe cg sp rec pub)
  moreover have "\<not> PartitionableDevices (drvCaps ?d)" by (simp add: NewDriver_def)
  ultimately show thesis by (rule that)
qed

lemma kfs_cap_ids: "valid_cache_ids (CacheIDs cap_info)"
  by (simp add: valid_cache_ids_def cap_info_def in_int_def)

lemma kfs_cap_flags: "sane_flags 3 []"
proof -
  have "\<not> is_ok (ParsePartitionSizes [])" by (simp add: ParsePartitionSizes_def)
  then show ?thesis by (auto simp: sane_flags_def in_int_def)
qed

theorem kernel_has_partitions_witness:
  "\<exists>parts perCache d0 w0 t m.
     build_inventory kfs_cap ''/r'' 3 [] (- 1) (- 1) [] = Some (Started (cap_info, parts # perCache)) \<and>
     start_driver kfs_cap kfs_basic_kube ''/r'' ''node1'' ''/hook'' ''/cdi'' cap_info (parts # perCache) [] =
       Some (Started d0, w0) \<and>
     map_of w0 (ResctrlGroup (parts ! 2)) = Some t \<and> t (CacheID (parts ! 0)) = Some m \<and> way_set m = partition_ways (parts ! 2)"
proof -
  obtain parts perCache where b: "build_inventory kfs_cap ''/r'' 3 [] (- 1) (- 1) [] = Some (Started (cap_info, parts # perCache))"
    and len: "length parts = 3"
    using kfs_cap_inventory by blast
  have "all_creatable (parts # perCache)" by (rule inventory_groups [OF b kfs_cap_flags kfs_cap_ids])
  then obtain d0 w0 where st: "start_driver kfs_cap kfs_basic_kube ''/r'' ''node1'' ''/hook'' ''/cdi'' cap_info (parts # perCache) [] =
       Some (Started d0, w0)" "\<not> PartitionableDevices (drvCaps d0)" by (rule kfs_cap_start)
  from kernel_has_partitions [OF b kfs_cap_flags kfs_cap_ids st kfs_cap_kernel kfs_cdi kfs_cap_kube, of parts 0 2] len
  obtain t' m' where "map_of w0 (ResctrlGroup (parts ! 2)) = Some t'" "t' (CacheID (parts ! 0)) = Some m'"
    "way_set m' = partition_ways (parts ! 2)" by auto
  with b st(1) show ?thesis by blast
qed

theorem default_group_shares_partitions_witness:
  "\<exists>parts perCache d0 w0 t t' m.
     build_inventory kfs_cap ''/r'' 3 [] (- 1) (- 1) [([], kfs_fresh)] = Some (Started (cap_info, parts # perCache)) \<and>
     start_driver kfs_cap kfs_basic_kube ''/r'' ''node1'' ''/hook'' ''/cdi'' cap_info (parts # perCache) [([], kfs_fresh)] =
       Some (Started d0, w0) \<and>
     map_of w0 [] = Some t \<and> t (CacheID (parts ! 1)) = Some 0xFFFFF \<and>
     map_of w0 (ResctrlGroup (parts ! 1)) = Some t' \<and> t' (CacheID (parts ! 1)) = Some m \<and> way_set m \<subseteq> way_set 0xFFFFF"
proof -
  let ?w = "[([], kfs_fresh)] :: groups"
  obtain parts perCache where b: "build_inventory kfs_cap ''/r'' 3 [] (- 1) (- 1) ?w = Some (Started (cap_info, parts # perCache))"
    and len: "length parts = 3"
    using kfs_cap_inventory by blast
  note g = inventory_groups [OF b kfs_cap_flags kfs_cap_ids]
  have cr: "all_creatable (parts # perCache)" by (rule g)
  then obtain d0 w0 where st: "start_driver kfs_cap kfs_basic_kube ''/r'' ''node1'' ''/hook'' ''/cdi'' cap_info (parts # perCache) ?w =
       Some (Started d0, w0)" "\<not> PartitionableDevices (drvCaps d0)" by (rule kfs_cap_start)
  obtain specs n z c pc where pc: "PartitionCache cap_info specs n z c = Inr pc" "well_sized specs" "same_masks pc (parts # perCache)"
    by (rule g)
  then obtain ps where ps: "ps \<in> set pc" "list_all2 same_mask ps parts"
    unfolding same_masks_def list_all2_Cons2 by (metis list.set_intros(1))
  obtain d where d: "d \<in> set (CacheIDs cap_info)" "length ps = length (layout specs)" and mk: "\<And>k. k < length ps \<Longrightarrow>
      ps ! k = make_partition cap_info n z c d (way_start specs k) (int k) (layout specs ! k)"
    using PartitionCache_parts [OF pc(1,2) ps(1)] by metis
  have "CacheID (parts ! 1) = d"
    using list_all2_nthD2 [OF ps(2), of 1] mk [of 1] list_all2_lengthD [OF ps(2)] len
    by (simp add: same_mask_def make_partition_def Let_def)
  then have "kfs_fresh (CacheID (parts ! 1)) = Some 0xFFFFF"
    using d(1) by (auto simp: cap_info_def kfs_fresh_def)
  moreover have "way_set (0xFFFFF :: 64 word) = run_set 0 (NumWays cap_info)"
    using way_set_mask_loop [of 20 0] by (simp add: NumWays_cap mask_loop.simps shl1_def)
  moreover have "parts ! 1 \<in> set parts" using len by simp
  ultimately have "\<exists>t t' m. map_of w0 [] = Some t \<and> t (CacheID (parts ! 1)) = Some 0xFFFFF \<and>
      map_of w0 (ResctrlGroup (parts ! 1)) = Some t' \<and> t' (CacheID (parts ! 1)) = Some m \<and> way_set m \<subseteq> way_set 0xFFFFF"
    by (intro default_group_shares_partitions 
      [OF b kfs_cap_flags kfs_cap_ids st kfs_cap_kernel kfs_cdi kfs_cap_kube, where ?t0.0 = kfs_fresh]) simp_all
  with b st(1) show ?thesis by blast
qed

end
