(* ===== verification/KernelRestart.thy ===== *)
theory KernelRestart
  imports KernelBasic
begin

text \<open>
  A restart of the driver in structured mode, with the groups of claims from before the restart still in
  the kernel. \<open>RebuildFromResctrl\<close> reads their \<open>schemata\<close> files, where the kernel prints the masks of all
  cache domains, and marks all of them.
\<close>

subsection \<open>What the driver reads back\<close>

text \<open>The mount lists the groups as directories, and a \<open>schemata\<close> file prints one line with the L3 masks of
  the domains \<open>ids\<close>.\<close>

definition kernel_prints :: "'w os \<Rightarrow> string \<Rightarrow> 'w kernel_view \<Rightarrow> int list \<Rightarrow> bool" where
  "kernel_prints os root view ids \<longleftrightarrow> ids \<noteq> [] \<and> (\<forall>c \<in> set ids. in_int c) \<and>
     (\<forall>w. \<exists>entries. os_read_dir os w root = Inr entries \<and>
        (\<forall>g. group_name g \<longrightarrow> (\<lparr>de_name = g, de_dir = True\<rparr> \<in> set entries \<longleftrightarrow> view w g \<noteq> None)) \<and>
        (\<forall>e \<in> set entries. has_prefix ''dra-c'' (de_name e) \<longrightarrow> group_name (de_name e))) \<and>
     (\<forall>w g s. group_name g \<longrightarrow> view w g = Some s \<longrightarrow>
        os_read_file os w (path_join [root, g, ''schemata'']) =
          Inr (mask_line (map (\<lambda>c. (c, the (s c))) ids) @ [newline]))"

lemma rebuilt_marks_group:
  assumes p: "kernel_prints os root view ids" and g: "group_name g" "view w g = Some s" "c \<in> set ids"
    and r: "RebuildFromResctrl os w root ''dra-c'' a = (e, a')"
  shows "way_set (the (s c)) \<subseteq> used_ways a' c" "totalWays a' = totalWays a"
proof -
  let ?masks = "\<lambda>h. map (\<lambda>c. (c, the (the (view w h) c))) ids"
  obtain entries where dir: "os_read_dir os w root = Inr entries"
    and listed: "\<And>h. group_name h \<Longrightarrow> \<lparr>de_name = h, de_dir = True\<rparr> \<in> set entries \<longleftrightarrow> view w h \<noteq> None"
    and names: "\<forall>e \<in> set entries. has_prefix ''dra-c'' (de_name e) \<longrightarrow> group_name (de_name e)"
    using p unfolding kernel_prints_def by blast
  have "?masks (de_name x) \<noteq> [] \<and> (\<forall>(c, m) \<in> set (?masks (de_name x)). in_int c) \<and>
      os_read_file os w (path_join [root, de_name x, ''schemata'']) = Inr (mask_line (?masks (de_name x)) @ [newline])"
    if x: "x \<in> set entries" "de_dir x" "has_prefix ''dra-c'' (de_name x)" for x
  proof -
    have n: "group_name (de_name x)" using names x by blast
    moreover have "x = \<lparr>de_name = de_name x, de_dir = True\<rparr>" using x(2) by (cases x) simp
    ultimately obtain t where "view w (de_name x) = Some t" using listed [OF n] x(1) by fastforce
    with p n show ?thesis unfolding kernel_prints_def by auto
  qed
  then have "way_set (map_get 0 (fold (rebuild_entry os w root ''dra-c'') entries (allocated a)) c) =
      way_set (map_get 0 (allocated a) c) \<union> group_masks entries ''dra-c'' ?masks c"
    by (intro fold_rebuild_entries) blast
  moreover have "way_set (the (s c)) \<subseteq> group_masks entries ''dra-c'' ?masks c"
  proof -
    have "\<lparr>de_name = g, de_dir = True\<rparr> \<in> {e \<in> set entries. de_dir e \<and> has_prefix ''dra-c'' (de_name e)}"
      using listed [OF g(1)] g(1,2) by (simp add: group_name_def)
    moreover have "(c, the (s c)) \<in> set (?masks g)" using g(2,3) by auto
    ultimately show ?thesis unfolding group_masks_def by (fastforce simp del: set_map)
  qed
  ultimately show "way_set (the (s c)) \<subseteq> used_ways a' c" "totalWays a' = totalWays a"
    using r dir by (auto simp: RebuildFromResctrl_def used_ways_def)
qed

subsection \<open>A domain without free ways\<close>

definition all_taken :: "WayAllocator \<Rightarrow> int \<Rightarrow> bool" where
  "all_taken a c \<longleftrightarrow> (\<exists>tw. totalWays a c = Some tw \<and> run_set 0 tw \<subseteq> used_ways a c)"

lemma all_taken_refuses: "way_inv a \<Longrightarrow> all_taken a c \<Longrightarrow> \<not> is_ok (fst (WayAllocate c n a))"
proof
  assume inv: "way_inv a" and full: "all_taken a c" and "is_ok (fst (WayAllocate c n a))"
  then obtain tw start where w: "totalWays a c = Some tw" "0 < n" "0 \<le> start" "start + n \<le> tw"
    "used_ways a c \<inter> run_set start n = {}"
    using WayAllocate_ok_iff [OF inv] by blast
  then have "nat start \<in> run_set start n" "nat start \<in> run_set 0 tw" by (simp_all add: run_set_def)
  with full w show False by (auto simp: all_taken_def)
qed

text \<open>Ways that nobody holds stay in use, whatever the requests do.\<close>

definition taken_for_ever :: "'w system \<Rightarrow> int \<Rightarrow> bool" where
  "taken_for_ever s c \<longleftrightarrow> all_taken (wayAlloc (sys_driver s)) c \<and> (\<forall>k m. sys_held s k \<noteq> Some (c, m))"

lemma taken_for_ever_step:
  assumes "sys_inv s" "taken_for_ever s c" "sys_step os kube root s s'"
  shows "taken_for_ever s' c"
proof -
  from assms(3) obtain i th w d where step: "i < length (sys_threads s)"
      "thread_step os kube root (sys_threads s ! i) (sys_world s) (sys_driver s) = Some (th, w, d)"
    and s': "s' = s\<lparr>sys_world := w, sys_driver := d, sys_threads := (sys_threads s)[i := th]\<rparr>"
    by (rule sys_stepE)
  let ?a = "wayAlloc (sys_driver s)"
  have inv: "way_inv ?a" and h: "holds used_ways (sys_held s) ?a" using assms(1) by (auto simp: sys_inv_def)
  have full: "all_taken ?a c" and free: "\<And>k m. sys_held s k \<noteq> Some (c, m)"
    using assms(2) by (auto simp: taken_for_ever_def)
  have held': "sys_held s' = (\<lambda>k. case k of Inl j \<Rightarrow> if j = i then pc_holds (th_pc th) else sys_held s (Inl j)
      | Inr u \<Rightarrow> held d u)"
    unfolding s' by (rule sys_held_run [OF step(1)])
  have cur: "pc_holds (th_pc (sys_threads s ! i)) \<noteq> Some (c, m)" for m
    using free [of "Inl i"] step(1) by simp
  have table: "held (sys_driver s) u \<noteq> Some (c, m)" for u m using free [of "Inr u"] by simp
  have keep: "taken_for_ever s' c"
    if "\<And>m. pc_holds (th_pc th) \<noteq> Some (c, m)" "\<And>u m. held d u \<noteq> Some (c, m)" "all_taken (wayAlloc d) c"
    using that free unfolding taken_for_ever_def held' by (auto simp: s' split: sum.splits if_splits)
  from step(2) show ?thesis
  proof (cases rule: thread_step_effect)
    case same
    with cur table full held_same [OF same(3)] show ?thesis by (intro keep) simp_all
  next
    case forget
    with table full held_same [OF forget(3)] show ?thesis by (intro keep) simp_all
  next
    case (acquire c' n m)
    have "is_ok (fst (WayAllocate c' n ?a))" using acquire(3) by simp
    then have ne: "c' \<noteq> c" using all_taken_refuses [OF inv full] by blast
    then have "used_ways (wayAlloc d) c = used_ways ?a c" using ways.alloc_used [OF inv acquire(3), of c] by simp
    then have "all_taken (wayAlloc d) c" using full WayAllocate_total [OF acquire(3)] by (simp add: all_taken_def)
    with acquire(2) ne table held_same [OF acquire(4)] show ?thesis by (intro keep) simp_all
  next
    case (recorded u a)
    have "held d = (held (sys_driver s))(u \<mapsto> (saCacheID a, saCbm a))"
      using recorded(4) by (auto simp: held_def)
    with recorded cur table full show ?thesis by (intro keep) auto
  next
    case (released c' m)
    then have "c' \<noteq> c" using cur by auto
    then have "used_ways (wayAlloc d) c = used_ways ?a c" using released(3) by (simp add: ways.release_used)
    then have "all_taken (wayAlloc d) c" using full released(3) by (simp add: all_taken_def)
    with released table held_same [OF released(4)] show ?thesis by (intro keep) simp_all
  next
    case (taken u a)
    have "held d = (held (sys_driver s))(u := None)" using taken(5) by (auto simp: held_def)
    moreover have "held (sys_driver s) u = Some (saCacheID a, saCbm a)" using taken(3) by (simp add: held_def)
    ultimately show ?thesis using taken table full by (intro keep) (auto split: if_splits)
  qed
qed

lemma taken_for_ever_reach:
  assumes "sys_reach os kube root s0 s" "sys_inv s0" "taken_for_ever s0 c"
  shows "taken_for_ever s c"
  using assms
proof (induction rule: sys_reach.induct)
  case (step s s')
  from taken_for_ever_step [OF sys_reach_inv [OF step.hyps(1) step.prems(1)] step.IH [OF step.prems] step.hyps(2)]
  show ?case .
next
  case (arrive s calls)
  then show ?case unfolding taken_for_ever_def sys_held_arrive by simp
next
  case (environment s w)
  then show ?case by (simp add: taken_for_ever_def)
qed

subsection \<open>The restart\<close>

lemma restarted_driver:
  assumes "start_driver os kube root node hook cdi info perCache w = Some (Started d1, w1)"
    and "PartitionableDevices (drvCaps d1)" "kube_outside kube view"
  obtains e where "view w1 = view w"
    "RebuildFromResctrl os w1 root ''dra-c'' (NewWayAllocator (ways_per_domain info)) = (e, wayAlloc d1)"
proof -
  obtain caps v where probe: "ProbeFeatureGates kube mainDriverName node w = (caps, v)" by fastforce
  let ?d = "NewDriver mainDriverName node (NewAllocationState []) caps
    (NewWayAllocator (ways_per_domain info)) (Some info) hook cdi"
  have caps: "PartitionableDevices caps"
    using assms(1,2) probe
    by (auto simp: start_driver_def Let_def NewDriver_def RecoverStructuredAllocs_def
        split: prod.splits option.splits if_splits)
  with assms(1) probe have d1: "d1 = RecoverStructuredAllocs os root w1 ?d"
    and pub: "PublishSlices kube (NewSlicePublisher mainDriverName node caps) perCache v = (None, w1)"
    by (auto simp: start_driver_def Let_def split: prod.splits option.splits)
  have "wayAlloc d1 = snd (RebuildFromResctrl os w1 root ''dra-c'' (NewWayAllocator (ways_per_domain info)))"
    using caps by (simp add: d1 RecoverStructuredAllocs_def NewDriver_def)
  then show thesis
    using that [of "fst (RebuildFromResctrl os w1 root ''dra-c'' (NewWayAllocator (ways_per_domain info)))"]
      publish_view [OF assms(3) pub] probe_view [OF assms(3) probe] by (metis prod.collapse)
qed

text \<open>
  C4: One claim that survives a restart blocks all other cache domains. Let a claim be recorded in a
  domain, let the driver restart with the kernel's groups as they are, and let \<open>c\<close> be any other domain of
  the cache, where the claim's group still has all ways. Then from the restart on, whatever requests
  arrive and however their threads interleave, every allocation in \<open>c\<close> is refused, since the recovery
  marks the masks that the kernel prints for all domains, and ways that no record holds are never released.
\<close>

theorem restart_refuses_other_domains:
  assumes "start_driver os kube root node hook cdi info perCache w = Some (Started d0, w0)"
    and "PartitionableDevices (drvCaps d0)"
    and "resctrl_kernel os root view fresh" "uid_set U" "cdi_outside root cdi" "single_device kube d0"
    and "\<forall>u \<in> U. \<forall>c. view w0 (claim_group c u) = None"
    and "kernel_reach os kube root view U \<lparr>sys_world = w0, sys_driver = d0, sys_threads = []\<rparr> s"
    and "structuredAllocs (sys_driver s) u = Some a" "\<forall>v \<in> U. same_groups view (sys_world s) w2 v"
    and "start_driver os kube root node hook cdi info perCache w2 = Some (Started d1, w1)"
    and "PartitionableDevices (drvCaps d1)" "kube_outside kube view" "kernel_prints os root view ids"
    and "c \<in> set ids" "c \<in> set (CacheIDs info)" "c \<noteq> saCacheID a"
    and "fresh c = Some full" "run_set 0 (NumWays info) \<subseteq> way_set full"
    and "sys_reach os kube root \<lparr>sys_world = w1, sys_driver = d1, sys_threads = []\<rparr> s'"
  shows "\<not> is_ok (fst (WayAllocate c n (wayAlloc (sys_driver s'))))"
proof -
  note k = started_claim [OF assms(1-6,8,9)]
  have "base_ok view fresh U w0" using assms(7) by (simp add: base_ok_def)
  then have base: "base_ok view fresh U (sys_world s)" by (rule k(3))
  have r: "u \<in> U" "saGroup a = claim_group (saCacheID a) u" using k(1) by (simp_all add: record_ok_def)
  obtain t where t: "view (sys_world s) (claim_group (saCacheID a) u) = Some t"
    using k(1) by (auto simp: record_ok_def mask_in_def)
  then have tc: "t c = Some full" using base r(1) assms(17,18) by (auto simp: base_ok_def)
  obtain e where v: "view w1 = view w2"
    and rb: "RebuildFromResctrl os w1 root ''dra-c'' (NewWayAllocator (ways_per_domain info)) = (e, wayAlloc d1)"
    by (rule restarted_driver [OF assms(11-13)])
  have "view w1 (claim_group (saCacheID a) u) = Some t" using v t assms(10) r(1) by (simp add: same_groups_def)
  moreover have "group_name (claim_group (saCacheID a) u)"
    using assms(4) r(1) by (intro claim_group_name) (simp add: uid_set_def)
  ultimately have "way_set (the (t c)) \<subseteq> used_ways (wayAlloc d1) c"
    using rebuilt_marks_group(1) [OF assms(14) _ _ assms(15) rb] by blast
  then have "all_taken (wayAlloc d1) c"
    using assms(16,19) tc start_driver_structured(2) [OF assms(11,12)]
    by (auto simp: all_taken_def ways_per_domain_Some)
  moreover have "held d1 v \<noteq> Some x" for v x by (simp add: held_def started_fields [OF assms(11,12)])
  ultimately have "taken_for_ever \<lparr>sys_world = w1, sys_driver = d1, sys_threads = []\<rparr> c"
    by (auto simp: taken_for_ever_def sys_held_def split: sum.splits)
  moreover have inv: "sys_inv \<lparr>sys_world = w1, sys_driver = d1, sys_threads = []\<rparr>"
    by (rule sys_inv_start [OF start_driver_structured(1) [OF assms(11,12)]])
  ultimately have "taken_for_ever s' c" using taken_for_ever_reach [OF assms(20)] by blast
  moreover have "sys_inv s'" by (rule sys_reach_inv [OF assms(20) inv])
  ultimately show ?thesis using all_taken_refuses by (simp add: taken_for_ever_def sys_inv_def)
qed

subsection \<open>A restart on the concrete kernel\<close>

lemma kfs_prints: "kernel_prints kfs ''/r'' map_of [0, 1]"
proof -
  have listed: "\<lparr>de_name = g, de_dir = True\<rparr> \<in> set (map (\<lambda>(g, _). \<lparr>de_name = g, de_dir = True\<rparr>) (filter (\<lambda>x. plain_name (fst x)) w)) \<longleftrightarrow>
      map_of w g \<noteq> None" if "group_name g" for g and w :: groups
    using that by (auto simp: group_name_def map_of_eq_None_iff image_iff) force
  have path: "kfs_schemata (path_join [''/r'', g, ''schemata'']) = Some g" if "plain_name g" for g
  proof -
    have "path_join [''/r'', g, ''schemata''] = (''/r/'' @ g) @ ''/schemata''"
      using path_join_r [of "[g, ''schemata'']"] that by simp
    moreover have "has_suffix ''/schemata'' ((''/r/'' @ g) @ ''/schemata'')" by (rule has_suffix_append)
    moreover have "trim_suffix ''/schemata'' ((''/r/'' @ g) @ ''/schemata'') = ''/r/'' @ g" by (rule trim_suffix_append)
    ultimately show ?thesis using child_name_r [OF that] unfolding kfs_schemata_def by simp
  qed
  show ?thesis
    unfolding kernel_prints_def
  proof (intro conjI allI impI)
    fix w :: groups
    let ?es = "map (\<lambda>(g, _). \<lparr>de_name = g, de_dir = True\<rparr>) (filter (\<lambda>x. plain_name (fst x)) w)"
    have "os_read_dir kfs w ''/r'' = Inr ?es" by (simp add: kfs_def)
    moreover have "\<forall>e \<in> set ?es. has_prefix ''dra-c'' (de_name e) \<longrightarrow> group_name (de_name e)"
      by (auto simp: group_name_def)
    ultimately show "\<exists>entries. os_read_dir kfs w ''/r'' = Inr entries \<and>
        (\<forall>g. group_name g \<longrightarrow> (\<lparr>de_name = g, de_dir = True\<rparr> \<in> set entries \<longleftrightarrow> map_of w g \<noteq> None)) \<and>
        (\<forall>e \<in> set entries. has_prefix ''dra-c'' (de_name e) \<longrightarrow> group_name (de_name e))"
      using listed by blast
  next
    fix w :: groups and g s
    assume "group_name g" "map_of w g = Some s"
    then show "os_read_file kfs w (path_join [''/r'', g, ''schemata'']) =
        Inr (mask_line (map (\<lambda>c. (c, the (s c))) [0, 1]) @ [newline])"
      by (simp add: kfs_def path kfs_print_def group_name_def)
  qed (simp_all add: in_int_def)
qed

text \<open>One claim of domain 0 is prepared, the driver restarts, and nothing can be allocated in domain 1.\<close>

theorem restart_refuses_other_domains_witness:
  "\<exists>s w1 d1. kernel_reach kfs kfs_kube ''/r'' map_of {''uid-0001'', ''uid-0002'', ''uid-0003''}
       \<lparr>sys_world = [], sys_driver = kfs_driver, sys_threads = []\<rparr> s \<and>
     start_driver kfs kfs_kube ''/r'' ''node1'' ''/hook'' ''/cdi'' example_info [] (sys_world s) = Some (Started d1, w1) \<and>
     \<not> is_ok (fst (WayAllocate 1 4 (wayAlloc d1)))"
proof -
  obtain s a1 where r: "kernel_reach kfs kfs_kube ''/r'' map_of {''uid-0001'', ''uid-0002'', ''uid-0003''}
       \<lparr>sys_world = [], sys_driver = kfs_driver, sys_threads = []\<rparr> s"
    "structuredAllocs (sys_driver s) ''uid-0001'' = Some a1" "saCacheID a1 = 0"
    by (rule kfs_run)
  have probe: "ProbeFeatureGates kfs_kube mainDriverName ''node1'' w =
      (\<lparr>PartitionableDevices = True, ConsumableCapacity = True\<rparr>, w)" for w
    by (simp add: ProbeFeatureGates_def probePartitionableDevices_def probeConsumableCapacity_def
        kfs_kube_def probe_slice_def Let_def)
  have pub: "PublishSlices kfs_kube sp [] w = (None, w)" for sp w
    by (simp add: PublishSlices_def kfs_kube_def Let_def)
  let ?d1 = "RecoverStructuredAllocs kfs ''/r'' (sys_world s) kfs_driver"
  have st: "start_driver kfs kfs_kube ''/r'' ''node1'' ''/hook'' ''/cdi'' example_info [] (sys_world s) =
      Some (Started ?d1, sys_world s)"
    by (simp add: start_driver_def probe pub kfs_driver_def Let_def)
  have caps: "PartitionableDevices (drvCaps kfs_driver)" "PartitionableDevices (drvCaps ?d1)"
    by (simp_all add: kfs_driver_def NewDriver_def RecoverStructuredAllocs_def)
  have kube: "kube_outside kfs_kube map_of" by (simp add: kube_outside_def kfs_kube_def list_kube_def)
  have "way_set (0xFFFFF :: 64 word) = run_set 0 (NumWays example_info)"
    using way_set_mask_loop [of 20 0] by (simp add: mask_loop.simps shl1_def)
  then have "\<not> is_ok (fst (WayAllocate 1 4 (wayAlloc (sys_driver
      \<lparr>sys_world = sys_world s, sys_driver = ?d1, sys_threads = []\<rparr>))))"
    using r(3) by (intro restart_refuses_other_domains
      [OF kfs_start caps(1) kfs_kernel kfs_uids kfs_cdi kfs_single _ r(1,2) _ st caps(2) kube kfs_prints])
      (auto simp: kfs_fresh_def example_info_def intro: sys_reach.start)
  with r(1) st show ?thesis by (intro exI [of _ s] exI [of _ "sys_world s"] exI [of _ ?d1]) simp
qed

end
