(* ===== verification/Ledger.thy ===== *)
theory Ledger
  imports KernelIsolation "HOL-Library.Multiset"
begin

text \<open>
  What the structured driver promises about cache ways, as an abstract machine: a ledger with the ways in
  use and the multiset of outstanding grants. The interleaved driver refines it: each step of a thread
  is one event of the ledger, and only four kinds of steps are visible. The ledger's accounting then gives
  the exact set of ways in use at every moment.
\<close>

subsection \<open>The ledger\<close>

record ledger =
  lg_used :: "int \<Rightarrow> nat set"
  lg_owned :: "(int \<times> nat set) multiset"

datatype ledger_event =
  Grant int int "nat set" | Refuse int int | Return int "nat set" | Lose int "nat set" | Internal

definition free_run :: "(int \<rightharpoonup> int) \<Rightarrow> ledger \<Rightarrow> int \<Rightarrow> int \<Rightarrow> int \<Rightarrow> bool" where
  "free_run sizes l c n start \<longleftrightarrow>
     (\<exists>size. sizes c = Some size \<and> 0 < n \<and> 0 \<le> start \<and> start + n \<le> size \<and> lg_used l c \<inter> run_set start n = {})"

text \<open>A request for \<open>n\<close> ways is granted the lowest free run, and refused only when there is none.\<close>

inductive ledger_step :: "(int \<rightharpoonup> int) \<Rightarrow> ledger \<Rightarrow> ledger_event \<Rightarrow> ledger \<Rightarrow> bool" for sizes where
  grant: "free_run sizes l c n start \<Longrightarrow> \<forall>t < start. \<not> free_run sizes l c n t \<Longrightarrow> S = run_set start n \<Longrightarrow>
    ledger_step sizes l (Grant c n S)
      (l\<lparr>lg_used := (lg_used l)(c := lg_used l c \<union> S), lg_owned := add_mset (c, S) (lg_owned l)\<rparr>)"
| refuse: "\<forall>t. \<not> free_run sizes l c n t \<Longrightarrow> ledger_step sizes l (Refuse c n) l"
| give_back: "(c, S) \<in># lg_owned l \<Longrightarrow>
    ledger_step sizes l (Return c S)
      (l\<lparr>lg_used := (lg_used l)(c := lg_used l c - S), lg_owned := lg_owned l - {#(c, S)#}\<rparr>)"
| lose: "(c, S) \<in># lg_owned l \<Longrightarrow>
    ledger_step sizes l (Lose c S) (l\<lparr>lg_owned := lg_owned l - {#(c, S)#}\<rparr>)"
| internal: "ledger_step sizes l Internal l"

inductive ledger_run :: "(int \<rightharpoonup> int) \<Rightarrow> ledger \<Rightarrow> ledger_event list \<Rightarrow> ledger \<Rightarrow> bool" for sizes l0 where
  empty: "ledger_run sizes l0 [] l0"
| more: "ledger_run sizes l0 evs l \<Longrightarrow> ledger_step sizes l ev l' \<Longrightarrow> ledger_run sizes l0 (evs @ [ev]) l'"

subsection \<open>Accounting\<close>

text \<open>Outstanding grants and lost ones are pairwise disjoint, and in use.\<close>

definition owned_in :: "(int \<times> nat set) multiset \<Rightarrow> int \<Rightarrow> nat set" where
  "owned_in g c = (\<Union>(d, S) \<in> set_mset g. if d = c then S else {})"

fun lost_in :: "ledger_event list \<Rightarrow> int \<Rightarrow> nat set" where
  "lost_in [] c = {}"
| "lost_in (Lose d S # evs) c = (if d = c then S else {}) \<union> lost_in evs c"
| "lost_in (_ # evs) c = lost_in evs c"

lemma lost_in_append [simp]: "lost_in (xs @ ys) c = lost_in xs c \<union> lost_in ys c"
  by (induction xs c rule: lost_in.induct) auto

lemma owned_in_add [simp]: "owned_in (add_mset (d, S) g) c = (if d = c then S else {}) \<union> owned_in g c"
  by (auto simp: owned_in_def)

text \<open>The books: every way in use was in use from the start, is granted, or was lost, and only one of these.\<close>

definition separate :: "(int \<times> nat set) multiset \<Rightarrow> bool" where
  "separate g \<longleftrightarrow> (\<forall>c S g'. g = add_mset (c, S) g' \<longrightarrow> S \<inter> owned_in g' c = {})"

definition balanced :: "(int \<Rightarrow> nat set) \<Rightarrow> ledger_event list \<Rightarrow> ledger \<Rightarrow> bool" where
  "balanced used0 evs l \<longleftrightarrow> separate (lg_owned l) \<and>
     (\<forall>c. lg_used l c = used0 c \<union> lost_in evs c \<union> owned_in (lg_owned l) c \<and>
        (used0 c \<union> lost_in evs c) \<inter> owned_in (lg_owned l) c = {})"

lemma separate_add: "separate g \<Longrightarrow> S \<inter> owned_in g c = {} \<Longrightarrow> separate (add_mset (c, S) g)"
  unfolding separate_def
proof (intro allI impI)
  fix d T g'
  assume sep: "\<forall>c S g'. g = add_mset (c, S) g' \<longrightarrow> S \<inter> owned_in g' c = {}"
    and new: "S \<inter> owned_in g c = {}" and eq: "add_mset (c, S) g = add_mset (d, T) g'"
  show "T \<inter> owned_in g' d = {}"
  proof (cases "(d, T) = (c, S)")
    case True
    with eq new show ?thesis by simp
  next
    case False
    with eq obtain h where h: "g = add_mset (d, T) h" "g' = add_mset (c, S) h"
      unfolding add_eq_conv_ex by blast
    with sep have "T \<inter> owned_in h d = {}" by blast
    with h new show ?thesis by (auto split: if_splits)
  qed
qed

lemma separate_remove:
  assumes "separate (add_mset (c, S) g)"
  shows "separate g" "S \<inter> owned_in g c = {}"
proof -
  show "S \<inter> owned_in g c = {}" using assms unfolding separate_def by blast
  show "separate g"
    unfolding separate_def
  proof (intro allI impI)
    fix d T h
    assume "g = add_mset (d, T) h"
    then have "add_mset (c, S) g = add_mset (d, T) (add_mset (c, S) h)" by simp
    with assms have "T \<inter> owned_in (add_mset (c, S) h) d = {}" unfolding separate_def by blast
    then show "T \<inter> owned_in h d = {}" by auto
  qed
qed

lemma balancedI:
  assumes "separate (lg_owned l)" "\<And>c. lg_used l c = used0 c \<union> lost_in evs c \<union> owned_in (lg_owned l) c"
    "\<And>c i. i \<in> owned_in (lg_owned l) c \<Longrightarrow> i \<notin> used0 c \<and> i \<notin> lost_in evs c"
  shows "balanced used0 evs l"
  unfolding balanced_def using assms by auto

lemma balancedD:
  assumes "balanced used0 evs l"
  shows "separate (lg_owned l)" "lg_used l c = used0 c \<union> lost_in evs c \<union> owned_in (lg_owned l) c"
    "i \<in> owned_in (lg_owned l) c \<Longrightarrow> i \<notin> used0 c \<and> i \<notin> lost_in evs c"
proof -
  show "separate (lg_owned l)" "lg_used l c = used0 c \<union> lost_in evs c \<union> owned_in (lg_owned l) c"
    using assms by (simp_all add: balanced_def)
  have "(used0 c \<union> lost_in evs c) \<inter> owned_in (lg_owned l) c = {}" using assms by (simp add: balanced_def)
  then show "i \<in> owned_in (lg_owned l) c \<Longrightarrow> i \<notin> used0 c \<and> i \<notin> lost_in evs c" by blast
qed

lemma balanced_grant:
  assumes b: "balanced used0 evs l" and free: "lg_used l c \<inter> S = {}"
  shows "balanced used0 (evs @ [Grant c n S])
    (l\<lparr>lg_used := (lg_used l)(c := lg_used l c \<union> S), lg_owned := add_mset (c, S) (lg_owned l)\<rparr>)"
proof (rule balancedI)
  note books = balancedD [OF b]
  have "S \<inter> owned_in (lg_owned l) c = {}" using free books(2) [of c] by blast
  with books(1) show "separate (lg_owned (l\<lparr>lg_used := (lg_used l)(c := lg_used l c \<union> S), lg_owned := add_mset (c, S) (lg_owned l)\<rparr>))"
    by (simp add: separate_add)
  fix d i
  have "i \<in> S \<Longrightarrow> i \<notin> lg_used l c" using free by blast
  then show "i \<notin> used0 d \<and> i \<notin> lost_in (evs @ [Grant c n S]) d"
    if "i \<in> owned_in (lg_owned (l\<lparr>lg_used := (lg_used l)(c := lg_used l c \<union> S), lg_owned := add_mset (c, S) (lg_owned l)\<rparr>)) d"
    using that books(2) [of c] books(3) [of i d] by (cases "d = c") auto
qed (use balancedD(2) [OF b] in auto)

lemma balanced_remove:
  assumes b: "balanced used0 evs l" and g: "lg_owned l = add_mset (c, S) g"
  shows "balanced used0 (evs @ [Return c S]) (l\<lparr>lg_used := (lg_used l)(c := lg_used l c - S), lg_owned := g\<rparr>)"
    "balanced used0 (evs @ [Lose c S]) (l\<lparr>lg_owned := g\<rparr>)"
proof -
  note books = balancedD [OF b, unfolded g owned_in_add]
  note sep = separate_remove [OF books(1)]
  have not_S: "i \<in> owned_in g c \<Longrightarrow> i \<notin> S" for i using sep(2) by blast
  have gone: "lg_used l c - S = used0 c \<union> lost_in evs c \<union> owned_in g c"
    using books(2) [of c] books(3) [of _ c] not_S by auto
  show "balanced used0 (evs @ [Return c S]) (l\<lparr>lg_used := (lg_used l)(c := lg_used l c - S), lg_owned := g\<rparr>)"
    using sep(1) gone books(2,3) by (intro balancedI) (simp_all split: if_splits)
  show "balanced used0 (evs @ [Lose c S]) (l\<lparr>lg_owned := g\<rparr>)"
  proof (rule balancedI)
    show "lg_used (l\<lparr>lg_owned := g\<rparr>) d = used0 d \<union> lost_in (evs @ [Lose c S]) d \<union> owned_in (lg_owned (l\<lparr>lg_owned := g\<rparr>)) d" for d
      using books(2) [of d] by auto
    show "i \<notin> used0 d \<and> i \<notin> lost_in (evs @ [Lose c S]) d" if "i \<in> owned_in (lg_owned (l\<lparr>lg_owned := g\<rparr>)) d" for d i
      using that books(3) [of i d] not_S [of i] by (auto split: if_splits)
  qed (simp add: sep(1))
qed

lemma balanced_step:
  assumes "balanced used0 evs l" "ledger_step sizes l ev l'"
  shows "balanced used0 (evs @ [ev]) l'"
  using assms(2)
proof (cases rule: ledger_step.cases)
  case (grant c n start S)
  then have "lg_used l c \<inter> S = {}" by (auto simp: free_run_def)
  from balanced_grant [OF assms(1) this] grant show ?thesis by simp
next
  case (refuse c n)
  with assms(1) show ?thesis by (simp add: balanced_def)
next
  case (give_back c S)
  from balanced_remove(1) [OF assms(1), of c S "lg_owned l - {#(c, S)#}"] give_back show ?thesis by simp
next
  case (lose c S)
  from balanced_remove(2) [OF assms(1), of c S "lg_owned l - {#(c, S)#}"] lose show ?thesis by simp
next
  case internal
  with assms(1) show ?thesis by (simp add: balanced_def)
qed

lemma ledger_run_balanced:
  assumes "ledger_run sizes l0 evs l" "lg_owned l0 = {#}"
  shows "balanced (lg_used l0) evs l"
  using assms(1)
proof (induction rule: ledger_run.induct)
  case empty
  show ?case using assms(2) by (simp add: balanced_def separate_def owned_in_def)
next
  case (more evs l ev l')
  then show ?case by (blast intro: balanced_step)
qed

end
