(* ===== verification/LedgerProps.thy ===== *)
theory LedgerProps
  imports Ledger
begin

text \<open>
  The interleaved driver of \<open>Concurrent\<close> refines the ledger of \<open>Ledger\<close>, event by event; so the ways in use are at
  every moment exactly those that crash recovery marked, those that a claim or a thread holds, and those that
  two events lost: a crashed thread and a claim that was prepared twice.
\<close>

subsection \<open>The ledger of a system\<close>

definition mask_owned :: "(int \<times> 64 word) option \<Rightarrow> (int \<times> nat set) multiset" where
  "mask_owned h = (case h of None \<Rightarrow> {#} | Some (c, m) \<Rightarrow> {#(c, way_set m)#})"

lemma mask_owned_simps [simp]: "mask_owned None = {#}" "mask_owned (Some (c, m)) = {#(c, way_set m)#}"
  by (simp_all add: mask_owned_def)

definition table_owned :: "(string \<rightharpoonup> structuredAlloc) \<Rightarrow> (int \<times> nat set) multiset" where
  "table_owned t = (\<Sum>u\<in>dom t. {#(saCacheID (the (t u)), way_set (saCbm (the (t u))))#})"

definition threads_owned :: "thread list \<Rightarrow> (int \<times> nat set) multiset" where
  "threads_owned ts = sum_list (map (\<lambda>th. mask_owned (pc_holds (th_pc th))) ts)"

definition ledger_of :: "'w system \<Rightarrow> ledger" where
  "ledger_of s = \<lparr>lg_used = used_ways (wayAlloc (sys_driver s)),
     lg_owned = threads_owned (sys_threads s) + table_owned (structuredAllocs (sys_driver s))\<rparr>"

text \<open>What the ledger sees of a step that takes a thread from \<open>th\<close> to \<open>th'\<close>.\<close>

definition step_event :: "Driver \<Rightarrow> thread \<Rightarrow> thread \<Rightarrow> ledger_event" where
  "step_event d th th' =
     (case th_pc th of
        Loop claim (result # rest) devices \<Rightarrow>
          if res_driver result \<noteq> driverName d \<or> res_pool result \<noteq> nodeName d then Internal
          else (case parseCacheWayDeviceName (res_device result) of
                  Inl _ \<Rightarrow> Internal
                | Inr (c, n) \<Rightarrow>
                    (case pc_holds (th_pc th') of None \<Rightarrow> Refuse c n | Some (_, m) \<Rightarrow> Grant c n (way_set m)))
      | MakeSpec j \<Rightarrow> if th_pc th' = Crashed then Lose (job_cache j) (way_set (job_cbm j)) else Internal
      | RecordAlloc j _ _ \<Rightarrow>
          (case structuredAllocs d (kc_uid (job_claim j)) of
             None \<Rightarrow> Internal
           | Some a \<Rightarrow> Lose (saCacheID a) (way_set (saCbm a)))
      | UndoWays j _ \<Rightarrow> Return (job_cache j) (way_set (job_cbm j))
      | FreeTaken a \<Rightarrow> Return (saCacheID a) (way_set (saCbm a))
      | _ \<Rightarrow> Internal)"

text \<open>A run of the system with the events that the ledger sees.\<close>

inductive sys_trace :: "'w os \<Rightarrow> 'w kube \<Rightarrow> string \<Rightarrow> 'w system \<Rightarrow> ledger_event list \<Rightarrow> 'w system \<Rightarrow> bool"
  for os kube root s0 where
  begin_trace: "sys_trace os kube root s0 [] s0"
| run: "sys_trace os kube root s0 evs s \<Longrightarrow> i < length (sys_threads s) \<Longrightarrow>
    thread_step os kube root (sys_threads s ! i) (sys_world s) (sys_driver s) = Some (th, w, d) \<Longrightarrow>
    sys_trace os kube root s0 (evs @ [step_event (sys_driver s) (sys_threads s ! i) th])
      (s\<lparr>sys_world := w, sys_driver := d, sys_threads := (sys_threads s)[i := th]\<rparr>)"
| arrive: "sys_trace os kube root s0 evs s \<Longrightarrow>
    sys_trace os kube root s0 evs (s\<lparr>sys_threads := sys_threads s @ [request calls]\<rparr>)"
| environment: "sys_trace os kube root s0 evs s \<Longrightarrow> sys_trace os kube root s0 evs (s\<lparr>sys_world := w\<rparr>)"

lemma sys_trace_reach: "sys_trace os kube root s0 evs s \<Longrightarrow> sys_reach os kube root s0 s"
  by (induction rule: sys_trace.induct) (auto intro: sys_reach.intros sys_step.intros)

lemma sys_reach_trace: "sys_reach os kube root s0 s \<Longrightarrow> \<exists>evs. sys_trace os kube root s0 evs s"
  by (induction rule: sys_reach.induct) (auto elim!: sys_stepE intro: sys_trace.intros)

subsection \<open>One step\<close>

lemma threads_owned_update:
  assumes "i < length ts"
  obtains rest where "threads_owned ts = mask_owned (pc_holds (th_pc (ts ! i))) + rest"
    "\<And>th. threads_owned (ts[i := th]) = mask_owned (pc_holds (th_pc th)) + rest"
proof -
  let ?f = "\<lambda>th. mask_owned (pc_holds (th_pc th))"
  let ?rest = "sum_list (map ?f (take i ts)) + sum_list (map ?f (drop (Suc i) ts))"
  have up: "threads_owned (take i ts @ th # drop (Suc i) ts) = ?f th + ?rest" for th
    by (simp add: threads_owned_def)
  show thesis
    by (rule that [of ?rest]) (use up [of "ts ! i"] up assms in \<open>simp_all add: upd_conv_take_nth_drop id_take_nth_drop [symmetric]\<close>)
qed

lemma table_owned_insert:
  assumes "finite (dom t)"
  shows "table_owned (t(u \<mapsto> a)) = add_mset (saCacheID a, way_set (saCbm a)) (table_owned (t(u := None)))"
proof -
  have d: "dom (t(u \<mapsto> a)) = insert u (dom (t(u := None)))" by auto
  have "table_owned (t(u \<mapsto> a)) = {#(saCacheID a, way_set (saCbm a))#} +
      (\<Sum>v\<in>dom (t(u := None)). {#(saCacheID (the ((t(u \<mapsto> a)) v)), way_set (saCbm (the ((t(u \<mapsto> a)) v))))#})"
    unfolding table_owned_def d using assms by (subst sum.insert) auto
  also have "(\<Sum>v\<in>dom (t(u := None)). {#(saCacheID (the ((t(u \<mapsto> a)) v)), way_set (saCbm (the ((t(u \<mapsto> a)) v))))#}) =
      table_owned (t(u := None))"
    unfolding table_owned_def by (rule sum.cong) auto
  finally show ?thesis by (simp only: add_mset_add_single [of _ "table_owned _"] union_commute)
qed

lemma table_owned_remove:
  assumes "finite (dom t)" "t u = Some a"
  shows "table_owned t = add_mset (saCacheID a, way_set (saCbm a)) (table_owned (t(u := None)))"
proof -
  have "t(u \<mapsto> a) = t" using fun_upd_triv [of t u] assms(2) by simp
  from table_owned_insert [OF assms(1), of u a, unfolded this] show ?thesis .
qed

lemma used_ways_granted:
  assumes "way_inv a" "WayAllocate c n a = (Inr m, a')"
  shows "used_ways a' = (used_ways a)(c := used_ways a c \<union> way_set m)"
  using ways.alloc_used [OF assms] by (simp add: fun_eq_iff)

lemma used_ways_returned:
  "used_ways (WayRelease c m a) = (used_ways a)(c := used_ways a c - way_set m)"
  by (simp add: fun_eq_iff used_ways_release)

text \<open>The allocator answers as the ledger does.\<close>

lemma ledger_grant:
  assumes "way_inv a" "WayAllocate c n a = (Inr m, a')" "lg_used l = used_ways a"
  shows "ledger_step (totalWays a) l (Grant c n (way_set m))
    (l\<lparr>lg_used := used_ways a', lg_owned := add_mset (c, way_set m) (lg_owned l)\<rparr>)"
proof -
  obtain tw start where "totalWays a c = Some tw" "0 < n" "0 \<le> start" "start + n \<le> tw" "way_set m = run_set start n"
    "used_ways a c \<inter> way_set m = {}" "\<And>t. 0 \<le> t \<Longrightarrow> t < start \<Longrightarrow> used_ways a c \<inter> run_set t n \<noteq> {}"
    by (rule WayAllocate_Inr [OF assms(1,2)]) blast
  then have "free_run (totalWays a) l c n start" "\<forall>t < start. \<not> free_run (totalWays a) l c n t" "way_set m = run_set start n"
    using assms(3) by (auto simp: free_run_def)
  from ledger_step.grant [OF this] show ?thesis by (simp add: used_ways_granted [OF assms(1,2)] assms(3))
qed

lemma ledger_refuse:
  assumes "way_inv a" "WayAllocate c n a = (Inl e, a')" "lg_used l = used_ways a"
  shows "ledger_step (totalWays a) l (Refuse c n) l"
proof (rule ledger_step.refuse)
  have "\<not> is_ok (fst (WayAllocate c n a))" using assms(2) by (simp add: is_ok_def)
  then show "\<forall>t. \<not> free_run (totalWays a) l c n t"
    using WayAllocate_ok_iff [OF assms(1), of c n] assms(3) by (auto simp: free_run_def)
qed

lemma thread_step_refines:
  assumes inv: "way_inv (wayAlloc d)" and fin: "finite (dom (structuredAllocs d))"
    and st: "thread_step os kube root th w d = Some (th', w', d')"
  shows "ledger_step (totalWays (wayAlloc d))
      \<lparr>lg_used = used_ways (wayAlloc d), lg_owned = mask_owned (pc_holds (th_pc th)) + rest + table_owned (structuredAllocs d)\<rparr>
      (step_event d th th')
      \<lparr>lg_used = used_ways (wayAlloc d'), lg_owned = mask_owned (pc_holds (th_pc th')) + rest + table_owned (structuredAllocs d')\<rparr>"
    (is "ledger_step ?sizes ?l _ ?l'")
proof (cases "th_pc th")
  case Idle
  with st show ?thesis
    by (auto simp: thread_step_def step_event_def intro: ledger_step.internal split: list.splits)
next
  case (Fetch claim)
  with st show ?thesis
    by (auto simp: thread_step_def fetch_step_def step_event_def intro: ledger_step.internal
        split: sum.splits option.splits)
next
  case (Loop claim results devices)
  show ?thesis
  proof (cases results)
    case Nil
    with Loop st show ?thesis
      by (auto simp: thread_step_def loop_step_def step_event_def intro: ledger_step.internal split: if_splits)
  next
    case (Cons r rs)
    show ?thesis
    proof (cases "res_driver r = driverName d \<and> res_pool r = nodeName d \<and> is_ok (parseCacheWayDeviceName (res_device r))")
      case False
      with Loop Cons st show ?thesis
        by (auto simp: thread_step_def loop_step_def step_event_def is_ok_def intro: ledger_step.internal
            split: if_splits sum.splits)
    next
      case True
      then obtain c n where own: "res_driver r = driverName d" "res_pool r = nodeName d"
          "parseCacheWayDeviceName (res_device r) = Inr (c, n)"
        by (metis is_ok_iff surj_pair)
      obtain e a1 where al: "WayAllocate c n (wayAlloc d) = (e, a1)" by fastforce
      show ?thesis
      proof (cases e)
        case (Inl err)
        with al have "a1 = wayAlloc d" by (simp add: WayAllocate_Inl)
        with ledger_refuse [OF inv al [unfolded Inl], of ?l] Loop Cons st own al Inl show ?thesis
          by (auto simp: thread_step_def loop_step_def step_event_def)
      next
        case (Inr m)
        with ledger_grant [OF inv al [unfolded Inr], of ?l] Loop Cons st own al show ?thesis
          by (auto simp: thread_step_def loop_step_def step_event_def)
      qed
    qed
  qed
next
  case (MakeGroup j)
  with st show ?thesis
    by (auto simp: thread_step_def group_step_def step_event_def intro: ledger_step.internal
        split: prod.splits option.splits)
next
  case (MakeSpec j)
  have "ledger_step ?sizes ?l (Lose (job_cache j) (way_set (job_cbm j)))
      \<lparr>lg_used = used_ways (wayAlloc d), lg_owned = rest + table_owned (structuredAllocs d)\<rparr>"
    using ledger_step.lose [of "job_cache j" "way_set (job_cbm j)" ?l ?sizes] MakeSpec by simp
  with MakeSpec st show ?thesis
    by (auto simp: thread_step_def spec_step_def step_event_def intro: ledger_step.internal
        split: prod.splits option.splits sum.splits)
next
  case (RecordAlloc j i p)
  let ?u = "kc_uid (job_claim j)" and ?own = "(job_cache j, way_set (job_cbm j))"
  have t': "table_owned ((structuredAllocs d)(?u \<mapsto> job_alloc j p)) =
      add_mset ?own (table_owned ((structuredAllocs d)(?u := None)))"
    using table_owned_insert [OF fin, of ?u "job_alloc j p"] by (simp add: job_alloc_def)
  show ?thesis
  proof (cases "structuredAllocs d ?u")
    case None
    then have "(structuredAllocs d)(?u := None) = structuredAllocs d" by (simp add: fun_upd_idem)
    with RecordAlloc st None t' show ?thesis
      by (auto simp: thread_step_def record_step_def step_event_def intro: ledger_step.internal)
  next
    case (Some a)
    have "ledger_step ?sizes ?l (Lose (saCacheID a) (way_set (saCbm a)))
        \<lparr>lg_used = used_ways (wayAlloc d), lg_owned = add_mset ?own (rest + table_owned ((structuredAllocs d)(?u := None)))\<rparr>"
      using ledger_step.lose [of "saCacheID a" "way_set (saCbm a)" ?l ?sizes] RecordAlloc table_owned_remove [OF fin Some]
      by simp
    with RecordAlloc st Some t' show ?thesis
      by (auto simp: thread_step_def record_step_def step_event_def)
  qed
next
  case (UndoGroup j e)
  with st show ?thesis by (auto simp: thread_step_def step_event_def intro: ledger_step.internal)
next
  case (UndoWays j e)
  with st show ?thesis
    using ledger_step.give_back [of "job_cache j" "way_set (job_cbm j)" ?l ?sizes]
    by (auto simp: thread_step_def undo_step_def step_event_def used_ways_returned)
next
  case (Take claim)
  show ?thesis
  proof (cases "structuredAllocs d (kc_uid claim)")
    case None
    with Take st show ?thesis
      by (auto simp: thread_step_def take_step_def step_event_def intro: ledger_step.internal)
  next
    case (Some a)
    with Take st table_owned_remove [OF fin Some] show ?thesis
      by (auto simp: thread_step_def take_step_def step_event_def intro: ledger_step.internal)
  qed
next
  case (DropGroup a)
  with st show ?thesis
    by (auto simp: thread_step_def drop_step_def step_event_def intro: ledger_step.internal split: prod.splits)
next
  case (FreeTaken a)
  with st show ?thesis
    using ledger_step.give_back [of "saCacheID a" "way_set (saCbm a)" ?l ?sizes]
    by (auto simp: thread_step_def step_event_def used_ways_returned)
next
  case (DropSpec a)
  with st show ?thesis by (auto simp: thread_step_def step_event_def intro: ledger_step.internal)
next
  case Crashed
  with st show ?thesis by (simp add: thread_step_def)
qed

lemma thread_step_finite:
  "thread_step os kube root th w d = Some (th', w', d') \<Longrightarrow> finite (dom (structuredAllocs d)) \<Longrightarrow>
   finite (dom (structuredAllocs d'))"
  by (erule thread_step_effect) auto

subsection \<open>Runs\<close>

lemma sys_trace_finite:
  "sys_trace os kube root s0 evs s \<Longrightarrow> finite (dom (structuredAllocs (sys_driver s0))) \<Longrightarrow>
   finite (dom (structuredAllocs (sys_driver s)))"
  by (induction rule: sys_trace.induct) (auto dest: thread_step_finite)

lemma sys_trace_refines:
  assumes "sys_trace os kube root s0 evs s" "sys_inv s0" "finite (dom (structuredAllocs (sys_driver s0)))"
  shows "ledger_run (totalWays (wayAlloc (sys_driver s0))) (ledger_of s0) evs (ledger_of s)"
  using assms(1)
proof (induction rule: sys_trace.induct)
  case begin_trace
  show ?case by (rule ledger_run.empty)
next
  case (run evs s i th w d)
  let ?th = "sys_threads s ! i" and ?sizes = "totalWays (wayAlloc (sys_driver s0))"
  have reach: "sys_reach os kube root s0 s" by (rule sys_trace_reach [OF run.hyps(1)])
  have inv: "way_inv (wayAlloc (sys_driver s))" using sys_reach_inv [OF reach assms(2)] by (simp add: sys_inv_def)
  have sizes: "totalWays (wayAlloc (sys_driver s)) = ?sizes" by (rule sys_reach_total [OF reach])
  obtain rest where rest: "threads_owned (sys_threads s) = mask_owned (pc_holds (th_pc ?th)) + rest"
      "\<And>th. threads_owned ((sys_threads s)[i := th]) = mask_owned (pc_holds (th_pc th)) + rest"
    using threads_owned_update [OF run.hyps(2)] by blast
  from thread_step_refines [OF inv sys_trace_finite [OF run.hyps(1) assms(3)] run.hyps(3), of rest]
  have "ledger_step ?sizes (ledger_of s) (step_event (sys_driver s) ?th th)
      (ledger_of (s\<lparr>sys_world := w, sys_driver := d, sys_threads := (sys_threads s)[i := th]\<rparr>))"
    by (simp add: ledger_of_def rest sizes)
  with run.IH show ?case by (rule ledger_run.more)
next
  case (arrive evs s calls)
  have "ledger_of (s\<lparr>sys_threads := sys_threads s @ [request calls]\<rparr>) = ledger_of s"
    by (simp add: ledger_of_def threads_owned_def request_def)
  with arrive.IH show ?case by simp
next
  case (environment evs s w)
  then show ?case by (simp add: ledger_of_def)
qed

lemma ledger_of_start:
  "structuredAllocs d = Map.empty \<Longrightarrow>
   ledger_of \<lparr>sys_world = w, sys_driver = d, sys_threads = []\<rparr> = \<lparr>lg_used = used_ways (wayAlloc d), lg_owned = {#}\<rparr>"
  by (simp add: ledger_of_def threads_owned_def table_owned_def)

text \<open>
  C5: The concurrent driver refines the ledger. Every interleaving of requests on a started driver, read as
  the sequence of its events, is a run of the abstract ledger from the state after recovery to the ledger of
  the state reached: a claim's request for \<open>n\<close> ways gets the lowest free run of the domain, it is refused only when
  there is no free run, only outstanding grants are returned, and no other step changes the ways in use.
\<close>

theorem driver_refines_ledger:
  assumes "start_driver os kube root node hook cdi info perCache w = Some (Started d0, w0)"
    and "PartitionableDevices (drvCaps d0)"
    and "sys_trace os kube root \<lparr>sys_world = w0, sys_driver = d0, sys_threads = []\<rparr> evs s"
  shows "ledger_run (ways_per_domain info) \<lparr>lg_used = used_ways (wayAlloc d0), lg_owned = {#}\<rparr> evs (ledger_of s)"
proof -
  let ?s0 = "\<lparr>sys_world = w0, sys_driver = d0, sys_threads = []\<rparr>"
  have "sys_inv ?s0" by (rule sys_inv_start [OF start_driver_structured(1) [OF assms(1,2)]])
  note sys_trace_refines [OF assms(3) this]
  moreover have "structuredAllocs d0 = Map.empty" by (rule started_fields(1) [OF assms(1,2)])
  ultimately show ?thesis
    by (simp add: ledger_of_start start_driver_structured(2) [OF assms(1,2)])
qed

text \<open>The ways that claims and threads hold in a domain.\<close>

definition held_in :: "'w system \<Rightarrow> int \<Rightarrow> nat set" where
  "held_in s c = {i. \<exists>k m. sys_held s k = Some (c, m) \<and> i \<in> way_set m}"

lemma Bex_set_nth: "(\<exists>x \<in> set xs. P x) \<longleftrightarrow> (\<exists>j < length xs. P (xs ! j))"
  by (metis in_set_conv_nth)

lemma owned_in_union: "owned_in (g + h) c = owned_in g c \<union> owned_in h c"
  by (auto simp: owned_in_def)

lemma owned_in_mask: "i \<in> owned_in (mask_owned h) c \<longleftrightarrow> (\<exists>m. h = Some (c, m) \<and> i \<in> way_set m)"
  by (cases h) (auto simp: owned_in_def split: if_splits)

lemma owned_in_threads:
  "i \<in> owned_in (threads_owned ts) c \<longleftrightarrow> (\<exists>th \<in> set ts. \<exists>m. pc_holds (th_pc th) = Some (c, m) \<and> i \<in> way_set m)"
proof (induction ts)
  case Nil
  show ?case by (simp add: threads_owned_def owned_in_def)
next
  case (Cons th ts)
  have "threads_owned (th # ts) = mask_owned (pc_holds (th_pc th)) + threads_owned ts"
    by (simp add: threads_owned_def)
  with Cons show ?case by (simp add: owned_in_union owned_in_mask)
qed

lemma owned_in_table:
  "finite (dom t) \<Longrightarrow> i \<in> owned_in (table_owned t) c \<longleftrightarrow> (\<exists>u a. t u = Some a \<and> saCacheID a = c \<and> i \<in> way_set (saCbm a))"
  unfolding table_owned_def owned_in_def
  by (auto simp: set_mset_sum split: if_splits) (blast, force)

lemma owned_in_ledger:
  assumes "finite (dom (structuredAllocs (sys_driver s)))"
  shows "owned_in (lg_owned (ledger_of s)) c = held_in s c"
proof (rule set_eqI)
  fix i
  have "i \<in> owned_in (threads_owned (sys_threads s)) c \<longleftrightarrow> (\<exists>j m. sys_held s (Inl j) = Some (c, m) \<and> i \<in> way_set m)"
    unfolding owned_in_threads Bex_set_nth by (auto simp: sys_held_def split: if_splits)
  moreover have "i \<in> owned_in (table_owned (structuredAllocs (sys_driver s))) c \<longleftrightarrow>
      (\<exists>u m. sys_held s (Inr u) = Some (c, m) \<and> i \<in> way_set m)"
    unfolding owned_in_table [OF assms] by (auto simp: held_def)
  ultimately have "i \<in> owned_in (lg_owned (ledger_of s)) c \<longleftrightarrow>
      (\<exists>j m. sys_held s (Inl j) = Some (c, m) \<and> i \<in> way_set m) \<or> (\<exists>u m. sys_held s (Inr u) = Some (c, m) \<and> i \<in> way_set m)"
    by (simp add: ledger_of_def owned_in_union)
  also have "\<dots> \<longleftrightarrow> i \<in> held_in s c" unfolding held_in_def by (auto simp: split_sum_ex)
  finally show "i \<in> owned_in (lg_owned (ledger_of s)) c \<longleftrightarrow> i \<in> held_in s c" .
qed

text \<open>
  C6: Every way in use is accounted for, under concurrency. After any interleaving of requests, the ways in use in a domain
  are exactly those that crash recovery marked at the start, those that a recorded claim or a thread in flight
  holds, and those that were lost on the way; what is held is neither marked nor lost. Ways are lost only when a thread
  crashes or a claim is prepared while it is recorded; a run without such an event leaks nothing.
\<close>

theorem ways_in_use_accounted:
  assumes "start_driver os kube root node hook cdi info perCache w = Some (Started d0, w0)"
    and "PartitionableDevices (drvCaps d0)"
    and "sys_trace os kube root \<lparr>sys_world = w0, sys_driver = d0, sys_threads = []\<rparr> evs s"
  shows "used_ways (wayAlloc (sys_driver s)) c = used_ways (wayAlloc d0) c \<union> lost_in evs c \<union> held_in s c \<and>
    held_in s c \<inter> (used_ways (wayAlloc d0) c \<union> lost_in evs c) = {}"
proof -
  let ?s0 = "\<lparr>sys_world = w0, sys_driver = d0, sys_threads = []\<rparr>"
  have inv: "sys_inv ?s0" by (rule sys_inv_start [OF start_driver_structured(1) [OF assms(1,2)]])
  have table: "structuredAllocs d0 = Map.empty" by (rule started_fields(1) [OF assms(1,2)])
  have "balanced (lg_used (ledger_of ?s0)) evs (ledger_of s)"
    by (rule ledger_run_balanced [OF sys_trace_refines [OF assms(3) inv]]) (simp_all add: ledger_of_start table)
  note books = balancedD(2,3) [OF this]
  have "finite (dom (structuredAllocs (sys_driver s)))" by (rule sys_trace_finite [OF assms(3)]) (simp add: table)
  note own = owned_in_ledger [OF this, of c]
  from books(1) [of c] own have "used_ways (wayAlloc (sys_driver s)) c = used_ways (wayAlloc d0) c \<union> lost_in evs c \<union> held_in s c"
    by (simp add: ledger_of_def)
  moreover have "i \<notin> used_ways (wayAlloc d0) c \<and> i \<notin> lost_in evs c" if "i \<in> held_in s c" for i
    using books(2) [of i c] own that by (simp add: ledger_of_start table)
  ultimately show ?thesis by blast
qed

subsection \<open>A run\<close>

lemma trace_run:
  assumes "sys_trace os kube root s0 evs \<lparr>sys_world = w, sys_driver = d, sys_threads = ts\<rparr>"
    and "i < length ts" "thread_step os kube root (ts ! i) w d = Some (th, w', d')" "step_event d (ts ! i) th = ev"
  shows "sys_trace os kube root s0 (evs @ [ev]) \<lparr>sys_world = w', sys_driver = d', sys_threads = ts[i := th]\<rparr>"
  using sys_trace.run [OF assms(1), of i th w' d'] assms(2-4) by simp

text \<open>One request up to the grant of its ways.\<close>

lemma grant_trace:
  obtains s where "sys_trace kfs kfs_kube ''/r'' \<lparr>sys_world = [], sys_driver = kfs_driver, sys_threads = []\<rparr>
      [Internal, Internal, Grant 0 5 (way_set 0x1f)] s"
    "sys_held s (Inl 0) = Some (0, 0x1f)"
proof -
  let ?s0 = "\<lparr>sys_world = [], sys_driver = kfs_driver, sys_threads = []\<rparr>" and ?c = "ex_kclaim ''uid-0001''"
  let ?r = "\<lparr>res_request = ''cache'', res_driver = mainDriverName, res_pool = ''node1'', res_device = ''cache0-5way''\<rparr>"
  let ?th = "\<lambda>p. \<lparr>th_pc = p, th_calls = [], th_resp = Map.empty\<rparr>"
  have get: "kube_get_claim kfs_kube [] (kc_namespace ?c) (kc_name ?c) = Inr (kfs_claim ''uid-0001'' ''cache0-5way'')"
    by (simp add: kfs_kube_def list_kube_def ex_kclaim_def kfs_claim_def)
  have d: "driverName kfs_driver = mainDriverName" "nodeName kfs_driver = ''node1''"
    "wayAlloc kfs_driver = NewWayAllocator (ways_per_domain example_info)"
    by (simp_all add: kfs_driver_def NewDriver_def)
  have "ways_per_domain example_info 0 = Some 20"
    by (simp add: ways_per_domain_Some) (simp add: example_info_def)
  then obtain a1 where al: "WayAllocate 0 5 (wayAlloc kfs_driver) = (Inr 0x1f, a1)"
    by (simp add: d(3) way_evals)
  let ?j = "\<lparr>job_claim = ?c, job_result = ?r, job_cache = 0, job_ways = 5, job_cbm = 0x1f, job_rest = [], job_devices = []\<rparr>"
  note run = trace_run [where i = 0 and os = kfs and kube = kfs_kube and root = "''/r''" and ?s0.0 = ?s0]
  have "sys_trace kfs kfs_kube ''/r'' ?s0 []
      \<lparr>sys_world = [], sys_driver = kfs_driver, sys_threads = [request [PrepareCall ?c]]\<rparr>"
    using sys_trace.arrive [OF sys_trace.begin_trace, of kfs kfs_kube "''/r''" ?s0 "[PrepareCall ?c]"] by simp
  from run [OF this, of "?th (Fetch ?c)" "[]" kfs_driver Internal]
  have "sys_trace kfs kfs_kube ''/r'' ?s0 [Internal]
      \<lparr>sys_world = [], sys_driver = kfs_driver, sys_threads = [?th (Fetch ?c)]\<rparr>"
    by (simp add: thread_step_def request_def step_event_def)
  from run [OF this, of "?th (Loop ?c [?r] [])" "[]" kfs_driver Internal]
  have "sys_trace kfs kfs_kube ''/r'' ?s0 [Internal, Internal]
      \<lparr>sys_world = [], sys_driver = kfs_driver, sys_threads = [?th (Loop ?c [?r] [])]\<rparr>"
    by (simp add: thread_step_def fetch_step_def get step_event_def kfs_claim_def)
  from run [OF this, of "?th (MakeGroup ?j)" "[]" "kfs_driver\<lparr>wayAlloc := a1\<rparr>" "Grant 0 5 (way_set 0x1f)"]
  have "sys_trace kfs kfs_kube ''/r'' ?s0 [Internal, Internal, Grant 0 5 (way_set 0x1f)]
      \<lparr>sys_world = [], sys_driver = kfs_driver\<lparr>wayAlloc := a1\<rparr>, sys_threads = [?th (MakeGroup ?j)]\<rparr>"
    by (simp add: thread_step_def loop_step_def step_event_def d(1,2) ex_names al)
  from that [OF this] show thesis by simp
qed

lemma kfs_caps: "PartitionableDevices (drvCaps kfs_driver)"
  by (simp add: kfs_driver_def NewDriver_def)

theorem driver_refines_ledger_witness:
  "\<exists>s :: groups system. sys_held s (Inl 0) = Some (0, 0x1f) \<and>
     ledger_run (ways_per_domain example_info) \<lparr>lg_used = used_ways (wayAlloc kfs_driver), lg_owned = {#}\<rparr>
       [Internal, Internal, Grant 0 5 (way_set 0x1f)] (ledger_of s)"
proof -
  obtain s where s: "sys_trace kfs kfs_kube ''/r'' \<lparr>sys_world = [], sys_driver = kfs_driver, sys_threads = []\<rparr>
      [Internal, Internal, Grant 0 5 (way_set 0x1f)] s" "sys_held s (Inl 0) = Some (0, 0x1f)"
    by (rule grant_trace)
  from driver_refines_ledger [OF kfs_start kfs_caps s(1)] s(2) show ?thesis by blast
qed

theorem ways_in_use_accounted_witness:
  "\<exists>s. sys_reach kfs kfs_kube ''/r'' \<lparr>sys_world = [], sys_driver = kfs_driver, sys_threads = []\<rparr> s \<and>
     used_ways (wayAlloc (sys_driver s)) 0 = used_ways (wayAlloc kfs_driver) 0 \<union> held_in s 0 \<and> 3 \<in> held_in s 0"
proof -
  obtain s where s: "sys_trace kfs kfs_kube ''/r'' \<lparr>sys_world = [], sys_driver = kfs_driver, sys_threads = []\<rparr>
      [Internal, Internal, Grant 0 5 (way_set 0x1f)] s" "sys_held s (Inl 0) = Some (0, 0x1f)"
    by (rule grant_trace)
  have "3 \<in> way_set (0x1f :: 64 word)" by (simp add: way_set_def bit_iff_odd_drop_bit)
  with s(2) have "3 \<in> held_in s 0" unfolding held_in_def by blast
  moreover from ways_in_use_accounted [OF kfs_start kfs_caps s(1), of 0]
  have "used_ways (wayAlloc (sys_driver s)) 0 = used_ways (wayAlloc kfs_driver) 0 \<union> held_in s 0" by simp
  ultimately show ?thesis using sys_trace_reach [OF s(1)] by blast
qed

end
