(* ===== verification/MetricsProps.thy ===== *)
theory MetricsProps
  imports Startup ConcurrentProps
begin

text \<open>
  Every metric update of the driver fits the metric that is registered under its name, so that no update
  panics; and the rates of the monitoring loop.
\<close>

subsection \<open>The registry\<close>

lemmas metric_names = PartitionsTotal_def PartitionsAllocated_def PrepareTotal_def UnprepareTotal_def
  PrepareDuration_def UnprepareDuration_def ResctrlGroupCreateTotal_def ResctrlGroupDeleteTotal_def
  ResctrlTaskAssignTotal_def CacheOccupancyBytes_def MemBandwidthLocalBytesPerSec_def MemBandwidthTotalBytesPerSec_def

lemma must_register_distinct:
  "distinct (map fst ms) \<Longrightarrow> \<forall>m \<in> set ms. reg (fst m) = None \<Longrightarrow> must_register ms reg = Some (reg ++ map_of (rev ms))"
proof (induction ms arbitrary: reg)
  case (Cons m ms)
  obtain name kind where m: "m = (name, kind)" by fastforce
  with Cons.prems have "must_register ms (reg(name \<mapsto> kind)) = Some (reg(name \<mapsto> kind) ++ map_of (rev ms))"
    by (intro Cons.IH) auto
  with Cons.prems m show ?case by (simp add: map_add_assoc)
qed simp

definition registry :: registry where "registry = map_of (rev declared_metrics)"

lemma declared_distinct: "distinct (map fst declared_metrics)"
  by (simp add: declared_metrics_def metric_names)

lemma RegisterMetrics_once: "RegisterMetrics Map.empty = Some registry"
  using must_register_distinct [OF declared_distinct, of Map.empty] by (simp add: RegisterMetrics_def registry_def)

lemma registry_lookup: "(name, kind) \<in> set declared_metrics \<Longrightarrow> registry name = Some kind"
  using declared_distinct by (simp add: registry_def rev_map [symmetric])

lemma registry_kinds [simp]:
  "registry PrepareTotal = Some (CounterVec [''result''])" "registry UnprepareTotal = Some (CounterVec [''result''])"
  "registry ResctrlGroupCreateTotal = Some (CounterVec [''result''])"
  "registry ResctrlGroupDeleteTotal = Some (CounterVec [''result''])"
  "registry PartitionsTotal = Some Gauge" "registry PartitionsAllocated = Some Gauge"
  "registry PrepareDuration = Some Histogram" "registry UnprepareDuration = Some Histogram"
  "registry CacheOccupancyBytes = Some (GaugeVec [''partition'', ''cache_group_id''])"
  "registry MemBandwidthLocalBytesPerSec = Some (GaugeVec [''partition'', ''cache_group_id''])"
  "registry MemBandwidthTotalBytesPerSec = Some (GaugeVec [''partition'', ''cache_group_id''])"
  by (rule registry_lookup, simp add: declared_metrics_def)+

subsection \<open>The updates of the driver\<close>

definition metrics_ok :: "registry \<Rightarrow> Driver \<Rightarrow> bool" where
  "metrics_ok reg d \<longleftrightarrow> list_all (event_ok reg) (metrics d)"

lemma metrics_ok_simps [simp]:
  "metrics_ok reg (report e d) \<longleftrightarrow> metrics_ok reg d \<and> event_ok reg e"
  "metrics_ok reg (d\<lparr>wayAlloc := a\<rparr>) = metrics_ok reg d"
  "metrics_ok reg (d\<lparr>structuredAllocs := m\<rparr>) = metrics_ok reg d"
  "metrics_ok reg (d\<lparr>drvState := st\<rparr>) = metrics_ok reg d"
  by (auto simp: metrics_ok_def report_def)

lemma prepareClaim_metrics:
  "metrics_ok registry d \<Longrightarrow> metrics_ok registry (snd (prepareClaim kube w order claim d))"
  by (auto simp: prepareClaim_def Let_def split: sum.splits option.splits prod.splits)

lemma unprepareClaim_metrics: "metrics_ok registry d \<Longrightarrow> metrics_ok registry (unprepareClaim order claim d)"
  by (simp add: unprepareClaim_def case_prod_unfold Let_def)

lemma structured_step_metrics:
  "structured_step os root uid result w d = (out, w', d') \<Longrightarrow> metrics_ok registry d \<Longrightarrow> metrics_ok registry d'"
  by (auto simp: structured_step_def Let_def split: if_splits sum.splits prod.splits option.splits)

lemma structured_loop_metrics:
  "structured_loop os root uid results devices w d = (r, w', d') \<Longrightarrow> metrics_ok registry d \<Longrightarrow> metrics_ok registry d'"
proof (induction results arbitrary: devices w d)
  case (Cons result rest)
  obtain out w1 d1 where st: "structured_step os root uid result w d = (out, w1, d1)"
    using prod_cases3 by blast
  with Cons structured_step_metrics [OF st] show ?case by (cases out) auto
qed simp

lemma prepareClaimStructured_metrics:
  "prepareClaimStructured os kube root claim w d = (r, w', d') \<Longrightarrow> metrics_ok registry d \<Longrightarrow> metrics_ok registry d'"
  by (auto simp: prepareClaimStructured_def dest!: structured_loop_metrics
      split: sum.splits option.splits prod.splits if_splits)

lemma unprepareClaimStructured_metrics:
  "unprepareClaimStructured os root claim w d = (w', d') \<Longrightarrow> metrics_ok registry d \<Longrightarrow> metrics_ok registry d'"
  by (auto simp: unprepareClaimStructured_def Let_def split: option.splits prod.splits)

lemma prepare_claims_metrics:
  "prepare_claims os kube root order claims resp w d = (r, w', d') \<Longrightarrow> metrics_ok registry d \<Longrightarrow> metrics_ok registry d'"
proof (induction claims arbitrary: resp w d)
  case (Cons claim claims)
  show ?case
  proof (cases "PartitionableDevices (drvCaps d)")
    case True
    obtain r1 w1 d1 where p: "prepareClaimStructured os kube root claim w d = (r1, w1, d1)"
      using prod_cases3 by blast
    with True Cons prepareClaimStructured_metrics [OF p] show ?thesis by (auto split: option.splits)
  next
    case False
    obtain r1 d1 where p: "prepareClaim kube w order claim d = (r1, d1)" by fastforce
    with False Cons prepareClaim_metrics [of d kube w order claim] show ?thesis by auto
  qed
qed simp

lemma unprepare_claims_metrics:
  "unprepare_claims os root order claims w d = (w', d') \<Longrightarrow> metrics_ok registry d \<Longrightarrow> metrics_ok registry d'"
proof (induction claims arbitrary: w d)
  case (Cons claim claims)
  obtain w1 d1 where u: "unprepareClaimStructured os root claim w d = (w1, d1)" by fastforce
  with Cons unprepareClaimStructured_metrics [OF u] unprepareClaim_metrics [of d order claim]
  show ?case by (auto split: if_splits)
qed simp

lemma start_driver_metrics:
  assumes "start_driver os kube root node hook cdi info perCache w = Some (Started d, w')"
  shows "list_all (event_ok registry) (metrics d)"
  using assms
  by (auto simp: start_driver_def NewDriver_def RecoverStructuredAllocs_def startup_events_def report_def Let_def list_all_iff
      split: prod.splits option.splits if_splits)

subsection \<open>The updates of the monitor\<close>

lemma scrape_target_metrics: "list_all (event_ok registry) (fst (scrape_target os root w now t prev))"
  by (auto simp: scrape_target_def rate_event_def Let_def word_le_def uint_sub_lem
      split: sum.splits option.splits)

lemma scrape_metrics: "list_all (event_ok registry) (fst (scrape os root w now ts prev))"
proof (induction ts arbitrary: prev)
  case (Cons t ts)
  with scrape_target_metrics [of os root w now t prev] show ?case
    by (auto simp: Let_def case_prod_unfold)
qed simp

lemma monitor_run_metrics: "list_all (event_ok registry) (fst (monitor_run os root ticks m))"
proof (induction ticks arbitrary: m)
  case (Cons tick ticks)
  then show ?case by (cases tick) (auto simp: Let_def case_prod_unfold scrape_metrics)
qed simp

text \<open>
  C38: The metrics are well typed. Registering the declared metrics once does not panic, and every
  update that the startup, any request handler or any run of the monitoring loop makes, in both modes and on every
  error path, is of the kind of the metric registered under its name, with as many label values
  as that metric has labels; so no update panics. Reported rates are over a positive time and
  never negative.
\<close>

theorem metrics_well_typed:
  assumes "RegisterMetrics Map.empty = Some reg" "list_all (event_ok reg) (metrics d)"
  shows "(case NodePrepareResources os kube root order t0 t1 claims w d of (r, w', d') \<Rightarrow>
      list_all (event_ok reg) (metrics d')) \<and>
    (case NodeUnprepareResources os root order t0 t1 claims w d of (uids, w', d') \<Rightarrow>
      list_all (event_ok reg) (metrics d')) \<and>
    list_all (event_ok reg) (fst (monitor_run os root ticks m)) \<and>
    (case start_driver os kube root node hook cdi info perCache w of
       Some (Started d0, w0) \<Rightarrow> list_all (event_ok reg) (metrics d0) | _ \<Rightarrow> True)"
proof -
  have reg: "reg = registry" using assms(1) RegisterMetrics_once by simp
  have d: "metrics_ok registry d" using assms(2) by (simp add: metrics_ok_def reg)
  have "metrics_ok registry d'" if "NodePrepareResources os kube root order t0 t1 claims w d = (r, w', d')" for r w' d'
    using that d prepare_claims_metrics by (auto simp: NodePrepareResources_def split: prod.splits)
  moreover have "metrics_ok registry d'" if "NodeUnprepareResources os root order t0 t1 claims w d = (r, w', d')" for r w' d'
    using that d unprepare_claims_metrics by (auto simp: NodeUnprepareResources_def split: prod.splits)
  ultimately show ?thesis
    unfolding reg by (auto simp: metrics_ok_def monitor_run_metrics start_driver_metrics
        split: prod.splits option.splits outcome.splits)
qed

theorem metrics_well_typed_witness:
  "\<exists>reg. RegisterMetrics Map.empty = Some reg \<and>
     list_all (event_ok reg) (metrics (snd (snd (NodePrepareResources mem_os (list_kube []) ''/r'' [] 0 1
       [ex_kclaim ''uid-0001''] ex_fs (ex_driver True pool20)))))"
proof -
  have "list_all (event_ok registry) (metrics (ex_driver True pool20))" by (simp add: ex_driver_def NewDriver_def)
  from metrics_well_typed [OF RegisterMetrics_once this, THEN conjunct1] RegisterMetrics_once show ?thesis
    by (auto simp: case_prod_unfold)
qed

end
