(* ===== verification/NumaProps.thy ===== *)
theory NumaProps
  imports Numa
begin

text \<open>
  The readers of \<open>/sys\<close>: when the CPU range loop ends, CPU lists and sizes as the kernel prints
  them, and which CPU directory decides about a cache domain.
\<close>

subsection \<open>CPU lists\<close>

definition max_int :: int where "max_int = 2 ^ 63 - 1"

lemma range_cpus_diverges:
  assumes "range_cpus i e = Some xs"
  shows "in_int i \<longrightarrow> i \<le> e \<longrightarrow> e \<noteq> max_int"
proof (rule range_cpus.raw_induct [where P = "\<lambda>i e xs. in_int i \<longrightarrow> i \<le> e \<longrightarrow> e \<noteq> max_int", OF _ assms])
  fix f i e xs
  assume IH: "\<And>e b y. f e b = Some y \<Longrightarrow> in_int e \<longrightarrow> e \<le> b \<longrightarrow> b \<noteq> max_int"
    and step: "(if i \<le> e then Option.bind (f (wrap64 (i + 1)) e) (\<lambda>cpus. Some (i # cpus)) else Some []) = Some xs"
  show "in_int i \<longrightarrow> i \<le> e \<longrightarrow> e \<noteq> max_int"
  proof (intro impI notI)
    assume i: "in_int i" "i \<le> e" and e: "e = max_int"
    with step obtain cpus where "f (wrap64 (i + 1)) e = Some cpus"
      by (cases "f (wrap64 (i + 1)) e") auto
    from IH [OF this] e show False
      using in_intD(2) [OF in_int_wrap64, of "i + 1"] by (simp add: max_int_def)
  qed
qed

lemma range_cpus_unfold:
  "i \<le> e \<Longrightarrow> range_cpus i e = Option.bind (range_cpus (wrap64 (i + 1)) e) (\<lambda>cpus. Some (i # cpus))"
  "e < i \<Longrightarrow> range_cpus i e = Some []"
  by (subst range_cpus.simps, simp)+

lemma range_cpus_ends:
  assumes "e < max_int"
  shows "in_int i \<Longrightarrow> range_cpus i e = Some [i..e]"
proof (induction "nat (e + 1 - i)" arbitrary: i)
  case 0
  then show ?case by (simp add: range_cpus_unfold(2))
next
  case (Suc n)
  then have le: "i \<le> e" by simp
  have "in_int (i + 1)" using Suc.prems assms le unfolding in_int_def max_int_def by simp
  moreover have "n = nat (e + 1 - (i + 1))" using Suc.hyps(2) by simp
  ultimately have "range_cpus (wrap64 (i + 1)) e = Some [i + 1..e]" using Suc.hyps(1) by simp
  with le show ?case by (simp add: range_cpus_unfold(1) upto_rec1)
qed

text \<open>
  C36: The loop over a CPU range ends exactly when the range is empty or its end is not the largest
  \<open>int\<close>, and returns the CPUs of the range then; a list that names the largest \<open>int\<close> as the end of
  a range hangs the driver at startup.
\<close>

theorem range_cpus_terminates_iff:
  assumes "in_int i" "in_int e"
  shows "range_cpus i e = (if i \<le> e \<and> e = max_int then None else Some [i..e])"
proof (cases "i \<le> e \<and> e = max_int")
  case True
  then show ?thesis using range_cpus_diverges [of i e] assms(1) by (cases "range_cpus i e") auto
next
  case False
  show ?thesis
  proof (cases "e < max_int")
    case True
    with range_cpus_ends [OF this assms(1)] show ?thesis by auto
  next
    case False
    with assms(2) have "e = max_int" by (auto simp: in_int_def max_int_def)
    with \<open>\<not> (i \<le> e \<and> e = max_int)\<close> show ?thesis by (simp add: range_cpus_unfold(2))
  qed
qed

theorem range_cpus_terminates_iff_witness:
  "range_cpus 0 3 = Some [0, 1, 2, 3] \<and> range_cpus 0 9223372036854775807 = None"
  using range_cpus_terminates_iff [of 0 3] range_cpus_terminates_iff [of 0 9223372036854775807]
  by (simp add: max_int_def in_int_def upto_rec1)

text \<open>A CPU list as the kernel prints it: single CPUs and ranges.\<close>

definition print_cpu_range :: "int \<times> int \<Rightarrow> string" where
  "print_cpu_range r =
     (if fst r = snd r then show_int (fst r) else show_int (fst r) @ CHR ''-'' # show_int (snd r))"

definition cpu_range :: "int \<times> int \<Rightarrow> bool" where
  "cpu_range r \<longleftrightarrow> 0 \<le> fst r \<and> fst r \<le> snd r \<and> snd r < max_int"

lemma cpu_range_ints: "cpu_range r \<Longrightarrow> in_int (fst r) \<and> in_int (snd r)"
  by (auto simp: cpu_range_def max_int_def in_int_def)

lemma show_int_no_minus: "0 \<le> i \<Longrightarrow> CHR ''-'' \<notin> set (show_int i)"
  using show_int_nonneg_chars [of i "CHR ''-''"] by auto

lemma print_range_chars:
  assumes "cpu_range r"
  shows "CHR '','' \<notin> set (print_cpu_range r)" "graphic_str (print_cpu_range r)" "print_cpu_range r \<noteq> []"
proof -
  show "CHR '','' \<notin> set (print_cpu_range r)" "print_cpu_range r \<noteq> []"
    by (simp_all add: print_cpu_range_def)
  have "graphic c" if "c \<in> set (show_int i)" for c i
    using show_int_chars [OF that] is_dec_graphic by (auto simp: graphic_def)
  moreover have "graphic (CHR ''-'')" by (simp add: graphic_def)
  ultimately show "graphic_str (print_cpu_range r)"
    by (auto simp: print_cpu_range_def graphic_str_def)
qed

lemma parse_print_range:
  assumes "cpu_range r"
  shows "parse_cpu_part (print_cpu_range r) = Some (Inr [fst r..snd r])"
proof -
  have trim: "trim_space (print_cpu_range r) = print_cpu_range r"
    by (rule trim_space_graphic [OF print_range_chars(2) [OF assms]])
  have i: "in_int (fst r)" "in_int (snd r)" using cpu_range_ints [OF assms] by auto
  have minus: "CHR ''-'' \<notin> set (show_int (fst r))"
    using assms by (simp add: cpu_range_def show_int_no_minus)
  show ?thesis
  proof (cases "fst r = snd r")
    case True
    then have p: "print_cpu_range r = show_int (fst r)" by (simp add: print_cpu_range_def)
    have "str_index (CHR ''-'') (show_int (fst r)) = None" using minus by (simp add: str_index_None)
    then show ?thesis
      unfolding parse_cpu_part_def Let_def trim unfolding p using i True by (simp add: atoi_show_int)
  next
    case False
    then have p: "print_cpu_range r = show_int (fst r) @ CHR ''-'' # show_int (snd r)"
      by (simp add: print_cpu_range_def)
    have "range_cpus (fst r) (snd r) = Some [fst r..snd r]"
      using range_cpus_ends [OF _ i(1)] assms by (simp add: cpu_range_def)
    then show ?thesis
      unfolding parse_cpu_part_def Let_def trim unfolding p
      by (simp add: str_index_append [OF minus] atoi_show_int i)
  qed
qed

text \<open>
  The CPU lists that the kernel prints are read back completely: every non-empty list of single
  CPUs and ranges parses, in finite time, to the CPUs of its ranges in order.
\<close>

theorem parseCPUList_print:
  assumes "rs \<noteq> []" "\<forall>r \<in> set rs. cpu_range r"
  shows "parseCPUList (str_join '','' (map print_cpu_range rs)) =
    Some (Inr (concat (map (\<lambda>r. [fst r..snd r]) rs)))"
proof -
  have split: "str_split (CHR '','') (str_join '','' (map print_cpu_range rs)) = map print_cpu_range rs"
    using assms print_range_chars(1) by (intro str_split_join) auto
  have "str_join '','' (map print_cpu_range rs) \<noteq> []"
  proof
    assume "str_join '','' (map print_cpu_range rs) = []"
    with split have "map print_cpu_range rs = [[]]" by simp
    with assms(2) print_range_chars(3) show False by auto
  qed
  moreover have "parse_cpu_parts (map print_cpu_range rs) = Some (Inr (concat (map (\<lambda>r. [fst r..snd r]) rs)))"
    using assms(2) by (induction rs) (simp_all add: parse_print_range)
  ultimately show ?thesis by (simp add: parseCPUList_def split)
qed

theorem parseCPUList_print_witness: "parseCPUList ''0-2,8'' = Some (Inr [0, 1, 2, 8])"
proof -
  have "str_join '','' (map print_cpu_range [(0, 2), (8, 8)]) = ''0-2,8''"
    by (simp add: print_cpu_range_def show_evals)
  with parseCPUList_print [of "[(0, 2), (8, 8)]"] show ?thesis
    by (simp add: cpu_range_def max_int_def upto_rec1)
qed

subsection \<open>Sizes\<close>

text \<open>
  Cache sizes with a unit are read exactly as long as the byte count fits: \<open>v\<close> with the unit
  letter \<open>c\<close> gives \<open>v\<close> times the unit, and wraps around modulo \<open>2 ^ 64\<close> otherwise.
\<close>

lemma parseCacheSize_units:
  assumes "0 \<le> v" "in_int v" "size_multiplier c = Some u"
  shows "parseCacheSize (show_int v @ [c]) = Inr (wrap64 (v * u)) \<and>
    (in_int (v * u) \<longrightarrow> parseCacheSize (show_int v @ [c]) = Inr (v * u)) \<and>
    parseCacheSize (show_int v) = Inr v"
proof -
  have "graphic d" if "d \<in> set (show_int v)" for d
    using show_int_chars [OF that] is_dec_graphic by (auto simp: graphic_def)
  then have trim: "trim_space (show_int v) = show_int v"
    by (intro trim_space_graphic) (simp add: graphic_str_def)
  have "is_dec (last (show_int v))"
    using show_int_nonneg_chars [OF assms(1), of "last (show_int v)"] by simp
  then have "size_multiplier (last (show_int v)) = None"
    by (auto simp: size_multiplier_def is_dec_def)
  with assms show ?thesis by (simp add: parseCacheSize_def trim atoi_show_int)
qed

subsection \<open>Lookups\<close>

text \<open>What one CPU directory says: a cache ID and the attribute of its L3 cache.\<close>

definition entry_attr ::
  "'w os \<Rightarrow> 'w \<Rightarrow> string \<Rightarrow> (string \<Rightarrow> 'v option) \<Rightarrow> dir_entry \<Rightarrow> (int \<times> 'v) option" where
  "entry_attr os w sysCPUPath read_attr entry =
     (if de_dir entry \<and> has_prefix ''cpu'' (de_name entry) \<and> atoi (trim_prefix ''cpu'' (de_name entry)) \<noteq> None
      then (let indexDir = findL3CacheIndexDir os w (path_join [sysCPUPath, de_name entry, ''cache'']) in
            if indexDir = [] then None
            else (case (read_id os w (path_join [indexDir, ''id'']), read_attr indexDir) of
                    (Some cacheID, Some v) \<Rightarrow> Some (cacheID, v)
                  | _ \<Rightarrow> None))
      else None)"

lemma cache_entry_attr:
  "cache_entry os w path rd entry m =
     (case entry_attr os w path rd entry of
        None \<Rightarrow> m
      | Some (c, v) \<Rightarrow> if m c \<noteq> None then m else m(c \<mapsto> v))"
  by (auto simp: cache_entry_def entry_attr_def Let_def split: option.splits)

lemma fold_cache_entry:
  "fold (cache_entry os w path rd) entries m = map_of (List.map_filter (entry_attr os w path rd) entries) ++ m"
proof (induction entries arbitrary: m)
  case (Cons e es)
  show ?case
  proof (cases "entry_attr os w path rd e")
    case None
    then show ?thesis using Cons by (simp add: cache_entry_attr List.map_filter_simps)
  next
    case (Some cv)
    obtain c v where cv: "cv = (c, v)" by fastforce
    have "fold (cache_entry os w path rd) (e # es) m =
        fold (cache_entry os w path rd) es (if m c \<noteq> None then m else m(c \<mapsto> v))"
      by (simp add: cache_entry_attr [of os w path rd e] Some cv)
    also have "\<dots> = map_of (List.map_filter (entry_attr os w path rd) es) ++ (if m c \<noteq> None then m else m(c \<mapsto> v))"
      by (rule Cons.IH)
    finally show ?thesis
      by (auto simp: Some cv List.map_filter_simps map_add_def fun_eq_iff split: option.splits)
  qed
qed (simp add: List.map_filter_simps)

lemma map_of_empty_iff: "map_of xs = Map.empty \<longleftrightarrow> xs = []"
  by (cases xs) (auto simp: fun_eq_iff)

text \<open>
  The lookups of cache sizes and CPU lists answer from the first CPU directory, in listing
  order, that has an L3 cache with a readable ID and attribute: for each cache ID the result is the
  attribute of the first such directory with that ID, unreadable directories being skipped, and
  the call fails exactly when there is none.
\<close>

theorem cache_lookups_first_wins:
  assumes "os_read_dir os w path = Inr entries" "path \<noteq> []"
  shows "(let found = List.map_filter (entry_attr os w path (read_cache_size os w)) entries
      in LookupCacheSizes os w path =
           (if found = [] then Inl (Errorf ''no L3 cache sizes found in %s'' [ArgStr path])
            else Inr (map_of found))) \<and>
    (let found = List.map_filter (entry_attr os w path (read_cpu_list os w)) entries
      in LookupCacheCPUList os w path =
           (if found = [] then Inl (Errorf ''no L3 CPU lists found in %s'' [ArgStr path])
            else Inr (map_of found)))"
  using assms
  by (simp add: LookupCacheSizes_def LookupCacheCPUList_def fold_cache_entry map_of_empty_iff Let_def)

definition sys_fs :: memfs where
  "sys_fs =
     \<lparr>mem_dirs = [''/c'', ''/c/cpu0'', ''/c/cpu0/cache'', ''/c/cpu0/cache/index3'', ''/c/cpufreq''],
      mem_files = [(''/c/cpu0/cache/index3/level'', ''3'' @ [newline]),
                   (''/c/cpu0/cache/index3/id'', ''1'' @ [newline]),
                   (''/c/cpu0/cache/index3/size'', ''32768K'' @ [newline])]\<rparr>"

lemma sys_read_dirs:
  "os_read_dir mem_os sys_fs ''/c'' =
     Inr [\<lparr>de_name = ''cpu0'', de_dir = True\<rparr>, \<lparr>de_name = ''cpufreq'', de_dir = True\<rparr>]"
  "os_read_dir mem_os sys_fs ''/c/cpu0/cache'' = Inr [\<lparr>de_name = ''index3'', de_dir = True\<rparr>]"
  by (simp_all add: go_eval sys_fs_def Let_def)

lemma sys_trims:
  "trim_space (''3'' @ [newline]) = ''3''" "trim_space (''1'' @ [newline]) = ''1''"
  "trim_space (''32768K'' @ [newline]) = ''32768K''"
  by (rule trim_space_newline, simp add: graphic_def)+

lemma sys_paths:
  "path_join [''/c'', ''cpu0'', ''cache''] = ''/c/cpu0/cache''"
  "path_join [''/c/cpu0/cache'', ''index3'', ''level''] = ''/c/cpu0/cache/index3/level''"
  "path_join [''/c/cpu0/cache'', ''index3''] = ''/c/cpu0/cache/index3''"
  "path_join [''/c/cpu0/cache/index3'', ''id''] = ''/c/cpu0/cache/index3/id''"
  "path_join [''/c/cpu0/cache/index3'', ''size''] = ''/c/cpu0/cache/index3/size''"
  by (simp_all add: path_join_def path_clean_def render_path_def)

lemma sys_files:
  "os_read_file mem_os sys_fs ''/c/cpu0/cache/index3/level'' = Inr (''3'' @ [newline])"
  "os_read_file mem_os sys_fs ''/c/cpu0/cache/index3/id'' = Inr (''1'' @ [newline])"
  "os_read_file mem_os sys_fs ''/c/cpu0/cache/index3/size'' = Inr (''32768K'' @ [newline])"
  by (simp_all add: go_eval sys_fs_def)

lemma sys_numbers: "atoi ''0'' = Some 0" "atoi ''1'' = Some 1" "atoi ''freq'' = None"
  by (simp_all add: atoi_def parse_nat_def dec_val_def is_dec_def)

lemma sys_size: "parseCacheSize ''32768K'' = Inr 33554432"
proof -
  have "atoi ''32768'' = Some 32768" using atoi_show_int [of 32768] by (simp add: show_evals in_int_def)
  moreover have "trim_space ''32768'' = ''32768''" by (rule trim_space_id) (simp add: graphic_def)
  ultimately show ?thesis by (simp add: parseCacheSize_def size_multiplier_def in_int_def)
qed

lemma sys_entries:
  "entry_attr mem_os sys_fs ''/c'' (read_cache_size mem_os sys_fs) \<lparr>de_name = ''cpu0'', de_dir = True\<rparr> =
     Some (1, 33554432)"
  "entry_attr mem_os sys_fs ''/c'' (read_cache_size mem_os sys_fs) \<lparr>de_name = ''cpufreq'', de_dir = True\<rparr> = None"
  using sys_trims
  by (simp_all add: entry_attr_def trim_prefix_def sys_numbers sys_paths findL3CacheIndexDir_def
      sys_read_dirs sys_files read_id_def read_cache_size_def sys_size Let_def)

theorem cache_lookups_first_wins_witness:
  "LookupCacheSizes mem_os sys_fs ''/c'' = Inr [1 \<mapsto> 33554432]"
  using cache_lookups_first_wins [OF sys_read_dirs(1)] sys_entries
  by (simp add: List.map_filter_simps Let_def)

end
