(* ===== verification/Process.thy ===== *)
theory Process
  imports Lifecycle
begin

text \<open>
  The end of \<open>main\<close> as a process with its goroutines: the health server, the registration server, the
  plugin's gRPC server in the main goroutine, the signal, and the clean-up. A step is one statement of
  \<open>main\<close>, or one call or return of a background server. \<open>klog.Fatalf\<close> in any goroutine ends the process
  at once. \<open>Lifecycle\<close> has the same statements as one function, without the goroutines.
\<close>

datatype main_pc =
  StartHealth | SetReady | StartRegistrar | StartMonitor | OpenSocket | Serving
| RemoveSlice "go_error option" | CleanUp | DropGroups "CachePartition list" | Exited "unit outcome"

datatype server_pc = NotStarted | Up | Down

datatype registrar_pc = RegIdle | RegDir | RegSocket | RegServing | RegStopped

record 'w process =
  pr_world :: 'w
  pr_main :: main_pc
  pr_health :: HealthServer
  pr_health_up :: server_pc
  pr_registrar :: registrar_pc
  pr_monitor :: "Monitor option"
  pr_cancelled :: bool
  pr_metrics :: "metric_event list"

definition process_start :: "Flags \<Rightarrow> 'w \<Rightarrow> 'w process" where
  "process_start flags w =
     \<lparr>pr_world = w, pr_main = StartHealth, pr_health = NewHealthServer (healthPort flags),
      pr_health_up = NotStarted, pr_registrar = RegIdle, pr_monitor = None, pr_cancelled = False,
      pr_metrics = []\<rparr>"

definition fatal :: "string \<Rightarrow> go_error \<Rightarrow> 'w process \<Rightarrow> 'w process" where
  "fatal msg e p = p\<lparr>pr_main := Exited (Fatal msg (Some e))\<rparr>"

definition main_registrar :: "Flags \<Rightarrow> Registrar" where
  "main_registrar flags = NewRegistrar mainDriverName (socketPath flags)"

subsection \<open>The main goroutine\<close>

text \<open>The next statement of \<open>main\<close> or of its deferred calls; while the gRPC server runs, and after the
  end, there is none.\<close>

definition main_step ::
  "'w os \<Rightarrow> 'w net \<Rightarrow> 'w kube \<Rightarrow> Flags \<Rightarrow> string \<Rightarrow> DRACapabilities \<Rightarrow> CachePartition list list
     \<Rightarrow> 'w process \<Rightarrow> 'w process option" where
  "main_step os net kube flags node caps perCache p =
     (case pr_main p of
        StartHealth \<Rightarrow> Some (p\<lparr>pr_main := SetReady, pr_health_up := Up\<rparr>)
      | SetReady \<Rightarrow> Some (p\<lparr>pr_main := StartRegistrar, pr_health := MarkReady (pr_health p)\<rparr>)
      | StartRegistrar \<Rightarrow> Some (p\<lparr>pr_main := StartMonitor, pr_registrar := RegDir\<rparr>)
      | StartMonitor \<Rightarrow>
          Some (p\<lparr>pr_main := OpenSocket, pr_monitor := start_monitor os flags (pr_world p)\<rparr>)
      | OpenSocket \<Rightarrow>
          (case net_listen net (snd (os_remove os (pr_world p) (socketPath flags))) (socketPath flags) of
             (Some e, w1) \<Rightarrow>
               Some (p\<lparr>pr_world := w1,
                       pr_main := RemoveSlice (Some (Wrapf ''listening on %s: %w'' [ArgStr (socketPath flags)] (OsError e)))\<rparr>)
           | (None, w1) \<Rightarrow> Some (p\<lparr>pr_world := w1, pr_main := Serving\<rparr>))
      | Serving \<Rightarrow> None
      | RemoveSlice grpcErr \<Rightarrow>
          (let p1 = p\<lparr>pr_world := snd (DeleteSlice kube (NewSlicePublisher mainDriverName node caps) (pr_world p))\<rparr>
           in Some (case grpcErr of
                      Some e \<Rightarrow> fatal ''gRPC server error'' e p1
                    | None \<Rightarrow> p1\<lparr>pr_main := CleanUp\<rparr>))
      | CleanUp \<Rightarrow>
          Some (if PartitionableDevices caps then p\<lparr>pr_main := Exited (Started ())\<rparr>
                else p\<lparr>pr_world := CleanupCDISpecs os (flagCdiDir flags) (pr_world p),
                       pr_main := DropGroups (AllPartitions perCache)\<rparr>)
      | DropGroups [] \<Rightarrow> Some (p\<lparr>pr_main := Exited (Started ())\<rparr>)
      | DropGroups (q # qs) \<Rightarrow>
          (case DeleteGroup os (resctrlRoot flags) (ResctrlGroup q) (pr_world p) of
             (err, w1) \<Rightarrow>
               Some (p\<lparr>pr_world := w1, pr_main := DropGroups qs,
                       pr_metrics := pr_metrics p @
                         [Inc ResctrlGroupDeleteTotal [if err \<noteq> None then ''error'' else ''success'']]\<rparr>))
      | Exited _ \<Rightarrow> None)"

subsection \<open>The registration server\<close>

definition registrar_step :: "'w os \<Rightarrow> 'w net \<Rightarrow> Flags \<Rightarrow> 'w process \<Rightarrow> 'w process option" where
  "registrar_step os net flags p =
     (let socket = reg_socket_path (main_registrar flags) (registryDir flags) in
      case pr_registrar p of
        RegDir \<Rightarrow>
          (case os_mkdir_all os (pr_world p) (registryDir flags) of
             (Some e, w1) \<Rightarrow>
               Some (fatal ''Registration server error'' (Wrapf ''creating registry directory: %w'' [] (OsError e)) (p\<lparr>pr_world := w1\<rparr>))
           | (None, w1) \<Rightarrow> Some (p\<lparr>pr_world := w1, pr_registrar := RegSocket\<rparr>))
      | RegSocket \<Rightarrow>
          (case net_listen net (snd (os_remove os (pr_world p) socket)) socket of
             (Some e, w1) \<Rightarrow>
               Some (fatal ''Registration server error'' (Wrapf ''listening on %s: %w'' [ArgStr socket] (OsError e)) (p\<lparr>pr_world := w1\<rparr>))
           | (None, w1) \<Rightarrow> Some (p\<lparr>pr_world := w1, pr_registrar := RegServing\<rparr>))
      | RegServing \<Rightarrow>
          (if pr_cancelled p then Some (p\<lparr>pr_world := snd (os_remove os (pr_world p) socket), pr_registrar := RegStopped\<rparr>)
           else None)
      | _ \<Rightarrow> None)"

subsection \<open>The process\<close>

text \<open>
  A server may fail at any time; it ends without an error only after the signal. \<open>env\<close> is what the rest
  of the world, and the requests that are served, may change between two steps.
\<close>

inductive process_step ::
  "'w os \<Rightarrow> 'w net \<Rightarrow> 'w kube \<Rightarrow> Flags \<Rightarrow> string \<Rightarrow> DRACapabilities \<Rightarrow> CachePartition list list \<Rightarrow> ('w \<Rightarrow> 'w \<Rightarrow> bool)
     \<Rightarrow> 'w process \<Rightarrow> 'w process \<Rightarrow> bool"
  for os net kube flags node caps perCache env where
  main: "main_step os net kube flags node caps perCache p = Some p' \<Longrightarrow>
    process_step os net kube flags node caps perCache env p p'"
| served: "pr_main p = Serving \<Longrightarrow> err = None \<longrightarrow> pr_cancelled p \<Longrightarrow>
    process_step os net kube flags node caps perCache env p (p\<lparr>pr_main := RemoveSlice (map_option OsError err)\<rparr>)"
| registrar: "\<forall>r. pr_main p \<noteq> Exited r \<Longrightarrow> registrar_step os net flags p = Some p' \<Longrightarrow>
    process_step os net kube flags node caps perCache env p p'"
| registrar_fails: "\<forall>r. pr_main p \<noteq> Exited r \<Longrightarrow> pr_registrar p = RegServing \<Longrightarrow>
    process_step os net kube flags node caps perCache env p (fatal ''Registration server error'' (OsError err) p)"
| health_ends: "\<forall>r. pr_main p \<noteq> Exited r \<Longrightarrow> pr_health_up p = Up \<Longrightarrow>
    err = ''http: Server closed'' \<longrightarrow> pr_cancelled p \<Longrightarrow>
    process_step os net kube flags node caps perCache env p
      (case HealthServe (\<lambda>address w. (err, w)) (pr_health p) (pr_world p) of
         (None, _) \<Rightarrow> p\<lparr>pr_health_up := Down\<rparr>
       | (Some e, _) \<Rightarrow> fatal ''Health server error'' e p)"
| signal: "\<forall>r. pr_main p \<noteq> Exited r \<Longrightarrow>
    process_step os net kube flags node caps perCache env p (p\<lparr>pr_cancelled := True\<rparr>)"
| world: "\<forall>r. pr_main p \<noteq> Exited r \<Longrightarrow> env (pr_world p) w \<Longrightarrow>
    process_step os net kube flags node caps perCache env p (p\<lparr>pr_world := w\<rparr>)"

inductive process_reach ::
  "'w os \<Rightarrow> 'w net \<Rightarrow> 'w kube \<Rightarrow> Flags \<Rightarrow> string \<Rightarrow> DRACapabilities \<Rightarrow> CachePartition list list \<Rightarrow> ('w \<Rightarrow> 'w \<Rightarrow> bool)
     \<Rightarrow> 'w process \<Rightarrow> 'w process \<Rightarrow> bool"
  for os net kube flags node caps perCache env p0 where
  init: "process_reach os net kube flags node caps perCache env p0 p0"
| step: "process_reach os net kube flags node caps perCache env p0 p \<Longrightarrow>
    process_step os net kube flags node caps perCache env p p' \<Longrightarrow>
    process_reach os net kube flags node caps perCache env p0 p'"

end
