(* ===== verification/ProcessProps.thy ===== *)
theory ProcessProps
  imports Process LifecycleProps
begin

text \<open>
  The process of \<open>Process\<close>: in which order it becomes ready and opens its socket, that it ends after the
  signal, and which of its exits clean up.
\<close>

subsection \<open>Readiness\<close>

definition exited :: "'w process \<Rightarrow> bool" where
  "exited p \<longleftrightarrow> (\<exists>r. pr_main p = Exited r)"

lemma fatal_simps [simp]:
  "pr_main (fatal m e p) = Exited (Fatal m (Some e))" "pr_world (fatal m e p) = pr_world p"
  "pr_health (fatal m e p) = pr_health p" "pr_cancelled (fatal m e p) = pr_cancelled p"
  by (simp_all add: fatal_def)

lemma registrar_step_keeps:
  "registrar_step os net flags p = Some p' \<Longrightarrow>
   (pr_main p' = pr_main p \<or> (\<exists>m e. pr_main p' = Exited (Fatal m (Some e)))) \<and>
   pr_health p' = pr_health p \<and> pr_cancelled p' = pr_cancelled p"
  by (auto simp: registrar_step_def Let_def split: registrar_pc.splits prod.splits option.splits if_splits)

definition readiness_inv :: "'w process \<Rightarrow> bool" where
  "readiness_inv p \<longleftrightarrow> exited p \<or>
     (resp_code (readyz (pr_health p)) = 200 \<longleftrightarrow> pr_main p \<noteq> StartHealth \<and> pr_main p \<noteq> SetReady)"

lemma readiness_step:
  assumes "readiness_inv p" "process_step os net kube flags node caps perCache env p p'"
  shows "readiness_inv p'"
  using assms(2)
proof (cases rule: process_step.cases)
  case main
  then show ?thesis using assms(1)
    by (auto simp: main_step_def readiness_inv_def exited_def readyz_def MarkReady_def Let_def
        split: main_pc.splits list.splits prod.splits option.splits if_splits)
next
  case (registrar)
  then show ?thesis using assms(1) registrar_step_keeps [of os net flags p p']
    by (auto simp: readiness_inv_def exited_def)
next
  case (health_ends err)
  then show ?thesis using assms(1)
    by (auto simp: readiness_inv_def exited_def split: prod.splits option.splits)
qed (use assms(1) in \<open>auto simp: readiness_inv_def exited_def\<close>)

lemma readiness_reach:
  "process_reach os net kube flags node caps perCache env p0 p \<Longrightarrow> readiness_inv p0 \<Longrightarrow> readiness_inv p"
  by (induction rule: process_reach.induct) (use readiness_step in blast)+

text \<open>
  C25: Readiness does not wait for the plugin's socket. While the process lives, \<open>/readyz\<close> answers 200 from
  the statement after the start of the health server on, so it answers 200 whenever the plugin serves;
  but there is always a run in which it answers 200 while the socket is still closed.
\<close>

theorem readiness_precedes_serving:
  "(\<forall>p. process_reach os net kube flags node caps perCache env (process_start flags w) p \<longrightarrow> \<not> exited p \<longrightarrow>
      (resp_code (readyz (pr_health p)) = 200 \<longleftrightarrow> pr_main p \<noteq> StartHealth \<and> pr_main p \<noteq> SetReady)) \<and>
   (\<exists>p. process_reach os net kube flags node caps perCache env (process_start flags w) p \<and> \<not> exited p \<and>
      resp_code (readyz (pr_health p)) = 200 \<and> pr_main p = OpenSocket)"
proof (intro conjI allI impI)
  fix p
  assume r: "process_reach os net kube flags node caps perCache env (process_start flags w) p" and live: "\<not> exited p"
  have "readiness_inv (process_start flags w)"
    by (simp add: readiness_inv_def exited_def process_start_def readyz_def NewHealthServer_def)
  with readiness_reach [OF r] live
  show "resp_code (readyz (pr_health p)) = 200 \<longleftrightarrow> pr_main p \<noteq> StartHealth \<and> pr_main p \<noteq> SetReady"
    by (simp add: readiness_inv_def)
next
  let ?p0 = "process_start flags w"
  let ?p1 = "?p0\<lparr>pr_main := SetReady, pr_health_up := Up\<rparr>"
  let ?p2 = "?p1\<lparr>pr_main := StartRegistrar, pr_health := MarkReady (pr_health ?p1)\<rparr>"
  let ?p3 = "?p2\<lparr>pr_main := StartMonitor, pr_registrar := RegDir\<rparr>"
  let ?p4 = "?p3\<lparr>pr_main := OpenSocket, pr_monitor := start_monitor os flags (pr_world ?p3)\<rparr>"
  have steps: "main_step os net kube flags node caps perCache ?p0 = Some ?p1"
    "main_step os net kube flags node caps perCache ?p1 = Some ?p2"
    "main_step os net kube flags node caps perCache ?p2 = Some ?p3"
    "main_step os net kube flags node caps perCache ?p3 = Some ?p4"
    by (simp_all add: main_step_def process_start_def)
  note go = process_reach.step [OF _ process_step.main]
  have "process_reach os net kube flags node caps perCache env ?p0 ?p4"
    by (rule go [OF go [OF go [OF go [OF process_reach.init steps(1)] steps(2)] steps(3)] steps(4)])
  moreover have "\<not> exited ?p4 \<and> resp_code (readyz (pr_health ?p4)) = 200 \<and> pr_main ?p4 = OpenSocket"
    by (simp add: exited_def readyz_def MarkReady_def)
  ultimately show "\<exists>p. process_reach os net kube flags node caps perCache env ?p0 p \<and> \<not> exited p \<and>
      resp_code (readyz (pr_health p)) = 200 \<and> pr_main p = OpenSocket" by blast
qed

subsection \<open>What the exits remove\<close>

text \<open>In basic mode the requests change no files; other programs do not write to this process's log.\<close>

definition quiet_env :: "'w recorded \<Rightarrow> 'w recorded \<Rightarrow> bool" where
  "quiet_env x y \<longleftrightarrow> snd y = snd x"

definition sockets :: "Flags \<Rightarrow> string set" where
  "sockets flags = {socketPath flags, reg_socket_path (main_registrar flags) (registryDir flags)}"

text \<open>The network calls and the API client do not see the log.\<close>

definition unlogged_net :: "'w net \<Rightarrow> 'w recorded net" where
  "unlogged_net net = \<lparr>net_listen = (\<lambda>(w, l) s. case net_listen net w s of (e, w1) \<Rightarrow> (e, (w1, l)))\<rparr>"

lemma unlogged_listen [simp]:
  "net_listen (unlogged_net net) (w, l) s = (fst (net_listen net w s), (snd (net_listen net w s), l))"
  by (simp add: unlogged_net_def case_prod_unfold)

fun exit_goal :: "Flags \<Rightarrow> CachePartition list list \<Rightarrow> os_call list \<Rightarrow> main_pc \<Rightarrow> bool" where
  "exit_goal flags perCache l (DropGroups qs) = (\<exists>ps. AllPartitions perCache = ps @ qs \<and>
     set (map (group_dir (resctrlRoot flags)) ps) \<subseteq> set (removed l))"
| "exit_goal flags perCache l (Exited (Started ())) =
     (set (map (group_dir (resctrlRoot flags)) (AllPartitions perCache)) \<subseteq> set (removed l))"
| "exit_goal flags perCache l _ = True"

fun after_signal :: "main_pc \<Rightarrow> bool" where
  "after_signal (RemoveSlice None) = True"
| "after_signal CleanUp = True"
| "after_signal (DropGroups _) = True"
| "after_signal (Exited (Started ())) = True"
| "after_signal _ = False"

definition exit_inv :: "Flags \<Rightarrow> CachePartition list list \<Rightarrow> 'w recorded process \<Rightarrow> bool" where
  "exit_inv flags perCache p \<longleftrightarrow> exit_goal flags perCache (snd (pr_world p)) (pr_main p) \<and>
     (after_signal (pr_main p) \<longrightarrow> pr_cancelled p) \<and>
     (pr_cancelled p \<or> set (removed (snd (pr_world p))) \<subseteq> sockets flags)"

lemma delete_slice_logged:
  "snd (snd (DeleteSlice (unlogged kube) sp (w, l))) = l"
  by (auto simp: DeleteSlice_def unlogged_def split: prod.splits option.splits)

lemma exit_main_step:
  assumes inv: "exit_inv flags perCache p" and basic: "\<not> PartitionableDevices caps"
    and st: "main_step (logged os) (unlogged_net net) (unlogged kube) flags node caps perCache p = Some p'"
  shows "exit_inv flags perCache p'"
proof -
  obtain w l where w: "pr_world p = (w, l)" by fastforce
  have socket: "socketPath flags \<in> sockets flags" by (simp add: sockets_def)
  show ?thesis
  proof (cases "pr_main p")
    case OpenSocket
    with inv st w socket show ?thesis
      by (auto simp: exit_inv_def main_step_def split: prod.splits option.splits)
  next
    case (RemoveSlice e)
    with inv st w delete_slice_logged [of kube _ w l] show ?thesis
      by (auto simp: exit_inv_def main_step_def Let_def split: option.splits)
  next
    case CleanUp
    with inv st w basic show ?thesis
      by (auto simp: exit_inv_def main_step_def CleanupCDISpecs_def)
  next
    case (DropGroups qs)
    show ?thesis
    proof (cases qs)
      case Nil
      with DropGroups inv st w show ?thesis by (auto simp: exit_inv_def main_step_def)
    next
      case (Cons q qs')
      obtain e w1 l1 where d: "DeleteGroup (logged os) (resctrlRoot flags) (ResctrlGroup q) (w, l) = (e, (w1, l1))"
        using prod_cases3 by blast
      obtain new where "l1 = l @ new" "removed new = [group_dir (resctrlRoot flags) q]"
        using DeleteGroup_logged [OF d] by (auto simp: group_dir_def)
      moreover obtain ps where "AllPartitions perCache = ps @ q # qs'"
          "set (map (group_dir (resctrlRoot flags)) ps) \<subseteq> set (removed l)"
        using inv DropGroups Cons w by (auto simp: exit_inv_def)
      ultimately have "exit_goal flags perCache l1 (DropGroups qs')"
        by (auto intro!: exI [of _ "ps @ [q]"])
      then show ?thesis
        using DropGroups Cons inv st w d by (auto simp: exit_inv_def main_step_def simp del: exit_goal.simps)
    qed
  qed (use inv st in \<open>auto simp: exit_inv_def main_step_def\<close>)
qed

lemma exit_registrar_step:
  assumes inv: "exit_inv flags perCache p"
    and st: "registrar_step (logged os) (unlogged_net net) flags p = Some p'"
  shows "exit_inv flags perCache p'"
proof -
  obtain w l where w: "pr_world p = (w, l)" by fastforce
  have socket: "reg_socket_path (main_registrar flags) (registryDir flags) \<in> sockets flags" by (simp add: sockets_def)
  have "set (removed l) \<subseteq> set (removed (snd (pr_world p'))) \<and>
      set (removed (snd (pr_world p'))) \<subseteq> set (removed l) \<union> sockets flags"
    using st w socket
    by (auto simp: registrar_step_def Let_def split: registrar_pc.splits prod.splits option.splits if_splits)
  moreover from this have "exit_goal flags perCache l m \<Longrightarrow> exit_goal flags perCache (snd (pr_world p')) m" for m
    by (induction flags perCache l m rule: exit_goal.induct) auto
  ultimately show ?thesis using registrar_step_keeps [OF st] inv w by (auto simp: exit_inv_def simp del: set_map)
qed

lemma exit_step:
  assumes inv: "exit_inv flags perCache p" and basic: "\<not> PartitionableDevices caps"
    and st: "process_step (logged os) (unlogged_net net) (unlogged kube) flags node caps perCache quiet_env p p'"
  shows "exit_inv flags perCache p'"
  using st
proof (cases rule: process_step.cases)
  case main
  then show ?thesis by (rule exit_main_step [OF inv basic])
next
  case registrar
  then show ?thesis using exit_registrar_step [OF inv] by simp
next
  case (served err)
  then show ?thesis using inv by (cases err) (simp_all add: exit_inv_def)
next
  case (health_ends err)
  then show ?thesis using inv by (auto simp: exit_inv_def split: prod.splits option.splits)
next
  case signal
  then show ?thesis using inv by (simp add: exit_inv_def)
qed (use inv in \<open>simp_all add: exit_inv_def quiet_env_def\<close>)

text \<open>
  C23: Only a clean exit cleans up. In basic mode, if the process ends without an error then the signal was
  received and the directory of every partition's group was removed; but if it ends because one of
  its three servers failed before the signal, then it has removed nothing but sockets, so all groups
  of the partitions stay in the kernel.
\<close>

theorem only_clean_exit_cleans_up:
  assumes "process_reach (logged os) (unlogged_net net) (unlogged kube) flags node caps perCache quiet_env
      (process_start flags (w, [])) p"
    and "\<not> PartitionableDevices caps" "pr_main p = Exited r"
  shows "case r of
      Started _ \<Rightarrow> pr_cancelled p \<and>
        set (map (group_dir (resctrlRoot flags)) (AllPartitions perCache)) \<subseteq> set (removed (snd (pr_world p)))
    | Fatal m e \<Rightarrow> pr_cancelled p \<or> set (removed (snd (pr_world p))) \<subseteq> sockets flags"
proof -
  have "exit_inv flags perCache p"
    using assms(1,2)
  proof (induction rule: process_reach.induct)
    case init
    then show ?case by (simp add: exit_inv_def process_start_def)
  next
    case (step p p')
    then show ?case using exit_step by blast
  qed
  with assms(3) show ?thesis by (cases r) (simp_all add: exit_inv_def)
qed

subsection \<open>The end after the signal\<close>

text \<open>The statements that the main goroutine has left.\<close>

fun main_left :: "CachePartition list list \<Rightarrow> main_pc \<Rightarrow> nat" where
  "main_left perCache StartHealth = length (AllPartitions perCache) + 9"
| "main_left perCache SetReady = length (AllPartitions perCache) + 8"
| "main_left perCache StartRegistrar = length (AllPartitions perCache) + 7"
| "main_left perCache StartMonitor = length (AllPartitions perCache) + 6"
| "main_left perCache OpenSocket = length (AllPartitions perCache) + 5"
| "main_left perCache Serving = length (AllPartitions perCache) + 4"
| "main_left perCache (RemoveSlice e) = length (AllPartitions perCache) + 3"
| "main_left perCache CleanUp = length (AllPartitions perCache) + 2"
| "main_left perCache (DropGroups qs) = length qs + 1"
| "main_left perCache (Exited r) = 0"

lemma main_step_left:
  "main_step os net kube flags node caps perCache p = Some p' \<Longrightarrow>
   main_left perCache (pr_main p') < main_left perCache (pr_main p)"
  by (cases "pr_main p")
    (auto simp: main_step_def fatal_def Let_def split: prod.splits option.splits list.splits if_splits)

lemma main_step_next:
  "\<not> exited p \<Longrightarrow> pr_main p \<noteq> Serving \<Longrightarrow> \<exists>p'. main_step os net kube flags node caps perCache p = Some p'"
  by (cases "pr_main p")
    (auto simp: main_step_def exited_def Let_def split: prod.splits option.splits list.splits)

lemma process_step_left:
  assumes "process_step os net kube flags node caps perCache env p p'"
  shows "main_left perCache (pr_main p') \<le> main_left perCache (pr_main p)"
  using assms
proof (cases rule: process_step.cases)
  case main
  from main_step_left [OF this] show ?thesis by simp
next
  case registrar
  with registrar_step_keeps [of os net flags p p'] show ?thesis by auto
next
  case (health_ends err)
  then show ?thesis by (auto split: prod.splits option.splits)
qed simp_all


subsection \<open>Two runs\<close>

definition ok_net :: "unit net" where
  "ok_net = \<lparr>net_listen = (\<lambda>w s. (None, w))\<rparr>"


theorem readiness_precedes_serving_witness:
  "\<exists>p. process_reach ok_os ok_net ex_basic_kube default_flags ''node1''
       \<lparr>PartitionableDevices = False, ConsumableCapacity = False\<rparr> ex_parts (\<lambda>_ _. False) (process_start default_flags ()) p \<and>
     \<not> exited p \<and> resp_code (readyz (pr_health p)) = 200 \<and> pr_main p \<notin> {StartHealth, SetReady, Serving}"
proof -
  note ready = readiness_precedes_serving [of ok_os ok_net ex_basic_kube default_flags "''node1''"
      "\<lparr>PartitionableDevices = False, ConsumableCapacity = False\<rparr>" ex_parts "\<lambda>_ _. False" "()"]
  from conjunct2 [OF ready] obtain p where
    p: "process_reach ok_os ok_net ex_basic_kube default_flags ''node1''
       \<lparr>PartitionableDevices = False, ConsumableCapacity = False\<rparr> ex_parts (\<lambda>_ _. False) (process_start default_flags ()) p"
      "\<not> exited p" "pr_main p = OpenSocket" by (elim exE conjE)
  have "resp_code (readyz (pr_health p)) = 200"
    using conjunct1 [OF ready, rule_format, OF p(1,2)] p(3) by simp
  with p show ?thesis by (intro exI [of _ p]) simp
qed

theorem only_clean_exit_cleans_up_witness:
  "\<exists>p e. process_reach (logged ok_os) (unlogged_net ok_net) (unlogged ex_basic_kube) default_flags ''node1''
       \<lparr>PartitionableDevices = False, ConsumableCapacity = False\<rparr> ex_parts quiet_env (process_start default_flags ((), [])) p \<and>
     pr_main p = Exited (Fatal ''Health server error'' e) \<and> \<not> pr_cancelled p \<and>
     set (removed (snd (pr_world p))) \<subseteq> sockets default_flags"
proof -
  let ?caps = "\<lparr>PartitionableDevices = False, ConsumableCapacity = False\<rparr>"
  let ?p0 = "process_start default_flags ((), [])"
  let ?p1 = "?p0\<lparr>pr_main := SetReady, pr_health_up := Up\<rparr>"
  let ?p2 = "fatal ''Health server error'' (OsError ''address already in use'') ?p1"
  have s1: "process_step (logged ok_os) (unlogged_net ok_net) (unlogged ex_basic_kube) default_flags ''node1'' ?caps ex_parts quiet_env ?p0 ?p1"
    by (rule process_step.main) (simp add: main_step_def process_start_def)
  have live: "\<forall>r. pr_main ?p1 \<noteq> Exited r" "pr_health_up ?p1 = Up" by simp_all
  have s2: "process_step (logged ok_os) (unlogged_net ok_net) (unlogged ex_basic_kube) default_flags ''node1'' ?caps ex_parts quiet_env ?p1 ?p2"
    using process_step.health_ends [OF live, of "''address already in use''" "logged ok_os" "unlogged_net ok_net"
        "unlogged ex_basic_kube" default_flags "''node1''" ?caps ex_parts quiet_env]
    by (simp add: HealthServe_def)
  have r: "process_reach (logged ok_os) (unlogged_net ok_net) (unlogged ex_basic_kube) default_flags ''node1'' ?caps ex_parts quiet_env ?p0 ?p2"
    by (rule process_reach.step [OF process_reach.step [OF process_reach.init s1] s2])
  have e: "pr_main ?p2 = Exited (Fatal ''Health server error'' (Some (OsError ''address already in use'')))" by simp
  have c: "\<not> pr_cancelled ?p2" by (simp add: process_start_def)
  have "set (removed (snd (pr_world ?p2))) \<subseteq> sockets default_flags"
    using only_clean_exit_cleans_up [OF r _ e] c by (simp only: outcome.case DRACapabilities.simps simp_thms) blast
  with r e c show ?thesis by blast
qed

end
