(* ===== verification/PublishProps.thy ===== *)
theory PublishProps
  imports Discovery
begin

text \<open>
  The feature gates that the probes find, and the ResourceSlice that the API server has after the driver
  published it. The behaviour of the API server that they rest on is a hypothesis on the client.
\<close>

subsection \<open>Publishing\<close>

text \<open>
  What the API server promises about slices (documentation of the resource API): a slice that was
  created or updated is what a later read under its name returns, up to the version that the server
  assigns and the optional fields whose feature gate is off, which it drops. Shared counters and
  consumed counters belong to the first gate, repeated allocations and request policies to the
  second. A dry run answers in the same way and stores nothing.
\<close>

definition keep_device :: "DRACapabilities \<Rightarrow> slice_device \<Rightarrow> slice_device" where
  "keep_device g dev =
     dev\<lparr>dev_consumes := (if PartitionableDevices g then dev_consumes dev else []),
         dev_multi := (if ConsumableCapacity g then dev_multi dev else None),
         dev_capacity := (\<lambda>k. map_option (\<lambda>c. if ConsumableCapacity g then c else c\<lparr>cap_policy := None\<rparr>)
                                (dev_capacity dev k))\<rparr>"

definition kept :: "DRACapabilities \<Rightarrow> ResourceSlice \<Rightarrow> ResourceSlice" where
  "kept g s = s\<lparr>sl_version := [], sl_counters := (if PartitionableDevices g then sl_counters s else []),
                sl_devices := map (keep_device g) (sl_devices s)\<rparr>"

definition stored_as :: "ResourceSlice \<Rightarrow> ResourceSlice \<Rightarrow> bool" where
  "stored_as s s' \<longleftrightarrow> s'\<lparr>sl_version := []\<rparr> = s"

definition gated_server :: "'w kube \<Rightarrow> DRACapabilities \<Rightarrow> bool" where
  "gated_server kube g \<longleftrightarrow>
     (\<forall>w s r w1. kube_create_slice kube w True s = (Inr r, w1) \<longrightarrow> w1 = w \<and> stored_as (kept g s) r) \<and>
     (\<forall>w s r w1. kube_create_slice kube w False s = (Inr r, w1) \<longrightarrow>
        (\<exists>s'. kube_get_slice kube w1 (sl_name s) = Inr s' \<and> stored_as (kept g s) s')) \<and>
     (\<forall>w s w1. kube_update_slice kube w s = (None, w1) \<longrightarrow>
        (\<exists>s'. kube_get_slice kube w1 (sl_name s) = Inr s' \<and> stored_as (kept g s) s'))"

lemma gated_serverD:
  assumes "gated_server kube g"
  shows "kube_create_slice kube w True s = (Inr r, w1) \<Longrightarrow> w1 = w \<and> stored_as (kept g s) r"
    and "kube_create_slice kube w False s = (Inr r, w1) \<Longrightarrow>
      \<exists>s'. kube_get_slice kube w1 (sl_name s) = Inr s' \<and> stored_as (kept g s) s'"
    and "kube_update_slice kube w s = (None, w1) \<Longrightarrow>
      \<exists>s'. kube_get_slice kube w1 (sl_name s) = Inr s' \<and> stored_as (kept g s) s'"
  using assms unfolding gated_server_def by blast+

lemma stored_as_field: "stored_as s s' \<Longrightarrow> (\<And>t. f (t\<lparr>sl_version := []\<rparr>) = f t) \<Longrightarrow> f s' = f s"
  unfolding stored_as_def by metis

lemma stored_as_fields:
  assumes "stored_as (kept g s) s'"
  shows "sl_name s' = sl_name s" "sl_owners s' = sl_owners s" "sl_driver s' = sl_driver s" "sl_node s' = sl_node s"
    "sl_pool s' = sl_pool s" "sl_pool_count s' = sl_pool_count s"
    "sl_counters s' = (if PartitionableDevices g then sl_counters s else [])"
    "sl_devices s' = map (keep_device g) (sl_devices s)"
  using stored_as_field [OF assms, of sl_name] stored_as_field [OF assms, of sl_owners]
    stored_as_field [OF assms, of sl_driver] stored_as_field [OF assms, of sl_node]
    stored_as_field [OF assms, of sl_pool] stored_as_field [OF assms, of sl_pool_count]
    stored_as_field [OF assms, of sl_counters] stored_as_field [OF assms, of sl_devices]
  by (simp_all add: kept_def)

lemma dry_run_fields:
  assumes "gated_server kube g" "kube_create_slice kube w True s = (Inr r, w1)"
  shows "w1 = w" "sl_counters r = (if PartitionableDevices g then sl_counters s else [])"
    "sl_devices r = map (keep_device g) (sl_devices s)"
  using gated_serverD(1) [OF assms] by (auto simp: stored_as_fields)

text \<open>The owners of the slice: the node, or those that it had if the node cannot be read.\<close>

definition node_owners :: "'w kube \<Rightarrow> SlicePublisher \<Rightarrow> 'w \<Rightarrow> owner_ref list" where
  "node_owners kube sp w = (case nodeOwnerReference kube sp w of Inl _ \<Rightarrow> [] | Inr owners \<Rightarrow> owners)"

lemma PublishSlices_cases:
  assumes "PublishSlices kube sp perCache w = (None, w')"
  obtains (created) r where "kube_create_slice kube w False (slice_of sp (node_owners kube sp w) perCache) = (Inr r, w')"
  | (updated) e w1 existing owners where
      "kube_create_slice kube w False (slice_of sp (node_owners kube sp w) perCache) = (Inl e, w1)"
      "kube_get_slice kube w1 (SliceName sp) = Inr existing"
      "owners = (if node_owners kube sp w = [] then sl_owners existing else node_owners kube sp w)"
      "kube_update_slice kube w1 ((slice_of sp owners perCache)\<lparr>sl_version := sl_version existing\<rparr>) = (None, w')"
proof -
  let ?o = "node_owners kube sp w"
  have name: "sl_name (slice_of sp o' pc) = SliceName sp" for o' pc
    by (simp add: slice_of_def SliceName_def case_prod_unfold Let_def)
  have own: "sl_owners (slice_of sp o' pc) = o'" for o' pc
    by (simp add: slice_of_def case_prod_unfold Let_def)
  have upd: "(slice_of sp ?o perCache)\<lparr>sl_version := v, sl_owners := o'\<rparr> = (slice_of sp o' perCache)\<lparr>sl_version := v\<rparr>" for v o'
    by (simp add: slice_of_def case_prod_unfold Let_def)
  obtain res w1 where c: "kube_create_slice kube w False (slice_of sp ?o perCache) = (res, w1)" by fastforce
  show thesis
  proof (cases res)
    case (Inr r)
    with assms c show thesis by (intro created) (auto simp: PublishSlices_def node_owners_def Let_def)
  next
    case (Inl e)
    with assms c obtain existing where
      ex: "kube_get_slice kube w1 (SliceName sp) = Inr existing" and
      u: "kube_update_slice kube w1 (if ?o = [] \<and> 0 < length (sl_owners existing)
            then (slice_of sp ?o perCache)\<lparr>sl_version := sl_version existing, sl_owners := sl_owners existing\<rparr>
            else (slice_of sp ?o perCache)\<lparr>sl_version := sl_version existing\<rparr>) = (None, w')"
      by (auto simp: PublishSlices_def node_owners_def [symmetric] Let_def name own
          split: sum.splits option.splits prod.splits if_splits)
    let ?owners = "if ?o = [] then sl_owners existing else ?o"
    have "kube_update_slice kube w1 ((slice_of sp ?owners perCache)\<lparr>sl_version := sl_version existing\<rparr>) = (None, w')"
      using u upd by (cases "?o = [] \<and> 0 < length (sl_owners existing)") auto
    with c Inl ex show thesis by (intro updated) auto
  qed
qed

lemma slice_of_fields:
  "sl_name (slice_of sp owners perCache) = SliceName sp" "sl_owners (slice_of sp owners perCache) = owners"
  "sl_driver (slice_of sp owners perCache) = spDriverName sp" "sl_node (slice_of sp owners perCache) = spNodeName sp"
  "sl_pool (slice_of sp owners perCache) = spNodeName sp" "sl_pool_count (slice_of sp owners perCache) = 1"
  "(sl_devices (slice_of sp owners perCache), sl_counters (slice_of sp owners perCache)) =
     (if PartitionableDevices (spCaps sp) \<and> perCache \<noteq> [] then buildStructuredDevices perCache else (buildDevices perCache, []))"
  by (simp_all add: slice_of_def SliceName_def case_prod_unfold Let_def)

lemma published_slice_stored:
  assumes "gated_server kube g" "PublishSlices kube sp perCache w = (None, w')"
  obtains s owners where "kube_get_slice kube w' (SliceName sp) = Inr s"
    "stored_as (kept g (slice_of sp owners perCache)) s"
    "node_owners kube sp w \<noteq> [] \<Longrightarrow> owners = node_owners kube sp w"
  using assms(2)
proof (cases rule: PublishSlices_cases)
  case (created r)
  from gated_serverD(2) [OF assms(1) created] that show thesis by (auto simp: slice_of_fields)
next
  case (updated e w1 existing owners)
  have "kept g ((slice_of sp owners perCache)\<lparr>sl_version := v\<rparr>) = kept g (slice_of sp owners perCache)" for v
    by (simp add: kept_def)
  with gated_serverD(3) [OF assms(1) updated(4)] updated(3) that show thesis
    by (auto simp: slice_of_fields)
qed

text \<open>Basic devices use no optional field, structured ones no request policy.\<close>

lemma keep_basic_devices: "map (keep_device g) (buildDevices perCache) = buildDevices perCache"
proof -
  have "keep_device g dev = dev" if "dev \<in> set (partition_slice_devices p)" for dev p
    using that by (auto simp: partition_slice_devices_def plain_device_def keep_device_def split: if_splits)
  then show ?thesis by (auto simp: buildDevices_def intro!: map_idI)
qed

lemma keep_way_devices:
  "PartitionableDevices g \<Longrightarrow> map (keep_device g) (way_devices perCache) =
     map (\<lambda>dev. if ConsumableCapacity g then dev else dev\<lparr>dev_multi := None\<rparr>) (way_devices perCache)"
  by (induction perCache rule: way_devices.induct)
    (auto simp: keep_device_def way_device_def)

lemma probes_sound:
  assumes "gated_server kube g" "ProbeFeatureGates kube driver node w = (caps, w1)"
  shows "PartitionableDevices caps \<Longrightarrow> PartitionableDevices g" "ConsumableCapacity caps \<Longrightarrow> ConsumableCapacity g"
proof -
  show "PartitionableDevices caps \<Longrightarrow> PartitionableDevices g"
    using assms(2)
    by (auto simp: ProbeFeatureGates_def probePartitionableDevices_def Let_def dry_run_fields [OF assms(1)]
        split: prod.splits sum.splits if_splits)
  show "ConsumableCapacity caps \<Longrightarrow> ConsumableCapacity g"
    using assms(2)
    by (auto simp: ProbeFeatureGates_def probeConsumableCapacity_def keep_device_def Let_def dry_run_fields [OF assms(1)]
        split: prod.splits sum.splits list.splits option.splits if_splits)
qed


definition ex_gates :: DRACapabilities where
  "ex_gates = \<lparr>PartitionableDevices = True, ConsumableCapacity = False\<rparr>"

definition ex_gated_kube :: "DRACapabilities \<Rightarrow> ResourceSlice list kube" where
  "ex_gated_kube g = slice_kube
     \<lparr>kube_create_slice := (\<lambda>w dry s. kube_create_slice slice_kube w dry (kept g s)),
      kube_update_slice := (\<lambda>w s. kube_update_slice slice_kube w (kept g s))\<rparr>"

lemma ex_gated_server: "gated_server (ex_gated_kube g) g"
proof -
  have name: "sl_name (kept g s) = sl_name s" and ver: "sl_version (kept g s) = []" for s by (simp_all add: kept_def)
  have self: "stored_as (kept g s) (kept g s)" for s by (simp add: stored_as_def kept_def)
  have upd: "find (\<lambda>t. sl_name t = sl_name k) (map (\<lambda>t. if sl_name t = sl_name k then k else t) w) = Some k"
    if "sl_name k \<in> sl_name ` set w" for k and w :: "ResourceSlice list"
    using that by (induction w) auto
  show ?thesis
    unfolding gated_server_def ex_gated_kube_def slice_kube_def
    using self name upd [of "kept g _"] by (auto split: if_splits)
qed


text \<open>
  C26: What the driver publishes is what the API server has. Let the server have any feature gates, let
  the driver probe it, and let \<open>PublishSlices\<close> return no error, whether it created the slice or
  replaced an older one after a conflict. Then a read under the name that \<open>DeleteSlice\<close> uses returns
  a slice of this driver, node and pool with exactly the devices and shared counters that were built:
  no field on which isolation rests was dropped, as those of structured mode are published only
  after a probe. (Of the structured devices the server may drop the mark for repeated allocation,
  which belongs to the other gate.) The node owns the slice if it could be read.
\<close>

theorem published_slice_is_current:
  assumes "gated_server kube g"
    and "ProbeFeatureGates kube driver node w0 = (caps, w1)"
    and "PublishSlices kube (NewSlicePublisher driver node caps) perCache w = (None, w')"
  shows "\<exists>s. kube_get_slice kube w' (SliceName (NewSlicePublisher driver node caps)) = Inr s \<and>
    sl_driver s = driver \<and> sl_node s = node \<and> sl_pool s = node \<and> sl_pool_count s = 1 \<and>
    (sl_devices s, sl_counters s) =
      (if PartitionableDevices caps \<and> perCache \<noteq> []
       then (map (\<lambda>dev. if ConsumableCapacity g then dev else dev\<lparr>dev_multi := None\<rparr>) (way_devices perCache),
             [(''way-pool'', build_counters perCache Map.empty)])
       else (buildDevices perCache, [])) \<and>
    (\<forall>n. kube_get_node kube w node = Inr n \<longrightarrow>
       sl_owners s = [\<lparr>or_api = ''v1'', or_kind = ''Node'', or_name = node_obj_name n, or_uid = node_obj_uid n\<rparr>])"
proof -
  let ?sp = "NewSlicePublisher driver node caps"
  obtain s owners where s: "kube_get_slice kube w' (SliceName ?sp) = Inr s"
    "stored_as (kept g (slice_of ?sp owners perCache)) s" "node_owners kube ?sp w \<noteq> [] \<Longrightarrow> owners = node_owners kube ?sp w"
    using published_slice_stored [OF assms(1,3)] by metis
  have sp: "spDriverName ?sp = driver" "spNodeName ?sp = node" "spCaps ?sp = caps" by (simp_all add: NewSlicePublisher_def)
  have dev: "(sl_devices s, sl_counters s) =
      (if PartitionableDevices caps \<and> perCache \<noteq> []
       then (map (\<lambda>dev. if ConsumableCapacity g then dev else dev\<lparr>dev_multi := None\<rparr>) (way_devices perCache),
             [(''way-pool'', build_counters perCache Map.empty)])
       else (buildDevices perCache, []))"
    using slice_of_fields(7) [of ?sp owners perCache] stored_as_fields(7,8) [OF s(2)] probes_sound(1) [OF assms(1,2)]
    by (auto simp: sp buildStructuredDevices_def keep_basic_devices keep_way_devices split: if_splits)
  have own: "owners = [\<lparr>or_api = ''v1'', or_kind = ''Node'', or_name = node_obj_name n, or_uid = node_obj_uid n\<rparr>]"
    if "kube_get_node kube w node = Inr n" for n
    using that s(3) by (simp add: node_owners_def nodeOwnerReference_def sp)
  show ?thesis
    by (rule exI [of _ s]) (use s(1) dev own stored_as_fields(2-6) [OF s(2)] in \<open>simp add: slice_of_fields sp\<close>)
qed

definition ex_published :: CachePartition where
  "ex_published = \<lparr>ID = ''cache0-2way'', CacheID = 0, Index = 0, Ways = 2, TotalWays = 2, CBM = ''3'', SizeBytes = 0,
     Level = ''L3'', NUMANode = 0, ResctrlGroup = ''dra-cache-0-p0'', WaySizeBytes = 0, PartMinCBMBits = 1,
     MBAThrottle = 0, PartMBAMode = [], CPUList = [], SMBAThrottle = 0, PartSMBAMode = [],
     L2Ways = 0, L2TotalWays = 0, L2CBM = []\<rparr>"

definition ex_old_slice :: ResourceSlice where
  "ex_old_slice = probe_slice ''n-d'' ''old'' ''n''"

lemma ex_publish_update:
  "\<exists>w. PublishSlices (ex_gated_kube ex_gates) (NewSlicePublisher ''d'' ''n'' ex_gates) [[ex_published]] [ex_old_slice] = (None, w)"
  by (simp add: PublishSlices_def ex_gated_kube_def slice_kube_def ex_old_slice_def probe_slice_def Let_def kept_def
      slice_of_fields SliceName_def NewSlicePublisher_def nodeOwnerReference_def)

theorem published_slice_is_current_witness:
  "\<exists>w s. PublishSlices (ex_gated_kube ex_gates) (NewSlicePublisher ''d'' ''n'' ex_gates) [[ex_published]] [ex_old_slice] = (None, w) \<and>
     kube_get_slice (ex_gated_kube ex_gates) w ''n-d'' = Inr s \<and>
     map dev_name (sl_devices s) = [''cache0-1way'', ''cache0-2way''] \<and> sl_counters s = [(''way-pool'', [''cache0'' \<mapsto> 2])]"
proof -
  let ?k = "ex_gated_kube ex_gates"
  have probe: "ProbeFeatureGates ?k ''d'' ''n'' [] = (ex_gates, [])"
    by (simp add: ProbeFeatureGates_def probePartitionableDevices_def probeConsumableCapacity_def ex_gated_kube_def
        slice_kube_def ex_gates_def kept_def keep_device_def probe_slice_def)
  obtain w where w: "PublishSlices ?k (NewSlicePublisher ''d'' ''n'' ex_gates) [[ex_published]] [ex_old_slice] = (None, w)"
    using ex_publish_update by blast
  obtain s where s: "kube_get_slice ?k w (SliceName (NewSlicePublisher ''d'' ''n'' ex_gates)) = Inr s"
    "(sl_devices s, sl_counters s) =
      (if PartitionableDevices ex_gates \<and> [[ex_published]] \<noteq> []
       then (map (\<lambda>dev. if ConsumableCapacity ex_gates then dev else dev\<lparr>dev_multi := None\<rparr>) (way_devices [[ex_published]]),
             [(''way-pool'', build_counters [[ex_published]] Map.empty)])
       else (buildDevices [[ex_published]], []))"
    using published_slice_is_current [OF ex_gated_server probe w] by blast
  have name: "SliceName (NewSlicePublisher ''d'' ''n'' ex_gates) = ''n-d''"
    by (simp add: SliceName_def NewSlicePublisher_def)
  have upto: "[1..2] = [1, 2::int]" by (simp add: upto.simps)
  have show1: "show_int 0 = ''0''" "show_int 1 = ''1''" "show_int 2 = ''2''" by code_simp+
  have "map dev_name (sl_devices s) = [''cache0-1way'', ''cache0-2way'']" "sl_counters s = [(''way-pool'', [''cache0'' \<mapsto> 2])]"
    using s(2) by (simp_all add: ex_gates_def ex_published_def way_device_def counter_key_def upto show1)
  with w s(1) show ?thesis unfolding name by (intro exI [of _ w] exI [of _ s] conjI)
qed

end
