(* ===== verification/Spec2Isabelle.thy ===== *)
theory Spec2Isabelle
  imports BasicThreadsProps ClaimFilesProps ConcurrentProps DiscoveryProps HealthProps InventoryProps KernelRestart LedgerProps MetricsProps NumaProps ProcessProps PublishProps ResctrlProps
begin

text \<open>
  A verification library for the DRA driver that partitions CPU caches with Linux resctrl
  (\<open>src/cmd\<close> and \<open>src/pkg\<close>). The driver runs once on each node. It reads the cache allocation
  hardware, publishes devices to the Kubernetes API server, and answers the kubelet's requests
  to prepare and unprepare ResourceClaims, either in basic mode (fixed partitions whose resctrl
  groups exist from startup) or in structured mode (ways allocated, and a group created, per
  claim). A CDI hook then moves each container into the group of its device.

  The main guarantee is isolation: no two partitions, and no two claims, of a cache domain share
  a cache way, in the driver's tables and in the kernel's. Outside of its own domain a claim is not isolated
  (\<open>KernelIsolation\<close>, \<open>KernelRestart\<close>). Everything else (parsers, recovery, published inventory, files, metrics) is there to
  keep the guarantee meaningful: the masks the hardware gets are those that were computed, what
  a crash leaves behind is read back, and what the scheduler sees is what the node can deliver.

  \<^bold>\<open>Go as HOL.\<close> \<open>GoPrelude\<close>: an \<open>int\<close> or \<open>int64\<close> is an HOL \<open>int\<close> and arithmetic that can overflow is
  written with \<open>wrap64\<close>; division truncates (\<open>sdiv\<close>); errors are values (\<open>go_error\<close> on the left of
  a sum); a map is a HOL map, and where the code ranges over a map the order is an argument
  (\<open>range_order\<close>). \<open>GoStrings\<close>, \<open>GoStrconv\<close> and \<open>GoPath\<close> hold the parts of the packages \<open>strings\<close>,
  \<open>strconv\<close>, \<open>fmt\<close> and \<open>path/filepath\<close> that the driver uses, \<open>GoJson\<close> the JSON printer. \<open>uint64\<close> masks
  are 64-bit words, and \<open>WayMask\<close> reads them as sets of ways. Panics are \<open>None\<close>.

  \<^bold>\<open>Parameters.\<close> The operating system (\<open>OsModel\<close>: a record of calls over any type of worlds), the API
  server (\<open>KubeModel\<close>: a record of client calls), the order of map ranges and clock readings are
  arguments. \<open>Kernel\<close> adds the resctrl kernel: a view from worlds to the masks of its groups, with laws for creating and
  removing a group, for writing its schemata, and for calls elsewhere (\<open>resctrl_kernel\<close>); \<open>kernel_prints\<close> is the law for reading
  schemata back. A concrete kernel \<open>kfs\<close> that parses and prints schemata satisfies them. Theorems hold for all of them unless a hypothesis says otherwise; the concrete \<open>mem_os\<close> and \<open>list_kube\<close>
  are used in the witnesses only.

  \<^bold>\<open>Theories and sources.\<close>
  \<^item> \<open>Resctrl\<close>, \<open>ResctrlProps\<close>: \<open>pkg/resctrl/resctrl.go\<close>, the resctrl file system.
  \<^item> \<open>Partition\<close>, \<open>PartitionProps\<close>: \<open>pkg/cache/partition.go\<close> and \<open>model.go\<close>, specs and partitions.
  \<^item> \<open>Numa\<close>, \<open>NumaProps\<close>: \<open>pkg/cache/numa.go\<close>, the lookups below \<open>/sys\<close>.
  \<^item> \<open>WayAlloc\<close>, \<open>WayAllocProps\<close>: \<open>pkg/driver/wayallocator.go\<close>. The locale \<open>way_pool\<close> is its contract.
  \<^item> \<open>AllocState\<close>, \<open>Recovery\<close>, \<open>ClaimProps\<close>: \<open>state.go\<close> and \<open>recovery.go\<close>. The locale \<open>claim_store\<close> is the contract
    of the ownership table; the loop over result pages is a partial function, proved to end
    on every finite chain of pages.
  \<^item> \<open>Cdi\<close>: \<open>cdi.go\<close>; \<open>FeatureGates\<close>: \<open>featuregates.go\<close>; \<open>Registrar\<close>: \<open>registrar.go\<close>.
  \<^item> \<open>Metrics\<close>, \<open>Monitor\<close>: \<open>metrics.go\<close>, \<open>monitor.go\<close>; \<open>MetricsProps\<close>: every update fits its metric.
  \<^item> \<open>Driver\<close>: \<open>driver.go\<close>; \<open>BasicProps\<close> and \<open>StructuredProps\<close> hold the theorems of the two modes.
  \<^item> \<open>Concurrent\<close>: the structured handlers of \<open>driver.go\<close> as threads; \<open>ConcurrentProps\<close>: their invariant, that they
    end, and that a thread alone is the sequential handler. \<open>BasicThreads\<close>, \<open>BasicThreadsProps\<close>: the same for basic mode.
  \<^item> \<open>Discovery\<close>, \<open>DiscoveryProps\<close>, \<open>PublishProps\<close>: \<open>discovery.go\<close>, the published devices and slices.
  \<^item> \<open>Startup\<close>, \<open>Lifecycle\<close>: \<open>cmd/driver/main.go\<close>, from the inventory to the started driver, and the program
    around it (flags, API client, gRPC server, shutdown). \<open>InventoryProps\<close>: the inventory from the kernel files on;
    \<open>LifecycleProps\<close>: what starting and stopping does to the file system.
  \<^item> \<open>Health\<close>, \<open>HealthProps\<close>: \<open>health.go\<close>, and what its liveness check waits for.
  \<^item> \<open>ClaimFilesProps\<close>: the files of a claim in structured mode agree with the allocation table.
  \<^item> \<open>Kernel\<close>: what \<open>CreateGroup\<close> and \<open>DeleteGroup\<close> do to the kernel's groups. \<open>KernelProps\<close>: its agreement with the driver's tables is an
    invariant of all interleavings. \<open>KernelIsolation\<close>: structured mode; \<open>KernelBasic\<close>: basic mode, from the flags to the
    kernel; \<open>KernelRestart\<close>: a restart with claims in the kernel.
  \<^item> \<open>Ledger\<close>, \<open>LedgerProps\<close>: an abstract machine of grants and returns of ways, its accounting, and the proof that the
    threads of \<open>Concurrent\<close> refine it event by event.
  \<^item> \<open>Process\<close>, \<open>ProcessProps\<close>: the end of \<open>main.go\<close> as a process with its server goroutines, the signal and the clean-up.
  \<^item> \<open>OsTrace\<close>: an operating system that logs the calls that change files, for the theories on files and on the process.
  \<^item> This theory: the properties that span components.

  \<^bold>\<open>State and steps.\<close> A handler takes the world and the driver record and returns both. Histories of
  handlers are inductive relations: \<open>structured_run\<close> (any sequence of prepare, unprepare and recovery calls),
  \<open>orderly_run\<close> (a claim is prepared only while it holds nothing), \<open>basic_run\<close> and \<open>st_reach\<close>. Their
  invariants (\<open>structured_inv\<close>, ownership of known partitions) are proved by rule induction.

  \<^bold>\<open>Concurrency.\<close> gRPC serves every request in its own goroutine. \<open>sys_step\<close> runs one critical section, or
  one call to the file system or the API server, of one thread, whose position \<open>pc\<close> carries its local variables;
  \<open>sys_reach\<close> adds requests that arrive and changes of the world from outside. The invariant \<open>sys_inv\<close> counts
  every mask once, also while it is between the pool and the table, in the hands of a thread. \<open>schedule\<close> counts
  steps, with \<open>sys_work\<close> as the bound; \<open>solo\<close> runs one thread to its end. In basic mode (\<open>bs_step\<close>) the only shared state is
  the allocation state behind its lock; \<open>bs_inv\<close> says that what has been promised to a claim is owned by it.
  \<open>kernel_reach\<close> are the runs of \<open>sys_step\<close> in which the kubelet works on one call per claim at a time, as its device manager does,
  and no other program changes the groups of claims; its invariant is \<open>kernel_inv\<close>. \<open>process_step\<close> runs one statement of
  \<open>main\<close> or one call of a server goroutine; the requests that are served meanwhile are changes of the world there.

  \<^bold>\<open>Loops.\<close> Counting loops are structural. Two loops may run for ever and are \<open>partial_function\<close>s with
  the exact termination condition proved: the page loop and the CPU range loop, whose counter
  wraps around. No fuel is used. The retries of the API client and the ticks of the monitor are recursions over the
  number of attempts and the list of ticks.

  \<^bold>\<open>Not modelled.\<close> Log calls; the parsing of the command line (its result is the record \<open>Flags\<close>); the
  bucket bounds of histograms; the HTTP and gRPC runtimes, which are parameters or steps that may fail at any time; \<open>Utilization\<close> in \<open>model.go\<close>, a floating-point ratio that nothing calls, and
  the division of a rate; \<open>CacheDomain\<close> in \<open>model.go\<close>, an unused type. Manifests and prose are not code.
\<close>

section \<open>Properties that span components\<close>

subsection \<open>From startup to isolated claims\<close>

text \<open>
  C1: End to end, a node in structured mode isolates its claims, under concurrency. Take any driver
  that started, with any API server and any file system. Let any prepare and unprepare requests
  arrive at any time and their threads interleave in any way, while files and API objects change
  underneath. At every moment, two masks of one cache domain, each held by a recorded claim or still
  in flight in a thread, never share a cache way; the domain is one that the hardware reported,
  and the mask is a run of ways that exist in the cache.
\<close>

theorem started_driver_isolates:
  assumes "start_driver os kube root node hook cdi info perCache w = Some (Started d0, w0)"
    and "PartitionableDevices (drvCaps d0)"
    and "sys_reach os kube root \<lparr>sys_world = w0, sys_driver = d0, sys_threads = []\<rparr> s"
    and "sys_held s k = Some (c, m)" "sys_held s k' = Some (c, m')" "k \<noteq> k'"
  shows "way_set m \<inter> way_set m' = {} \<and> c \<in> set (CacheIDs info) \<and>
    (\<exists>start n. 0 \<le> start \<and> 0 < n \<and> start + n \<le> NumWays info \<and> way_set m = run_set start n)"
proof -
  have inv: "sys_inv s"
    using sys_reach_inv [OF assms(3) sys_inv_start] start_driver_structured(1) [OF assms(1,2)] .
  have tot: "totalWays (wayAlloc (sys_driver s)) = ways_per_domain info"
    using sys_reach_total [OF assms(3)] start_driver_structured(2) [OF assms(1,2)] by simp
  from inv assms(4-6) have "way_set m \<inter> way_set m' = {}" unfolding sys_inv_def holds_def by blast
  moreover have "good_mask (ways_per_domain info) c m"
    using inv assms(4) tot unfolding sys_inv_def by metis
  ultimately show ?thesis by (auto simp: good_mask_def ways_per_domain_Some)
qed

definition ex_dra_claim :: "string \<Rightarrow> string \<Rightarrow> ResourceClaim" where
  "ex_dra_claim uid device =
     \<lparr>claim_uid = uid, claim_namespace = ''default'', claim_name = ''claim-'' @ uid,
      claim_allocation = Some [\<lparr>res_request = ''cache'', res_driver = mainDriverName, res_pool = ''node1'',
                                res_device = device\<rparr>]\<rparr>"

definition ex_dra_kube :: "memfs kube" where
  "ex_dra_kube = (list_kube [ex_dra_claim ''uid-0001'' ''cache0-5way'', ex_dra_claim ''uid-0002'' ''cache0-3way''])
     \<lparr>kube_create_slice := (\<lambda>w dry s. (Inr s, w))\<rparr>"

lemma ex_dra_get:
  "kube_get_claim ex_dra_kube w (kc_namespace (ex_kclaim ''uid-0001'')) (kc_name (ex_kclaim ''uid-0001'')) =
     Inr (ex_dra_claim ''uid-0001'' ''cache0-5way'')"
  "kube_get_claim ex_dra_kube w (kc_namespace (ex_kclaim ''uid-0002'')) (kc_name (ex_kclaim ''uid-0002'')) =
     Inr (ex_dra_claim ''uid-0002'' ''cache0-3way'')"
  by (simp_all add: ex_dra_kube_def list_kube_def ex_kclaim_def ex_dra_claim_def)

lemma ex_dra_start:
  obtains d0 where
    "start_driver mem_os ex_dra_kube ''/r'' ''node1'' ''/hook'' ''/cdi'' example_info [] ex_fs = Some (Started d0, ex_fs)"
    "PartitionableDevices (drvCaps d0)" "driverName d0 = mainDriverName" "nodeName d0 = ''node1''"
    "wayAlloc d0 = NewWayAllocator (ways_per_domain example_info)" "structuredAllocs d0 = Map.empty"
proof -
  have probe: "ProbeFeatureGates ex_dra_kube mainDriverName ''node1'' ex_fs =
      (\<lparr>PartitionableDevices = True, ConsumableCapacity = True\<rparr>, ex_fs)"
    by (simp add: ProbeFeatureGates_def probePartitionableDevices_def probeConsumableCapacity_def
        ex_dra_kube_def probe_slice_def Let_def)
  have pub: "PublishSlices ex_dra_kube sp [] ex_fs = (None, ex_fs)" for sp
    by (simp add: PublishSlices_def ex_dra_kube_def Let_def)
  let ?d = "NewDriver mainDriverName ''node1'' (NewAllocationState [])
    \<lparr>PartitionableDevices = True, ConsumableCapacity = True\<rparr>
    (NewWayAllocator (ways_per_domain example_info)) (Some example_info) ''/hook'' ''/cdi''"
  have rec: "RecoverStructuredAllocs mem_os ''/r'' ex_fs ?d = ?d"
    by (simp add: RecoverStructuredAllocs_def RebuildFromResctrl_def NewDriver_def go_eval ex_fs_def Let_def
        List.map_filter_simps)
  show thesis
  proof (rule that [of ?d])
    show "start_driver mem_os ex_dra_kube ''/r'' ''node1'' ''/hook'' ''/cdi'' example_info [] ex_fs = Some (Started ?d, ex_fs)"
      by (simp add: start_driver_def probe pub rec Let_def)
  qed (simp_all add: NewDriver_def)
qed

text \<open>Two requests whose threads are between the allocation and the creation of the group.\<close>

theorem started_driver_isolates_witness:
  "\<exists>d0 s m m'. start_driver mem_os ex_dra_kube ''/r'' ''node1'' ''/hook'' ''/cdi'' example_info [] ex_fs =
       Some (Started d0, ex_fs) \<and>
     sys_reach mem_os ex_dra_kube ''/r'' \<lparr>sys_world = ex_fs, sys_driver = d0, sys_threads = []\<rparr> s \<and>
     sys_held s (Inl 0) = Some (0, m) \<and> sys_held s (Inl 1) = Some (0, m') \<and> way_set m \<inter> way_set m' = {}"
proof -
  obtain d0 where st: "start_driver mem_os ex_dra_kube ''/r'' ''node1'' ''/hook'' ''/cdi'' example_info [] ex_fs =
      Some (Started d0, ex_fs)" "PartitionableDevices (drvCaps d0)"
    and d0: "driverName d0 = mainDriverName" "nodeName d0 = ''node1''"
      "wayAlloc d0 = NewWayAllocator (ways_per_domain example_info)"
    by (rule ex_dra_start)
  have tw: "ways_per_domain example_info 0 = Some 20"
    by (simp add: ways_per_domain_Some) (simp add: example_info_def)
  obtain a1 a2 where al: "WayAllocate 0 5 (wayAlloc d0) = (Inr 0x1f, a1)" "WayAllocate 0 3 a1 = (Inr 0xe0, a2)"
    using tw by (simp add: d0(3) way_evals)
  let ?r = "\<lambda>dev. \<lparr>res_request = ''cache'', res_driver = mainDriverName, res_pool = ''node1'', res_device = dev\<rparr>"
  let ?c1 = "ex_kclaim ''uid-0001''" and ?c2 = "ex_kclaim ''uid-0002''"
  let ?j = "\<lambda>c dev n m. \<lparr>job_claim = c, job_result = ?r dev, job_cache = 0, job_ways = n, job_cbm = m,
    job_rest = [], job_devices = []\<rparr>"
  let ?th = "\<lambda>p. \<lparr>th_pc = p, th_calls = [], th_resp = Map.empty\<rparr>"
  let ?step = "thread_step mem_os ex_dra_kube ''/r''"
  let ?d1 = "d0\<lparr>wayAlloc := a1\<rparr>" and ?d2 = "d0\<lparr>wayAlloc := a1\<rparr>\<lparr>wayAlloc := a2\<rparr>"
  have first: "?step (request [PrepareCall c]) ex_fs d = Some (?th (Fetch c), ex_fs, d)" for c d
    by (simp add: thread_step_def request_def)
  have fetch: "?step (?th (Fetch ?c1)) ex_fs d = Some (?th (Loop ?c1 [?r ''cache0-5way''] []), ex_fs, d)"
    "?step (?th (Fetch ?c2)) ex_fs d = Some (?th (Loop ?c2 [?r ''cache0-3way''] []), ex_fs, d)" for d
    unfolding thread_step_def thread.simps pc.case fetch_step_def ex_dra_get by (simp_all add: ex_dra_claim_def)
  have take1: "?step (?th (Loop ?c1 [?r ''cache0-5way''] [])) ex_fs d0 =
      Some (?th (MakeGroup (?j ?c1 ''cache0-5way'' 5 0x1f)), ex_fs, ?d1)"
    by (simp add: thread_step_def loop_step_def d0 ex_names al [unfolded d0(3)])
  have take2: "?step (?th (Loop ?c2 [?r ''cache0-3way''] [])) ex_fs ?d1 =
      Some (?th (MakeGroup (?j ?c2 ''cache0-3way'' 3 0xe0)), ex_fs, ?d2)"
    by (simp add: thread_step_def loop_step_def d0 ex_names al)
  let ?s0 = "\<lparr>sys_world = ex_fs, sys_driver = d0, sys_threads = []\<rparr>"
  note run = sys_reach_run [where os = mem_os and kube = ex_dra_kube and root = "''/r''" and ?s0.0 = ?s0]
  have "sys_reach mem_os ex_dra_kube ''/r'' ?s0
      \<lparr>sys_world = ex_fs, sys_driver = d0, sys_threads = [request [PrepareCall ?c1], request [PrepareCall ?c2]]\<rparr>"
    using sys_reach.arrive [OF sys_reach.arrive [OF sys_reach.start], of mem_os ex_dra_kube "''/r''" ?s0
      "[PrepareCall ?c1]" "[PrepareCall ?c2]"] by simp
  from run [OF this, of 0] first [of ?c1]
  have "sys_reach mem_os ex_dra_kube ''/r'' ?s0
      \<lparr>sys_world = ex_fs, sys_driver = d0, sys_threads = [?th (Fetch ?c1), request [PrepareCall ?c2]]\<rparr>"
    by simp
  from run [OF this, of 1] first [of ?c2]
  have "sys_reach mem_os ex_dra_kube ''/r'' ?s0
      \<lparr>sys_world = ex_fs, sys_driver = d0, sys_threads = [?th (Fetch ?c1), ?th (Fetch ?c2)]\<rparr>"
    by simp
  from run [OF this, of 0] fetch(1)
  have "sys_reach mem_os ex_dra_kube ''/r'' ?s0
      \<lparr>sys_world = ex_fs, sys_driver = d0, sys_threads = [?th (Loop ?c1 [?r ''cache0-5way''] []), ?th (Fetch ?c2)]\<rparr>"
    by simp
  from run [OF this, of 1] fetch(2)
  have "sys_reach mem_os ex_dra_kube ''/r'' ?s0 \<lparr>sys_world = ex_fs, sys_driver = d0,
      sys_threads = [?th (Loop ?c1 [?r ''cache0-5way''] []), ?th (Loop ?c2 [?r ''cache0-3way''] [])]\<rparr>"
    by simp
  from run [OF this, of 0] take1
  have "sys_reach mem_os ex_dra_kube ''/r'' ?s0 \<lparr>sys_world = ex_fs, sys_driver = ?d1,
      sys_threads = [?th (MakeGroup (?j ?c1 ''cache0-5way'' 5 0x1f)), ?th (Loop ?c2 [?r ''cache0-3way''] [])]\<rparr>"
    by simp
  from run [OF this, of 1] take2
  have "sys_reach mem_os ex_dra_kube ''/r'' ?s0 \<lparr>sys_world = ex_fs, sys_driver = ?d2,
      sys_threads = [?th (MakeGroup (?j ?c1 ''cache0-5way'' 5 0x1f)), ?th (MakeGroup (?j ?c2 ''cache0-3way'' 3 0xe0))]\<rparr>"
    (is "sys_reach _ _ _ _ ?s") by simp
  note reach = this
  have h: "sys_held ?s (Inl 0) = Some (0, 0x1f)" "sys_held ?s (Inl 1) = Some (0, 0xe0)"
    by (simp_all add: sys_held_def)
  from started_driver_isolates [OF st reach h] have "way_set (0x1f :: 64 word) \<inter> way_set 0xe0 = {}" by simp
  with st(1) reach h show ?thesis by blast
qed

subsection \<open>From a CDI device to the resctrl group\<close>

text \<open>
  C32: A container joins the group of the partition that it was given: every CDI device of the node's
  spec, for cache or bandwidth, belongs to one partition and has exactly one hook, and running
  the driver as that hook, with the arguments of the spec, writes the container's PID to the tasks
  file of that partition's resctrl group and does nothing else; a failed write is reported.
\<close>

theorem cdi_hook_joins_group:
  assumes "dev \<in> set (CdiDevices (node_spec bin perCache))" "pid \<noteq> 0"
    and "\<forall>p \<in> set (AllPartitions perCache). ResctrlGroup p \<noteq> []"
  shows "\<exists>p \<in> set (AllPartitions perCache). \<exists>h. CdiName dev \<in> {ID p, MBADeviceID p, SMBADeviceID p} \<and>
    EditHooks (ContainerEdits dev) = [h] \<and>
    runCDIHook os root (drop 2 (HookArgs h)) (Inr pid) w =
      (case os_write_file os w (path_join [root, ResctrlGroup p, ''tasks'']) (show_int pid) of
         (None, w1) \<Rightarrow> (None, w1)
       | (Some e, w1) \<Rightarrow> (Some (Wrapf ''assigning pid %d to resctrl group %s: %w''
                             [ArgInt pid, ArgStr (ResctrlGroup p)] (OsError e)), w1))"
proof -
  from assms(1) obtain p where p: "p \<in> set (AllPartitions perCache)" "dev \<in> set (partition_devices bin p)"
    by (auto simp: node_spec_def AllPartitions_def)
  from p(2) have d: "CdiName dev \<in> {ID p, MBADeviceID p, SMBADeviceID p}"
    "EditHooks (ContainerEdits dev) = [resctrlHook bin (ResctrlGroup p)]"
    by (auto simp: partition_devices_def split: if_splits)
  have "runCDIHook os root (drop 2 (HookArgs (resctrlHook bin (ResctrlGroup p)))) (Inr pid) w =
      (case os_write_file os w (path_join [root, ResctrlGroup p, ''tasks'']) (show_int pid) of
         (None, w1) \<Rightarrow> (None, w1)
       | (Some e, w1) \<Rightarrow> (Some (Wrapf ''assigning pid %d to resctrl group %s: %w''
                             [ArgInt pid, ArgStr (ResctrlGroup p)] (OsError e)), w1))"
    unfolding resctrlHook_def CDIHook.select_convs numeral_2_eq_2 drop_Suc_Cons drop_0
    using assms(2,3) p(1) by (intro runCDIHook_joins) simp_all
  with p(1) d show ?thesis by blast
qed

theorem cdi_hook_joins_group_witness:
  "\<exists>h w1. EditHooks (ContainerEdits (hd (CdiDevices (node_spec ''/hook'' [[ex_part 0]])))) = [h] \<and>
     runCDIHook mem_os ''/r'' (drop 2 (HookArgs h)) (Inr 42) ex_fs = (None, w1) \<and>
     mem_read_file w1 (path_join [''/r'', ''dra-cache0-part0'', ''tasks'']) = Inr ''42''"
proof -
  have g: "ResctrlGroup (ex_part 0) = ''dra-cache0-part0''"
    by (simp add: ex_part_def make_partition_def Let_def show_evals)
  have all: "AllPartitions [[ex_part 0]] = [ex_part 0]" by (simp add: AllPartitions_def)
  have dev: "hd (CdiDevices (node_spec ''/hook'' [[ex_part 0]])) \<in> set (CdiDevices (node_spec ''/hook'' [[ex_part 0]]))"
    by (simp add: node_spec_def partition_devices_def)
  have ne: "\<forall>p \<in> set (AllPartitions [[ex_part 0]]). ResctrlGroup p \<noteq> []" by (simp add: all g)
  have wr: "os_write_file mem_os ex_fs q data = (None, \<lparr>mem_dirs = [''/r''], mem_files = [(q, data)]\<rparr>)" for q data
    by (simp add: mem_os_def mem_write_file_def ex_fs_def)
  have pid: "show_int 42 = ''42''" by (simp add: show_evals)
  from cdi_hook_joins_group [OF dev _ ne, of 42 mem_os "''/r''" ex_fs] show ?thesis
    by (auto simp: all g wr pid mem_read_file_def)
qed

end
